(* ===== verification/Prelude.thy ===== *)
theory Prelude
  imports Complex_Main "HOL-Library.List_Lexorder" "HOL-Library.Product_Lexorder"
begin

text \<open>
  Shared vocabulary of the development.

  \<^item> JavaScript strings are lists of Unicode code points (\<open>jstr\<close>); ASCII literals of the source are
    written \<open>asc ''...''\<close>.  JavaScript's \<open><\<close> on strings is the lexicographic order that
    \<open>HOL-Library.List_Lexorder\<close> puts on lists.  (The source only compares identifiers and sort
    keys, which are printable ASCII, where code units and code points agree.)
  \<^item> A \<open>Record<Id, X>\<close> is a \<open>store\<close>: an association list in insertion order, read by \<open>get\<close> and
    written by \<open>put\<close>.  The locale \<open>keyed_store\<close> states the contract the reducer relies on and
    derives the preservation lemmas its invariants use; it is interpreted on \<open>get\<close>/\<open>put\<close>.
  \<^item> \<open>json\<close> is the data a wire payload or a patch can hold.
  \<^item> A handler that checks guards in sequence and stops at the first failing one is
    \<open>first_refusal\<close> over the list of its guards.
\<close>

section \<open>Strings\<close>

type_synonym jstr = "int list"

definition asc :: "string \<Rightarrow> jstr" where
  "asc s = map of_char s"

lemma asc_simps:
  "asc [] = []"
  "asc (c # s) = of_char c # asc s"
  by (simp_all add: asc_def)

lemma of_char_int_eq_iff: "(of_char c :: int) = of_char d \<longleftrightarrow> c = d"
  by (metis of_char_eq_iff)

lemma asc_eq_iff [simp]: "asc s = asc t \<longleftrightarrow> s = t"
proof (induction s arbitrary: t)
  case Nil
  then show ?case by (cases t) (auto simp: asc_simps)
next
  case (Cons c s)
  then show ?case by (cases t) (auto simp: asc_simps of_char_int_eq_iff)
qed

text \<open>\<open>String#length\<close> counts UTF-16 code units: a code point outside the BMP counts twice.\<close>

fun js_length :: "jstr \<Rightarrow> nat" where
  "js_length [] = 0"
| "js_length (c # s) = (if c \<ge> 65536 then 2 else 1) + js_length s"

lemma js_length_eq_0 [simp]: "js_length s = 0 \<longleftrightarrow> s = []"
  by (cases s) auto

lemma js_length_append [simp]: "js_length (s @ t) = js_length s + js_length t"
  by (induction s) auto

lemma js_length_ge_length: "length s \<le> js_length s"
  by (induction s) auto

text \<open>\<open>Array#includes\<close>, \<open>Array#some\<close> and the order-preserving deduplication of a \<open>Set\<close>.\<close>

fun dedup :: "'a list \<Rightarrow> 'a list" where
  "dedup [] = []"
| "dedup (x # xs) = x # filter (\<lambda>y. y \<noteq> x) (dedup xs)"

lemma set_dedup [simp]: "set (dedup xs) = set xs"
  by (induction xs) auto

lemma distinct_dedup [simp]: "distinct (dedup xs)"
  by (induction xs) auto

section \<open>JSON values\<close>

datatype json =
    JNull
  | JBool bool
  | JNum rat
  | JStr jstr
  | JArr "json list"
  | JObj "(jstr \<times> json) list"

type_synonym fields = "(jstr \<times> json) list"

abbreviation jstring :: "string \<Rightarrow> json" where
  "jstring s \<equiv> JStr (asc s)"

text \<open>\<open>value[key]\<close> on a JSON object; \<open>None\<close> is JavaScript's \<open>undefined\<close>.\<close>

definition field :: "fields \<Rightarrow> string \<Rightarrow> json option" where
  "field fs k = map_of fs (asc k)"

section \<open>Stores\<close>

type_synonym 'v store = "(jstr \<times> 'v) list"

definition get :: "'v store \<Rightarrow> jstr \<Rightarrow> 'v option" where
  "get s k = map_of s k"

fun put :: "jstr \<Rightarrow> 'v \<Rightarrow> 'v store \<Rightarrow> 'v store" where
  "put k v [] = [(k, v)]"
| "put k v ((k', v') # s) = (if k' = k then (k, v) # s else (k', v') # put k v s)"

definition keys :: "'v store \<Rightarrow> jstr list" where
  "keys s = map fst s"

text \<open>
  The contract of a keyed store, and what follows from it: \<open>entries_put\<close> is the step every
  invariant of the form ``all records satisfy P'' goes through, and \<open>entries_update\<close> is the same
  for an in-place update of one record.
\<close>

locale keyed_store =
  fixes lookup :: "'s \<Rightarrow> 'k \<Rightarrow> 'v option"
    and insert :: "'k \<Rightarrow> 'v \<Rightarrow> 's \<Rightarrow> 's"
    and empty :: "'s"
    and dom_list :: "'s \<Rightarrow> 'k list"
  assumes lookup_empty: "lookup empty k = None"
    and lookup_insert: "lookup (insert k v s) k' = (if k' = k then Some v else lookup s k')"
    and dom_list_lookup: "k \<in> set (dom_list s) \<longleftrightarrow> lookup s k \<noteq> None"
    and dom_list_insert: "dom_list (insert k v s) = (if lookup s k = None then dom_list s @ [k] else dom_list s)"
    and dom_list_empty: "dom_list empty = []"
begin

definition entries_all :: "('k \<Rightarrow> 'v \<Rightarrow> bool) \<Rightarrow> 's \<Rightarrow> bool" where
  "entries_all P s \<longleftrightarrow> (\<forall>k v. lookup s k = Some v \<longrightarrow> P k v)"

lemma entries_empty: "entries_all P empty"
  by (simp add: entries_all_def lookup_empty)

lemma entries_put: "entries_all P s \<Longrightarrow> P k v \<Longrightarrow> entries_all P (insert k v s)"
  by (simp add: entries_all_def lookup_insert)

lemma entries_update:
  "entries_all P s \<Longrightarrow> lookup s k = Some v \<Longrightarrow> (P k v \<Longrightarrow> P k (f v)) \<Longrightarrow>
   entries_all P (insert k (f v) s)"
  by (simp add: entries_all_def lookup_insert)

lemma entries_mono:
  "entries_all P s \<Longrightarrow> (\<And>k v. lookup s k = Some v \<Longrightarrow> P k v \<Longrightarrow> Q k v) \<Longrightarrow> entries_all Q s"
  by (simp add: entries_all_def)

lemma lookup_insert_same: "lookup (insert k v s) k = Some v"
  by (simp add: lookup_insert)

lemma lookup_insert_other: "k' \<noteq> k \<Longrightarrow> lookup (insert k v s) k' = lookup s k'"
  by (simp add: lookup_insert)

lemma dom_mono: "set (dom_list s) \<subseteq> set (dom_list (insert k v s))"
  by (auto simp: dom_list_insert)

lemma dom_distinct_insert: "distinct (dom_list s) \<Longrightarrow> distinct (dom_list (insert k v s))"
  by (auto simp: dom_list_insert dom_list_lookup)

end

lemma get_put: "get (put k v s) k' = (if k' = k then Some v else get s k')"
  by (induction k v s rule: put.induct) (auto simp: get_def)

lemma keys_put: "keys (put k v s) = (if get s k = None then keys s @ [k] else keys s)"
  by (induction k v s rule: put.induct) (auto simp: get_def keys_def)

lemma keys_get: "k \<in> set (keys s) \<longleftrightarrow> get s k \<noteq> None"
  by (auto simp: keys_def get_def map_of_eq_None_iff)

interpretation st: keyed_store get put "[]" keys
  by unfold_locales (auto simp: get_put keys_put keys_get, simp_all add: get_def keys_def)

lemmas get_put_simps [simp] = st.lookup_insert st.lookup_empty

text \<open>
  The order in which \<open>Object.keys\<close> and \<open>Object.values\<close> list own properties: canonical array
  indices first, in numeric order, then the other keys in insertion order.
\<close>

fun digits_value :: "int \<Rightarrow> jstr \<Rightarrow> int" where
  "digits_value acc [] = acc"
| "digits_value acc (c # s) = digits_value (10 * acc + (c - 48)) s"

definition is_digit :: "int \<Rightarrow> bool" where
  "is_digit c \<longleftrightarrow> 48 \<le> c \<and> c \<le> 57"

definition array_index :: "jstr \<Rightarrow> bool" where
  "array_index k \<longleftrightarrow> k \<noteq> [] \<and> list_all is_digit k \<and> (hd k \<noteq> 48 \<or> length k = 1) \<and>
     digits_value 0 k < 4294967295"

definition own_entries :: "'v store \<Rightarrow> (jstr \<times> 'v) list" where
  "own_entries s = sort_key (\<lambda>e. digits_value 0 (fst e)) (filter (\<lambda>e. array_index (fst e)) s) @
     filter (\<lambda>e. \<not> array_index (fst e)) s"

lemma set_own_entries [simp]: "set (own_entries s) = set s"
  by (auto simp: own_entries_def)

section \<open>Guard sequences\<close>

fun first_refusal :: "'r option list \<Rightarrow> 'r option" where
  "first_refusal [] = None"
| "first_refusal (None # gs) = first_refusal gs"
| "first_refusal (Some r # gs) = Some r"

lemma first_refusal_None [simp]: "first_refusal gs = None \<longleftrightarrow> (\<forall>g \<in> set gs. g = None)"
  by (induction gs rule: first_refusal.induct) auto

lemma first_refusal_append:
  "first_refusal (gs @ hs) = (case first_refusal gs of None \<Rightarrow> first_refusal hs | Some r \<Rightarrow> Some r)"
  by (induction gs rule: first_refusal.induct) auto

definition refuse_if :: "bool \<Rightarrow> 'r \<Rightarrow> 'r option" where
  "refuse_if b r = (if b then Some r else None)"

lemma refuse_if_None [simp]: "refuse_if b r = None \<longleftrightarrow> \<not> b"
  by (simp add: refuse_if_def)

lemma refuse_if_Some [simp]: "refuse_if b r = Some r' \<longleftrightarrow> b \<and> r' = r"
  by (auto simp: refuse_if_def)

section \<open>Collections of facts\<close>

named_theorems reduce_defs \<open>the handlers of the reducer and their guards\<close>
named_theorems plan_defs \<open>the planners of a correction\<close>
named_theorems json_defs \<open>the schemas and their printers\<close>

end
