(* ===== verification/JsText.thy ===== *)
theory JsText
  imports Prelude
begin

text \<open>
  The text primitives the Semantic Core takes from the JavaScript runtime, and the emptiness test
  of \<open>matching.ts\<close>.

  The Unicode character database is data of the runtime, not of the repository: the properties
  the source names in its regular expressions (\<open>\p{L}\<close>, \<open>\p{N}\<close>, \<open>\p{M}\<close>,
  \<open>\p{Extended_Pictographic}\<close>, \<open>\p{Regional_Indicator}\<close>), \<open>String#normalize('NFKC')\<close>,
  \<open>String#toLowerCase\<close> and zod's \<open>z.url()\<close> are fields of the record \<open>unicode\<close>, and every
  definition that depends on them takes the record as an argument.  The closed lists the source
  relies on (\<open>White_Space\<close>, \<open>\s\<close>, the line breaks) are written out.
\<close>

record unicode =
  is_letter :: "int \<Rightarrow> bool"
  is_number :: "int \<Rightarrow> bool"
  is_mark :: "int \<Rightarrow> bool"
  is_pictographic :: "int \<Rightarrow> bool"
  is_regional :: "int \<Rightarrow> bool"
  nfkc :: "jstr \<Rightarrow> jstr"
  to_lower :: "jstr \<Rightarrow> jstr"
  is_url :: "jstr \<Rightarrow> bool"

text \<open>The ASCII fragment of the database: a concrete instance for evaluation.\<close>

definition ascii_lower_char :: "int \<Rightarrow> int" where
  "ascii_lower_char c = (if 65 \<le> c \<and> c \<le> 90 then c + 32 else c)"

definition ascii_letter :: "int \<Rightarrow> bool" where
  "ascii_letter c \<longleftrightarrow> 65 \<le> c \<and> c \<le> 90 \<or> 97 \<le> c \<and> c \<le> 122"

definition ascii :: unicode where
  "ascii = \<lparr>is_letter = ascii_letter, is_number = is_digit, is_mark = (\<lambda>_. False),
     is_pictographic = (\<lambda>_. False), is_regional = (\<lambda>_. False), nfkc = (\<lambda>s. s),
     to_lower = map ascii_lower_char, is_url = (\<lambda>s. s \<noteq> [])\<rparr>"

section \<open>Whitespace\<close>

text \<open>Unicode's \<open>White_Space\<close> property (a closed, published list).\<close>

definition white_space :: "int \<Rightarrow> bool" where
  "white_space c \<longleftrightarrow> 9 \<le> c \<and> c \<le> 13 \<or> c = 32 \<or> c = 133 \<or> c = 160 \<or> c = 5760 \<or>
     8192 \<le> c \<and> c \<le> 8202 \<or> c = 8232 \<or> c = 8233 \<or> c = 8239 \<or> c = 8287 \<or> c = 12288"

text \<open>JavaScript's \<open>\s\<close>, which is also what \<open>String#trim\<close> strips: no U+0085, but U+FEFF.\<close>

definition js_space :: "int \<Rightarrow> bool" where
  "js_space c \<longleftrightarrow> white_space c \<and> c \<noteq> 133 \<or> c = 65279"

definition trim :: "jstr \<Rightarrow> jstr" where
  "trim s = rev (dropWhile js_space (rev (dropWhile js_space s)))"

definition LINE_BREAK :: "int \<Rightarrow> bool" where
  "LINE_BREAK c \<longleftrightarrow> 10 \<le> c \<and> c \<le> 13 \<or> c = 133 \<or> c = 8232 \<or> c = 8233"

section \<open>Emptiness\<close>

definition CONTENTFUL :: "unicode \<Rightarrow> int \<Rightarrow> bool" where
  "CONTENTFUL U c \<longleftrightarrow> is_letter U c \<or> is_number U c \<or> is_pictographic U c \<or> is_regional U c"

definition hasContent :: "unicode \<Rightarrow> jstr option \<Rightarrow> bool" where
  "hasContent U t = (case t of None \<Rightarrow> False | Some s \<Rightarrow> list_ex (CONTENTFUL U) s)"

definition isBlank :: "unicode \<Rightarrow> jstr option \<Rightarrow> bool" where
  "isBlank U t \<longleftrightarrow> \<not> hasContent U t"

lemma isBlank_simps [simp]: "isBlank U None" "isBlank U (Some []) "
  by (simp_all add: isBlank_def hasContent_def)

end
