(* ===== verification/Regex.thy ===== *)
theory Regex
  imports JsText
begin

text \<open>
  A backtracking matcher for the regular expressions of the source, with JavaScript's priorities:
  \<open>ends r m\<close> lists every way \<open>r\<close> can match at a position, best first, so the first element is
  what \<open>RegExp#exec\<close> returns at that position.  A position is a zipper: the text to the left
  (reversed), the text to the right, and the capture groups set so far.  Repetition stops an
  iteration that consumes nothing, as ECMA-262 does, so it is bounded by the text that is left.
\<close>

section \<open>Patterns\<close>

datatype re =
    Eps
  | Cls "int \<Rightarrow> bool"
  | Seq re re
  | Alt re re
  | Star bool re
  | Rep bool nat re
  | Cap nat re
  | Ahead bool re
  | Behind "int \<Rightarrow> bool"
  | BoundOf "int \<Rightarrow> bool"
  | Start
  | Finish

type_synonym matching = "jstr \<times> jstr \<times> (nat \<times> jstr) list"

definition word_char :: "int \<Rightarrow> bool" where
  "word_char c \<longleftrightarrow> is_digit c \<or> ascii_letter c \<or> c = 95"

text \<open>Under the flags \<open>iu\<close> the long s and the Kelvin sign fold to word characters.\<close>

definition word_char_iu :: "int \<Rightarrow> bool" where
  "word_char_iu c \<longleftrightarrow> word_char c \<or> c = 383 \<or> c = 8490"

abbreviation Bound :: re where
  "Bound \<equiv> BoundOf word_char"

abbreviation Bound_iu :: re where
  "Bound_iu \<equiv> BoundOf word_char_iu"

definition at_bound :: "(int \<Rightarrow> bool) \<Rightarrow> jstr \<Rightarrow> jstr \<Rightarrow> bool" where
  "at_bound w l r \<longleftrightarrow> (l \<noteq> [] \<and> w (hd l)) \<noteq> (r \<noteq> [] \<and> w (hd r))"

fun shrinks :: "matching \<Rightarrow> matching \<Rightarrow> bool" where
  "shrinks (l, r, c) (l', r', c') \<longleftrightarrow> length r' < length r"

fun iterate :: "bool \<Rightarrow> nat \<Rightarrow> (matching \<Rightarrow> matching list) \<Rightarrow> matching \<Rightarrow> matching list" where
  "iterate greedy 0 f m = [m]"
| "iterate greedy (Suc n) f m =
     (let more = concat (map (iterate greedy n f) (filter (shrinks m) (f m)))
      in if greedy then more @ [m] else m # more)"

definition consumed :: "matching \<Rightarrow> matching \<Rightarrow> jstr" where
  "consumed m m' = take (length (fst (snd m)) - length (fst (snd m'))) (fst (snd m))"

primrec ends :: "re \<Rightarrow> matching \<Rightarrow> matching list" where
  "ends Eps m = [m]"
| "ends (Cls p) m = (case m of (l, r, c) \<Rightarrow>
     (case r of [] \<Rightarrow> [] | x # xs \<Rightarrow> if p x then [(x # l, xs, c)] else []))"
| "ends (Seq a b) m = concat (map (ends b) (ends a m))"
| "ends (Alt a b) m = ends a m @ ends b m"
| "ends (Star greedy a) m = iterate greedy (length (fst (snd m))) (ends a) m"
| "ends (Rep greedy n a) m = iterate greedy n (ends a) m"
| "ends (Cap i a) m = map (\<lambda>m'. (fst m', fst (snd m'), (i, consumed m m') # snd (snd m'))) (ends a m)"
| "ends (Ahead positive a) m = (if (ends a m \<noteq> []) = positive then [m] else [])"
| "ends (Behind p) m = (case fst m of [] \<Rightarrow> [] | x # xs \<Rightarrow> if p x then [m] else [])"
| "ends (BoundOf w) m = (if at_bound w (fst m) (fst (snd m)) then [m] else [])"
| "ends Start m = (if fst m = [] then [m] else [])"
| "ends Finish m = (if fst (snd m) = [] then [m] else [])"

section \<open>Running a pattern\<close>

fun search :: "re \<Rightarrow> jstr \<Rightarrow> jstr \<Rightarrow> (jstr \<times> jstr \<times> matching) option" where
  "search p l [] = (case ends p (l, [], []) of [] \<Rightarrow> None | m # _ \<Rightarrow> Some (l, [], m))"
| "search p l (x # xs) = (case ends p (l, x # xs, []) of
     [] \<Rightarrow> search p (x # l) xs | m # _ \<Rightarrow> Some (l, x # xs, m))"

text \<open>\<open>RegExp#test\<close>; \<open>RegExp#exec\<close> returning the matched text and its groups.\<close>

definition test :: "re \<Rightarrow> jstr \<Rightarrow> bool" where
  "test p s \<longleftrightarrow> search p [] s \<noteq> None"

definition exec :: "re \<Rightarrow> jstr \<Rightarrow> (jstr \<times> (nat \<times> jstr) list) option" where
  "exec p s = (case search p [] s of None \<Rightarrow> None
     | Some (l, r, m) \<Rightarrow> Some (consumed (l, r, []) m, snd (snd m)))"

definition group :: "(nat \<times> jstr) list \<Rightarrow> nat \<Rightarrow> jstr" where
  "group caps i = (case map_of caps i of None \<Rightarrow> [] | Some s \<Rightarrow> s)"

text \<open>
  The pieces of a text under a global pattern: \<open>Inl\<close> a single unmatched character, \<open>Inr\<close> a match
  with its groups.  An empty match advances by one character.
\<close>

function scan :: "re \<Rightarrow> jstr \<Rightarrow> jstr \<Rightarrow> (int + jstr \<times> (nat \<times> jstr) list) list" where
  "scan p l [] = []"
| "scan p l (x # xs) = (case ends p (l, x # xs, []) of
     m # _ \<Rightarrow> if length (fst (snd m)) < length (x # xs)
              then Inr (consumed (l, x # xs, []) m, snd (snd m)) # scan p (fst m) (fst (snd m))
              else Inl x # scan p (x # l) xs
   | [] \<Rightarrow> Inl x # scan p (x # l) xs)"
  by pat_completeness auto
termination
  by (relation "measure (\<lambda>(p, l, r). length r)") auto

definition replace_all :: "re \<Rightarrow> (jstr \<Rightarrow> (nat \<times> jstr) list \<Rightarrow> jstr) \<Rightarrow> jstr \<Rightarrow> jstr" where
  "replace_all p f s = concat (map (\<lambda>q. case q of Inl x \<Rightarrow> [x] | Inr (t, caps) \<Rightarrow> f t caps) (scan p [] s))"

definition match_all :: "re \<Rightarrow> jstr \<Rightarrow> (jstr \<times> (nat \<times> jstr) list) list" where
  "match_all p s = concat (map (\<lambda>q. case q of Inl x \<Rightarrow> [] | Inr m \<Rightarrow> [m]) (scan p [] s))"

text \<open>
  \<open>String#split\<close> with a pattern of one group that spans the whole match: text and separators
  alternate (\<open>split_keep\<close>); with no group the separators are dropped (\<open>split_drop\<close>).
\<close>

fun split_pieces :: "jstr \<Rightarrow> (int + jstr \<times> (nat \<times> jstr) list) list \<Rightarrow> (bool \<times> jstr) list" where
  "split_pieces acc [] = [(False, rev acc)]"
| "split_pieces acc (Inl x # qs) = split_pieces (x # acc) qs"
| "split_pieces acc (Inr (t, caps) # qs) = (False, rev acc) # (True, t) # split_pieces [] qs"

definition split_keep :: "re \<Rightarrow> jstr \<Rightarrow> (bool \<times> jstr) list" where
  "split_keep p s = split_pieces [] (scan p [] s)"

definition split_drop :: "re \<Rightarrow> jstr \<Rightarrow> jstr list" where
  "split_drop p s = map snd (filter (\<lambda>q. \<not> fst q) (split_keep p s))"

section \<open>Abbreviations for building patterns\<close>

definition chr :: "int \<Rightarrow> re" where
  "chr x = Cls (\<lambda>c. c = x)"

fun lit :: "string \<Rightarrow> re" where
  "lit [] = Eps"
| "lit (c # s) = Seq (chr (of_char c)) (lit s)"

text \<open>A literal under the \<open>i\<close> flag: ASCII letters match in both cases.\<close>

fun lit_i :: "string \<Rightarrow> re" where
  "lit_i [] = Eps"
| "lit_i (c # s) = Seq (Cls (\<lambda>x. ascii_lower_char x = ascii_lower_char (of_char c))) (lit_i s)"

fun seq :: "re list \<Rightarrow> re" where
  "seq [] = Eps"
| "seq [a] = a"
| "seq (a # as) = Seq a (seq as)"

fun alt :: "re list \<Rightarrow> re" where
  "alt [] = Cls (\<lambda>_. False)"
| "alt [a] = a"
| "alt (a # as) = Alt a (alt as)"

definition one_of_lits :: "string list \<Rightarrow> re" where
  "one_of_lits ws = alt (map lit_i ws)"

definition many :: "re \<Rightarrow> re" where
  "many a = Star True a"

definition many1 :: "re \<Rightarrow> re" where
  "many1 a = Seq a (Star True a)"

definition opt :: "re \<Rightarrow> re" where
  "opt a = Rep True 1 a"

abbreviation spaces1 :: re where
  "spaces1 \<equiv> many1 (Cls js_space)"

definition one_of_chars :: "string \<Rightarrow> int \<Rightarrow> bool" where
  "one_of_chars cs c \<longleftrightarrow> c \<in> set (asc cs)"

definition none_of :: "string \<Rightarrow> re" where
  "none_of cs = Cls (\<lambda>c. c \<notin> set (asc cs))"

section \<open>What the matcher guarantees\<close>

text \<open>Every result is a position of the same text, at or after the start.\<close>

definition advances :: "matching \<Rightarrow> matching \<Rightarrow> bool" where
  "advances m m' \<longleftrightarrow> (\<exists>t. fst (snd m) = t @ fst (snd m') \<and> fst m' = rev t @ fst m)"

lemma advances_refl [simp]: "advances m m"
  by (simp add: advances_def)

lemma advances_trans: "advances a b \<Longrightarrow> advances b c \<Longrightarrow> advances a c"
  by (auto simp: advances_def)

lemma iterate_advances:
  "(\<And>m m'. m' \<in> set (f m) \<Longrightarrow> advances m m') \<Longrightarrow> m' \<in> set (iterate greedy n f m) \<Longrightarrow> advances m m'"
proof (induction n arbitrary: m m')
  case (Suc n)
  have "m' = m \<or> (\<exists>x \<in> set (f m). m' \<in> set (iterate greedy n f x))"
    using Suc.prems(2) by (auto simp: Let_def split: if_splits)
  then show ?case
  proof
    assume "\<exists>x \<in> set (f m). m' \<in> set (iterate greedy n f x)"
    then obtain x where "x \<in> set (f m)" and "m' \<in> set (iterate greedy n f x)" ..
    from this(1) have "advances m x" by (rule Suc.prems(1))
    moreover have "advances x m'" by (rule Suc.IH) fact+
    ultimately show ?thesis by (rule advances_trans)
  qed simp
qed simp

lemma ends_advances: "m' \<in> set (ends p m) \<Longrightarrow> advances m m'"
proof (induction p arbitrary: m m')
  case (Cls p)
  then show ?case
    by (auto simp: advances_def split: prod.splits list.splits if_splits)
next
  case (Seq a b)
  from Seq.prems obtain x where "x \<in> set (ends a m)" and "m' \<in> set (ends b x)"
    by auto
  with Seq.IH show ?case by (metis advances_trans)
next
  case (Star greedy a)
  show ?case by (rule iterate_advances [OF Star.IH]) (use Star.prems in simp_all)
next
  case (Rep greedy n a)
  show ?case by (rule iterate_advances [OF Rep.IH]) (use Rep.prems in simp_all)
next
  case (Cap i a)
  from Cap.prems obtain x where "x \<in> set (ends a m)" and "fst m' = fst x" and "fst (snd m') = fst (snd x)"
    by auto
  with Cap.IH show ?case by (simp add: advances_def)
qed (auto split: if_splits list.splits)

lemma consumed_advances: "advances m m' \<Longrightarrow> fst (snd m) = consumed m m' @ fst (snd m')"
  by (auto simp: advances_def consumed_def)

text \<open>\<open>scan\<close> partitions the text: nothing is lost or invented by a split or a replace.\<close>

definition piece_text :: "int + jstr \<times> (nat \<times> jstr) list \<Rightarrow> jstr" where
  "piece_text q = (case q of Inl x \<Rightarrow> [x] | Inr m \<Rightarrow> fst m)"

lemma scan_partition: "concat (map piece_text (scan p l r)) = r"
proof (induction p l r rule: scan.induct)
  case (2 p l x xs)
  show ?case
  proof (cases "ends p (l, x # xs, [])")
    case Nil
    then show ?thesis using 2 by (simp add: piece_text_def)
  next
    case (Cons m ms)
    then have "advances (l, x # xs, []) m"
      by (metis ends_advances list.set_intros(1))
    from consumed_advances [OF this] show ?thesis
      using 2 Cons by (auto simp: piece_text_def)
  qed
qed simp

lemma split_keep_partition: "concat (map snd (split_pieces acc qs)) = rev acc @ concat (map piece_text qs)"
  by (induction acc qs rule: split_pieces.induct) (auto simp: piece_text_def)

end
