(* ===== verification/Policy_Bounds.thy ===== *)
theory Policy_Bounds
  imports Prelude
begin

text \<open>
  The receipt bounds of \<open>policy.ts\<close> (\<open>ReceiptPolicy\<close>), which the text comparison reads.
\<close>

record receipt_policy =
  minQuoteLength :: nat
  maxAlignedTokens :: nat
  maxScannedSentences :: nat
  maxLaterMessagesScanned :: nat
  maxLaterMessagesCarried :: nat

definition RECEIPT_POLICY :: receipt_policy where
  "RECEIPT_POLICY = \<lparr>minQuoteLength = 24, maxAlignedTokens = 800, maxScannedSentences = 200,
     maxLaterMessagesScanned = 200, maxLaterMessagesCarried = 201\<rparr>"

end
