(* ===== verification/Matching.thy ===== *)
theory Matching
  imports Regex Policy_Bounds
begin

text \<open>
  \<open>matching.ts\<close>: the differences a quote may have from the text it was taken from.
\<close>

section \<open>The receipt fold\<close>

definition DELETABLE :: "int \<Rightarrow> bool" where
  "DELETABLE c \<longleftrightarrow> c = 8203 \<or> 8288 \<le> c \<and> c \<le> 8292 \<or> c = 65279"

definition MARKDOWN_LINK :: re where
  "MARKDOWN_LINK = seq
     [Cap 1 (opt (lit ''!'')), lit ''['', Cap 2 (many (none_of '']'')), lit ''](''
     , many (Cls js_space), Cap 3 (many (Cls (\<lambda>c. c \<noteq> 41 \<and> \<not> js_space c)))
     , opt (seq [spaces1, chr 34, Cap 4 (many (Cls (\<lambda>c. c \<noteq> 34))), chr 34])
     , many (Cls js_space), lit '')'']"

definition unfoldLink :: "jstr \<Rightarrow> (nat \<times> jstr) list \<Rightarrow> jstr" where
  "unfoldLink m caps =
     (let t = trim (group caps 2); target = trim (group caps 3); caption = trim (group caps 4);
          linked = (if target = [] \<or> t = target then t else t @ 32 # target)
      in group caps 1 @ (if caption = [] then linked else linked @ 32 # caption))"

definition CODE_SPAN :: re where
  "CODE_SPAN = alt
     [seq [lit ''```'', Star False (Cls (\<lambda>_. True)), lit ''```''],
      seq [lit ''``'', Star False (Cls (\<lambda>_. True)), lit ''``''],
      seq [lit ''`'', many (Cls (\<lambda>c. c \<noteq> 96 \<and> c \<noteq> 10)), lit ''`'']]"

definition fold_apostrophe :: "int \<Rightarrow> int" where
  "fold_apostrophe c = (if c = 8217 \<or> c = 700 then 39 else c)"

text \<open>\<open>.replace(WHITESPACE_RUN, ' ')\<close>.\<close>

fun collapse_spaces :: "bool \<Rightarrow> jstr \<Rightarrow> jstr" where
  "collapse_spaces in_run [] = []"
| "collapse_spaces in_run (c # s) =
     (if white_space c then (if in_run then collapse_spaces True s else 32 # collapse_spaces True s)
      else c # collapse_spaces False s)"

definition foldProse :: "jstr \<Rightarrow> jstr" where
  "foldProse t = collapse_spaces False
     (replace_all MARKDOWN_LINK unfoldLink (map fold_apostrophe (filter (\<lambda>c. \<not> DELETABLE c) t)))"

definition normalizeForReceipt :: "jstr \<Rightarrow> jstr" where
  "normalizeForReceipt t = trim (concat (map (\<lambda>(is_code, segment).
     if is_code then segment else foldProse segment) (split_keep CODE_SPAN t)))"

section \<open>Structure a text is made of\<close>

text \<open>The preparation every structure reader shares, and the collapse of a line.\<close>

definition prepare :: "jstr \<Rightarrow> jstr" where
  "prepare t = map fold_apostrophe (filter (\<lambda>c. \<not> DELETABLE c) t)"

definition collapse :: "jstr \<Rightarrow> jstr" where
  "collapse t = trim (collapse_spaces False t)"

definition link_markup :: "(nat \<times> jstr) list \<Rightarrow> jstr" where
  "link_markup caps = group caps 1 @ asc ''['' @ collapse (group caps 2) @ asc '']('' @ collapse (group caps 3) @
     (case map_of caps 4 of None \<Rightarrow> [] | Some title \<Rightarrow> 32 # 34 # collapse title @ [34]) @ asc '')''"

definition linkStructures :: "jstr \<Rightarrow> jstr list" where
  "linkStructures t = sort (concat (map (\<lambda>(is_code, segment).
     if is_code then [] else map (\<lambda>(m, caps). link_markup caps) (match_all MARKDOWN_LINK (prepare segment)))
     (split_keep CODE_SPAN t)))"

text \<open>What the statement has beyond what the author wrote, occurrence by occurrence.\<close>

fun added_structure :: "'a list \<Rightarrow> 'a list \<Rightarrow> 'a list" where
  "added_structure available [] = []"
| "added_structure available (x # xs) =
     (if x \<in> set available then added_structure (remove1 x available) xs
      else x # added_structure available xs)"

definition addedLinkStructure :: "jstr \<Rightarrow> jstr \<Rightarrow> jstr list" where
  "addedLinkStructure authored_text st = added_structure (linkStructures authored_text) (linkStructures st)"

text \<open>\<open>split(LINE_BREAK_SPLIT)\<close>: a CR LF pair is one break.\<close>

fun split_lines :: "jstr \<Rightarrow> jstr \<Rightarrow> jstr list" where
  "split_lines acc [] = [rev acc]"
| "split_lines acc [c] = (if LINE_BREAK c then [rev acc, []] else [rev (c # acc)])"
| "split_lines acc (c # d # s) =
     (if c = 13 \<and> d = 10 then rev acc # split_lines [] s
      else if LINE_BREAK c then rev acc # split_lines [] (d # s)
      else split_lines (c # acc) (d # s))"

definition hspace_or_end :: re where
  "hspace_or_end = Ahead True (Alt (Cls (\<lambda>c. c = 32 \<or> c = 9)) Finish)"

definition BLOCK_MARKER :: re where
  "BLOCK_MARKER = Seq Start (alt
     [seq [lit ''#'', Rep True 5 (lit ''#''), hspace_or_end],
      lit ''>'',
      Seq (Cls (one_of_chars ''-+*'')) hspace_or_end,
      seq [Cls is_digit, Rep True 8 (Cls is_digit), Cls (one_of_chars ''.)''), hspace_or_end],
      Seq (lit ''<'') (Cls (\<lambda>c. ascii_letter c \<or> one_of_chars ''!/?'' c)),
      seq [lit ''['', many (none_of '']''), lit '']:''],
      lit ''|''])"

definition THEMATIC_BREAK :: re where
  "THEMATIC_BREAK = (let mark = Seq (Cls (one_of_chars ''-*_'')) (opt (lit '' ''))
     in seq [Start, mark, mark, mark, many mark, Finish])"

definition SETEXT_UNDERLINE :: "jstr \<Rightarrow> bool" where
  "SETEXT_UNDERLINE s \<longleftrightarrow> s \<noteq> [] \<and> list_all (\<lambda>c. c = 61) s"

definition CODE_FENCE :: "jstr \<Rightarrow> bool" where
  "CODE_FENCE s = (let indent = takeWhile (\<lambda>c. c = 32) s; rest = dropWhile (\<lambda>c. c = 32) s
     in length indent \<le> 3 \<and> (take 3 rest = asc ''```'' \<or> take 3 rest = asc ''~~~''))"

fun indent_column :: "nat \<Rightarrow> jstr \<Rightarrow> nat \<times> jstr" where
  "indent_column column [] = (column, [])"
| "indent_column column (c # s) =
     (if c = 32 then indent_column (column + 1) s
      else if c = 9 then indent_column (column + (4 - column mod 4)) s
      else (column, c # s))"

definition blockOpener :: "jstr \<Rightarrow> jstr option" where
  "blockOpener line = (let (column, s) = indent_column 0 line; rest = collapse s in
     if rest = [] then None
     else if column \<ge> 4 then Some (asc ''    '' @ rest)
     else if test THEMATIC_BREAK rest \<or> SETEXT_UNDERLINE rest then Some rest
     else if test BLOCK_MARKER rest then Some rest else None)"

definition openers :: "jstr list \<Rightarrow> jstr list" where
  "openers ls = concat (map (\<lambda>l. case blockOpener l of None \<Rightarrow> [] | Some x \<Rightarrow> [x]) ls)"

fun block_segments :: "bool \<Rightarrow> (bool \<times> jstr) list \<Rightarrow> jstr list" where
  "block_segments atLineStart [] = []"
| "block_segments atLineStart ((is_code, segment) # rest) =
     (if is_code then []
      else let ls = split_lines [] (prepare segment) in openers (if atLineStart then ls else tl ls)) @
     block_segments (if segment = [] then atLineStart else LINE_BREAK (last segment)) rest"

definition blockStructures :: "jstr \<Rightarrow> jstr list" where
  "blockStructures t = sort (map collapse (filter CODE_FENCE (split_lines [] (prepare t))) @
     block_segments True (split_keep CODE_SPAN t))"

definition isBlankLine :: "jstr \<Rightarrow> bool" where
  "isBlankLine s \<longleftrightarrow> list_all white_space s"

definition HARD_LINE_BREAK :: "jstr \<Rightarrow> bool" where
  "HARD_LINE_BREAK s = (case rev s of
     c # d # _ \<Rightarrow> c = 92 \<or> c = 32 \<and> d = 32 | [c] \<Rightarrow> c = 92 | [] \<Rightarrow> False)"

text \<open>Walks the lines with the last non-blank line met and whether a blank one came after it.\<close>

fun break_structures :: "jstr option \<Rightarrow> bool \<Rightarrow> jstr list \<Rightarrow> jstr list" where
  "break_structures prev gap [] = []"
| "break_structures prev gap (l # ls) =
     (if isBlankLine l then break_structures prev True ls
      else (case prev of
              None \<Rightarrow> []
            | Some p \<Rightarrow> if gap then [asc ''blank line before '' @ 34 # collapse l @ [34]]
                        else if HARD_LINE_BREAK p then [asc ''hard line break after '' @ 34 # collapse p @ [34]]
                        else []) @
           break_structures (Some l) False ls)"

definition breakStructures :: "jstr \<Rightarrow> jstr list" where
  "breakStructures t = sort (break_structures None False (split_lines [] (prepare t)))"

definition addedBlockStructure :: "jstr \<Rightarrow> jstr \<Rightarrow> jstr list" where
  "addedBlockStructure authored_text st = added_structure
     (blockStructures authored_text @ breakStructures authored_text) (blockStructures st @ breakStructures st)"

section \<open>Tokens and sentences\<close>

definition normalizeForRouting :: "unicode \<Rightarrow> jstr \<Rightarrow> jstr" where
  "normalizeForRouting U t = to_lower U (trim (collapse_spaces False (filter (\<lambda>c. \<not> DELETABLE c)
     (replace_all (many1 (Cls (one_of_chars ''*_`''))) (\<lambda>_ _. [32])
       (replace_all MARKDOWN_LINK unfoldLink (map fold_apostrophe (nfkc U t)))))))"

definition word_mark :: "unicode \<Rightarrow> int \<Rightarrow> bool" where
  "word_mark U c \<longleftrightarrow> is_letter U c \<or> is_number U c \<or> is_mark U c"

text \<open>
  \<open>WORD = [\p{L}\p{N}\p{M}]+(?:'[\p{L}\p{N}\p{M}]+)*\<close>, greedy; nothing follows it in \<open>TOKEN\<close>, so
  there is no backtracking to model.  \<open>word_end\<close> reads on after the first character.
\<close>

fun word_end :: "unicode \<Rightarrow> jstr \<Rightarrow> jstr \<times> jstr" where
  "word_end U [] = ([], [])"
| "word_end U [c] = (if word_mark U c then ([c], []) else ([], [c]))"
| "word_end U (c # d # s) =
     (if word_mark U c then (let (w, r) = word_end U (d # s) in (c # w, r))
      else if c = 39 \<and> word_mark U d then (let (w, r) = word_end U (d # s) in (c # w, r))
      else ([], c # d # s))"

lemma word_end_append: "fst (word_end U s) @ snd (word_end U s) = s"
  by (induction U s rule: word_end.induct) (auto simp: Let_def case_prod_beta)

lemma word_end_length: "length (snd (word_end U s)) \<le> length s"
  by (metis word_end_append length_append le_add2)

function token_list :: "unicode \<Rightarrow> jstr \<Rightarrow> jstr list" where
  "token_list U [] = []"
| "token_list U (c # s) =
     (if word_mark U c then (c # fst (word_end U s)) # token_list U (snd (word_end U s))
      else [c] # token_list U s)"
  by pat_completeness auto
termination
  by (relation "measure (\<lambda>(U, s). length s)") (auto simp: less_Suc_eq_le word_end_length)

definition orderedTokens :: "unicode \<Rightarrow> jstr \<Rightarrow> jstr list" where
  "orderedTokens U t = token_list U (normalizeForReceipt t)"

definition isWhitespaceToken :: "jstr \<Rightarrow> bool" where
  "isWhitespaceToken w \<longleftrightarrow> w \<noteq> [] \<and> list_all white_space w"

text \<open>\<open>ROUTING_TOKEN\<close> is \<open>WORD|\S\<close>: as above, without the characters of \<open>\s\<close>.\<close>

definition routingTokens :: "unicode \<Rightarrow> jstr \<Rightarrow> jstr list" where
  "routingTokens U t = filter (\<lambda>w. \<not> (length w = 1 \<and> js_space (hd w) \<and> \<not> word_mark U (hd w)))
     (token_list U (normalizeForRouting U t))"

definition SENTENCE_BREAK :: re where
  "SENTENCE_BREAK = Alt
     (Seq (Behind (\<lambda>c. one_of_chars ''.!?'' c \<or> c = 8230 \<or> c = 12290 \<or> c = 65311 \<or> c = 65281))
        (many1 (Cls white_space)))
     (many1 (Cls LINE_BREAK))"

definition sentencesOf :: "jstr \<Rightarrow> jstr list" where
  "sentencesOf t = filter (\<lambda>s. s \<noteq> []) (map trim (split_drop SENTENCE_BREAK t))"

section \<open>Alignment\<close>

datatype undecidable = EmptyQuote | EmptyStatement | TooLong

record statement_bearing =
  borne :: bool
  unmatchedInStatement :: "jstr list"
  unmatchedInQuote :: "jstr list"
  whitespaceDiffers :: bool
  undecidable :: "undecidable option"

definition declined :: "undecidable \<Rightarrow> statement_bearing" where
  "declined u = \<lparr>borne = False, unmatchedInStatement = [], unmatchedInQuote = [], whitespaceDiffers = False,
     undecidable = Some u\<rparr>"

type_synonym diff = "jstr list \<times> jstr list \<times> bool"

definition spacing :: "diff \<Rightarrow> diff" where
  "spacing d = (fst d, fst (snd d), True)"

definition extra_quote :: "jstr \<Rightarrow> diff \<Rightarrow> diff" where
  "extra_quote w d = (if isWhitespaceToken w then spacing d else (w # fst d, snd d))"

definition extra_statement :: "jstr \<Rightarrow> diff \<Rightarrow> diff" where
  "extra_statement w d = (if isWhitespaceToken w then spacing d else (fst d, w # fst (snd d), snd (snd d)))"

text \<open>The two-pointer loop: (unmatched in the quote, unmatched in the statement, spacing differs).\<close>

function align :: "jstr list \<Rightarrow> jstr list \<Rightarrow> diff" where
  "align [] [] = ([], [], False)"
| "align (q # qs) [] = extra_quote q (align qs [])"
| "align [] (s # ss) = extra_statement s (align [] ss)"
| "align (q # qs) (s # ss) =
     (if q = s then align qs ss
      else if isWhitespaceToken q \<and> \<not> isWhitespaceToken s then spacing (align qs (s # ss))
      else if isWhitespaceToken s \<and> \<not> isWhitespaceToken q then spacing (align (q # qs) ss)
      else if s \<in> set qs then extra_quote q (align qs (s # ss))
      else extra_statement s (align (q # qs) ss))"
  by pat_completeness auto
termination
  by (relation "measure (\<lambda>(qs, ss). length qs + length ss)") auto

definition alignTokens :: "receipt_policy \<Rightarrow> jstr list \<Rightarrow> jstr list \<Rightarrow> statement_bearing" where
  "alignTokens P qs ss =
     (if qs = [] then declined EmptyQuote
      else if ss = [] then declined EmptyStatement
      else if length qs > maxAlignedTokens P \<or> length ss > maxAlignedTokens P then declined TooLong
      else let (uq, us, ws) = align qs ss in
        \<lparr>borne = (qs = ss), unmatchedInStatement = us, unmatchedInQuote = uq, whitespaceDiffers = ws,
         undecidable = None\<rparr>)"

definition statementBearing :: "unicode \<Rightarrow> receipt_policy \<Rightarrow> jstr \<Rightarrow> jstr \<Rightarrow> statement_bearing" where
  "statementBearing U P q st =
     (if isBlank U (Some q) then declined EmptyQuote
      else if isBlank U (Some st) then declined EmptyStatement
      else alignTokens P (orderedTokens U q) (orderedTokens U st))"

section \<open>Spans\<close>

definition significant :: "unicode \<Rightarrow> jstr \<Rightarrow> jstr list" where
  "significant U t = filter (\<lambda>w. \<not> isWhitespaceToken w) (orderedTokens U t)"

fun spans_from :: "jstr list \<Rightarrow> jstr list \<Rightarrow> jstr list list \<Rightarrow> bool" where
  "spans_from wanted run [] = False"
| "spans_from wanted run (t # ts) =
     (let run' = run @ t in
      if length run' > length wanted then False
      else if run' = wanted then True else spans_from wanted run' ts)"

fun spans_any :: "jstr list \<Rightarrow> jstr list list \<Rightarrow> bool" where
  "spans_any wanted [] = False"
| "spans_any wanted (t # ts) \<longleftrightarrow> spans_from wanted [] (t # ts) \<or> spans_any wanted ts"

definition quoteSpansWholeSentences :: "unicode \<Rightarrow> receipt_policy \<Rightarrow> jstr \<Rightarrow> jstr \<Rightarrow> bool" where
  "quoteSpansWholeSentences U P q ownText =
     (let wanted = significant U q; sentences = sentencesOf ownText in
      wanted \<noteq> [] \<and> length sentences \<le> maxScannedSentences P \<and>
      spans_any wanted (map (significant U) sentences))"

definition quoteCoversOwnText :: "unicode \<Rightarrow> jstr \<Rightarrow> jstr \<Rightarrow> bool" where
  "quoteCoversOwnText U q ownText \<longleftrightarrow> significant U q \<noteq> [] \<and> significant U ownText = significant U q"

section \<open>Questions\<close>

definition QUESTION_MARKS :: "int list" where
  "QUESTION_MARKS = [63, 191, 894, 1374, 1567, 4967, 6469, 8263, 8264, 8265, 8253, 10067, 10068, 11514,
     11515, 11800, 11822, 11860, 42511, 42743, 65046, 65110, 65311, 69955, 125279]"

definition QUESTION_SHAPED_MARKS :: "int list" where
  "QUESTION_SHAPED_MARKS = QUESTION_MARKS @ [43613]"

definition isAssertion :: "jstr \<Rightarrow> bool" where
  "isAssertion t \<longleftrightarrow> \<not> list_ex (\<lambda>c. c \<in> set QUESTION_SHAPED_MARKS) t"

definition readsAsQuestion :: "jstr \<Rightarrow> bool" where
  "readsAsQuestion t \<longleftrightarrow> list_ex (\<lambda>c. c \<in> set QUESTION_MARKS) t"

end
