(* ===== verification/Instant.thy ===== *)
theory Instant
  imports Prelude "HOL-Library.Monad_Syntax"
begin

text \<open>
  Identifiers and timestamps of \<open>packages/core/src/common.ts\<close>: the \<open>Id\<close> and \<open>Timestamp\<close>
  schemas and \<open>instantKey\<close>, the sort key of the canonical event order.
\<close>

section \<open>Schemas of identifiers and timestamps\<close>

definition ID_MAX_LENGTH :: nat where
  "ID_MAX_LENGTH = 256"

definition ID_CHARSET :: "jstr \<Rightarrow> bool" where
  "ID_CHARSET s \<longleftrightarrow> s \<noteq> [] \<and> list_all (\<lambda>c. 33 \<le> c \<and> c \<le> 126) s"

definition Id :: "jstr \<Rightarrow> bool" where
  "Id s \<longleftrightarrow> 1 \<le> js_length s \<and> js_length s \<le> ID_MAX_LENGTH \<and> ID_CHARSET s"

text \<open>The date alternatives of the regular expression, digit by digit.\<close>

definition one_of :: "string \<Rightarrow> int \<Rightarrow> bool" where
  "one_of cs c \<longleftrightarrow> c \<in> set (asc cs)"

definition leap_day_date :: "int \<Rightarrow> int \<Rightarrow> int \<Rightarrow> int \<Rightarrow> int \<Rightarrow> int \<Rightarrow> int \<Rightarrow> int \<Rightarrow> bool" where
  "leap_day_date y1 y2 y3 y4 m1 m2 d1 d2 \<longleftrightarrow>
     ((is_digit y1 \<and> is_digit y2 \<and> one_of ''2468'' y3 \<and> one_of ''048'' y4) \<or>
      (is_digit y1 \<and> is_digit y2 \<and> one_of ''13579'' y3 \<and> one_of ''26'' y4) \<or>
      (is_digit y1 \<and> is_digit y2 \<and> one_of ''0'' y3 \<and> one_of ''48'' y4) \<or>
      (one_of ''02468'' y1 \<and> one_of ''048'' y2 \<and> one_of ''0'' y3 \<and> one_of ''0'' y4) \<or>
      (one_of ''13579'' y1 \<and> one_of ''26'' y2 \<and> one_of ''0'' y3 \<and> one_of ''0'' y4)) \<and>
     one_of ''0'' m1 \<and> one_of ''2'' m2 \<and> one_of ''2'' d1 \<and> one_of ''9'' d2"

definition plain_date :: "int \<Rightarrow> int \<Rightarrow> int \<Rightarrow> int \<Rightarrow> int \<Rightarrow> int \<Rightarrow> int \<Rightarrow> int \<Rightarrow> bool" where
  "plain_date y1 y2 y3 y4 m1 m2 d1 d2 \<longleftrightarrow>
     is_digit y1 \<and> is_digit y2 \<and> is_digit y3 \<and> is_digit y4 \<and>
     (((one_of ''0'' m1 \<and> one_of ''13578'' m2 \<or> one_of ''1'' m1 \<and> one_of ''02'' m2) \<and>
       (one_of ''0'' d1 \<and> one_of ''123456789'' d2 \<or> one_of ''12'' d1 \<and> is_digit d2 \<or>
        one_of ''3'' d1 \<and> one_of ''01'' d2)) \<or>
      ((one_of ''0'' m1 \<and> one_of ''469'' m2 \<or> one_of ''1'' m1 \<and> one_of ''1'' m2) \<and>
       (one_of ''0'' d1 \<and> one_of ''123456789'' d2 \<or> one_of ''12'' d1 \<and> is_digit d2 \<or>
        one_of ''3'' d1 \<and> one_of ''0'' d2)) \<or>
      (one_of ''0'' m1 \<and> one_of ''2'' m2 \<and>
       (one_of ''0'' d1 \<and> one_of ''123456789'' d2 \<or> one_of ''1'' d1 \<and> is_digit d2 \<or>
        one_of ''2'' d1 \<and> one_of ''012345678'' d2)))"

definition time_of_day :: "int \<Rightarrow> int \<Rightarrow> int \<Rightarrow> int \<Rightarrow> int \<Rightarrow> int \<Rightarrow> bool" where
  "time_of_day h1 h2 i1 i2 s1 s2 \<longleftrightarrow>
     (one_of ''01'' h1 \<and> is_digit h2 \<or> one_of ''2'' h1 \<and> one_of ''0123'' h2) \<and>
     one_of ''012345'' i1 \<and> is_digit i2 \<and> one_of ''012345'' s1 \<and> is_digit s2"

definition Timestamp :: "jstr \<Rightarrow> bool" where
  "Timestamp s = (case s of
     [y1, y2, y3, y4, a, m1, m2, b, d1, d2, t, h1, h2, c, i1, i2, d, s1, s2, e, f1, f2, f3, z] \<Rightarrow>
       (leap_day_date y1 y2 y3 y4 m1 m2 d1 d2 \<or> plain_date y1 y2 y3 y4 m1 m2 d1 d2) \<and>
       time_of_day h1 h2 i1 i2 s1 s2 \<and> is_digit f1 \<and> is_digit f2 \<and> is_digit f3 \<and>
       one_of ''-'' a \<and> one_of ''-'' b \<and> one_of ''T'' t \<and> one_of '':'' c \<and> one_of '':'' d \<and>
       one_of ''.'' e \<and> one_of ''Z'' z
   | _ \<Rightarrow> False)"

section \<open>Calendar arithmetic of \<open>Date.UTC\<close>\<close>

definition DayFromYear :: "int \<Rightarrow> int" where
  "DayFromYear y = 365 * (y - 1970) + (y - 1969) div 4 - (y - 1901) div 100 + (y - 1601) div 400"

definition leap_year :: "int \<Rightarrow> bool" where
  "leap_year y \<longleftrightarrow> y mod 4 = 0 \<and> (y mod 100 \<noteq> 0 \<or> y mod 400 = 0)"

text \<open>Day of the year on which a month (0 = January) starts.\<close>

definition month_start :: "bool \<Rightarrow> int \<Rightarrow> int" where
  "month_start leap m =
     (if m \<le> 0 then 0 else if m = 1 then 31 else
      (if leap then 1 else 0) +
      (if m = 2 then 59 else if m = 3 then 90 else if m = 4 then 120 else if m = 5 then 151
       else if m = 6 then 181 else if m = 7 then 212 else if m = 8 then 243 else if m = 9 then 273
       else if m = 10 then 304 else 334))"

definition Date_UTC :: "int \<Rightarrow> int \<Rightarrow> int \<Rightarrow> int \<Rightarrow> int \<Rightarrow> int \<Rightarrow> int" where
  "Date_UTC year month day hour minute sec =
     (let y = (if 0 \<le> year \<and> year \<le> 99 then 1900 + year else year);
          ym = y + month div 12;
          mn = month mod 12;
          days = DayFromYear ym + month_start (leap_year ym) mn + day - 1
      in (((days * 24 + hour) * 60 + minute) * 60 + sec) * 1000)"

section \<open>The sort key\<close>

fun read_digits :: "nat \<Rightarrow> int \<Rightarrow> jstr \<Rightarrow> (int \<times> jstr) option" where
  "read_digits 0 acc s = Some (acc, s)"
| "read_digits (Suc n) acc [] = None"
| "read_digits (Suc n) acc (c # s) = (if is_digit c then read_digits n (10 * acc + (c - 48)) s else None)"

fun read_char :: "string \<Rightarrow> jstr \<Rightarrow> (int \<times> jstr) option" where
  "read_char cs [] = None"
| "read_char cs (c # s) = (if one_of cs c then Some (c, s) else None)"

text \<open>The optional fraction \<open>(?:\.(\d+))?\<close>: at least one digit after the dot, all of them taken.\<close>

definition read_fraction :: "jstr \<Rightarrow> jstr \<times> jstr" where
  "read_fraction s = (case s of
     c # r \<Rightarrow> if one_of ''.'' c \<and> takeWhile is_digit r \<noteq> [] then (takeWhile is_digit r, dropWhile is_digit r)
             else ([], s)
   | [] \<Rightarrow> ([], s))"

text \<open>\<open>Z\<close>, or a signed offset; the value is the offset in minutes.\<close>

definition read_offset :: "jstr \<Rightarrow> int option" where
  "read_offset s = (case read_char ''Zz'' s of
     Some (_, r) \<Rightarrow> if r = [] then Some 0 else None
   | None \<Rightarrow> do {
       (sign, r) \<leftarrow> read_char ''+-'' s;
       (oh, r) \<leftarrow> read_digits 2 0 r;
       (_, r) \<leftarrow> read_char '':'' r;
       (om, r) \<leftarrow> read_digits 2 0 r;
       if r = [] then Some ((if one_of ''-'' sign then -1 else 1) * (oh * 60 + om)) else None
     })"

definition ISO_INSTANT :: "jstr \<Rightarrow> (int \<times> int \<times> int \<times> int \<times> int \<times> int \<times> jstr \<times> int) option" where
  "ISO_INSTANT s = do {
     (year, s) \<leftarrow> read_digits 4 0 s; (_, s) \<leftarrow> read_char ''-'' s;
     (month, s) \<leftarrow> read_digits 2 0 s; (_, s) \<leftarrow> read_char ''-'' s;
     (day, s) \<leftarrow> read_digits 2 0 s; (_, s) \<leftarrow> read_char ''Tt'' s;
     (hour, s) \<leftarrow> read_digits 2 0 s; (_, s) \<leftarrow> read_char '':'' s;
     (minute, s) \<leftarrow> read_digits 2 0 s; (_, s) \<leftarrow> read_char '':'' s;
     (sec, s) \<leftarrow> read_digits 2 0 s;
     (let (fraction, s) = read_fraction s in do {
       offset \<leftarrow> read_offset s;
       Some (year, month, day, hour, minute, sec, fraction, offset) })
   }"

function decimal :: "int \<Rightarrow> jstr" where
  "decimal n = (if n < 0 then 45 # decimal (- n) else if n < 10 then [48 + n]
                else decimal (n div 10) @ [48 + n mod 10])"
  by pat_completeness auto
termination
  by (relation "measure (\<lambda>n. if n < 0 then nat (1 - n) else nat n)") auto

declare decimal.simps [simp del]

definition padStart :: "nat \<Rightarrow> jstr \<Rightarrow> jstr" where
  "padStart n s = replicate (n - length s) 48 @ s"

definition padEnd :: "nat \<Rightarrow> jstr \<Rightarrow> jstr" where
  "padEnd n s = s @ replicate (n - length s) 48"

definition utcMillis :: "int \<Rightarrow> int \<Rightarrow> int \<Rightarrow> int \<Rightarrow> int \<Rightarrow> int \<Rightarrow> int \<Rightarrow> int" where
  "utcMillis year4 month day hour minute sec offsetMinutes =
     (let cycle = (if year4 < 100 then 12622780800000 else 0)
      in Date_UTC (year4 + (if cycle = 0 then 0 else 400)) (month - 1) day hour minute sec
         - cycle - offsetMinutes * 60000)"

definition instantKey :: "jstr \<Rightarrow> jstr" where
  "instantKey ts = (case ISO_INSTANT ts of
     None \<Rightarrow> 63 # ts
   | Some (year, month, day, hour, minute, sec, fraction, offset) \<Rightarrow>
       padStart 16 (decimal (utcMillis year month day hour minute sec offset + 62167219200000)) @
       46 # padEnd 9 fraction)"

end
