(* ===== verification/Objects.thy ===== *)
theory Objects
  imports Instant
begin

text \<open>
  The vocabulary of \<open>common.ts\<close>, \<open>objects.ts\<close> and \<open>attribution.ts\<close>: actors, provenance, the five
  accepted object types with their payload schemas, the printer that reads a payload back as
  JSON, and the field classification that answers ``whose name is on this''.
\<close>

section \<open>Schema combinators (zod)\<close>

type_synonym 'a schema = "json \<Rightarrow> 'a option"

definition required :: "'a schema \<Rightarrow> string \<Rightarrow> fields \<Rightarrow> 'a option" where
  "required p k fs = Option.bind (field fs k) p"

definition defaulted :: "'a \<Rightarrow> 'a schema \<Rightarrow> string \<Rightarrow> fields \<Rightarrow> 'a option" where
  "defaulted d p k fs = (case field fs k of None \<Rightarrow> Some d | Some j \<Rightarrow> p j)"

definition nullable :: "'a schema \<Rightarrow> 'a option schema" where
  "nullable p j = (case j of JNull \<Rightarrow> Some None | _ \<Rightarrow> map_option Some (p j))"

definition string_schema :: "jstr schema" where
  "string_schema j = (case j of JStr s \<Rightarrow> Some s | _ \<Rightarrow> None)"

definition refined :: "(jstr \<Rightarrow> bool) \<Rightarrow> jstr schema" where
  "refined P j = (case j of JStr s \<Rightarrow> if P s then Some s else None | _ \<Rightarrow> None)"

abbreviation Id_schema :: "jstr schema" where
  "Id_schema \<equiv> refined Id"

abbreviation Timestamp_schema :: "jstr schema" where
  "Timestamp_schema \<equiv> refined Timestamp"

abbreviation nonempty_schema :: "jstr schema" where
  "nonempty_schema \<equiv> refined (\<lambda>s. 1 \<le> js_length s)"

fun array_schema :: "'a schema \<Rightarrow> json list \<Rightarrow> 'a list option" where
  "array_schema p [] = Some []"
| "array_schema p (j # js) = do { x \<leftarrow> p j; xs \<leftarrow> array_schema p js; Some (x # xs) }"

definition array_of :: "'a schema \<Rightarrow> 'a list schema" where
  "array_of p j = (case j of JArr js \<Rightarrow> array_schema p js | _ \<Rightarrow> None)"

definition object_schema :: "(fields \<Rightarrow> 'a option) \<Rightarrow> 'a schema" where
  "object_schema p j = (case j of JObj fs \<Rightarrow> p fs | _ \<Rightarrow> None)"

definition enum_schema :: "(string \<times> 'a) list \<Rightarrow> 'a schema" where
  "enum_schema table j = (case j of
     JStr s \<Rightarrow> map_of (map (\<lambda>(name, v). (asc name, v)) table) s | _ \<Rightarrow> None)"

definition opt_json :: "('a \<Rightarrow> json) \<Rightarrow> 'a option \<Rightarrow> json" where
  "opt_json f x = (case x of None \<Rightarrow> JNull | Some v \<Rightarrow> f v)"

lemma nullable_opt_json:
  "(\<And>v. x = Some v \<Longrightarrow> p (f v) = Some v \<and> f v \<noteq> JNull) \<Longrightarrow> nullable p (opt_json f x) = Some x"
  by (cases x) (auto simp: nullable_def opt_json_def split: json.splits)

lemma array_schema_map: "(\<And>x. x \<in> set xs \<Longrightarrow> p (f x) = Some x) \<Longrightarrow> array_schema p (map f xs) = Some xs"
  by (induction xs) auto

lemma array_schema_all:
  "array_schema p js = Some xs \<Longrightarrow> (\<And>j x. p j = Some x \<Longrightarrow> Q x) \<Longrightarrow> list_all Q xs"
  by (induction p js arbitrary: xs rule: array_schema.induct) (auto split: Option.bind_splits)

lemma refined_Some [simp]: "refined P j = Some s \<longleftrightarrow> j = JStr s \<and> P s"
  by (auto simp: refined_def split: json.splits if_splits)

lemma refined_JStr [simp]: "refined P (JStr s) = (if P s then Some s else None)"
  by (simp add: refined_def)

section \<open>Actors and provenance\<close>

datatype actor = Human jstr | Agent jstr | Model jstr | System

fun Actor :: "actor \<Rightarrow> bool" where
  "Actor (Human u) = Id u"
| "Actor (Agent u) = Id u"
| "Actor (Model m) = (1 \<le> js_length m)"
| "Actor System = True"

fun actorUserId :: "actor \<Rightarrow> jstr option" where
  "actorUserId (Human u) = Some u"
| "actorUserId (Agent u) = Some u"
| "actorUserId (Model m) = None"
| "actorUserId System = None"

record provenance =
  messageIds :: "jstr list"
  proposalId :: "jstr option"
  interpretationId :: "jstr option"

definition emptyProvenance :: provenance where
  "emptyProvenance = \<lparr>messageIds = [], proposalId = None, interpretationId = None\<rparr>"

definition Provenance :: "provenance schema" where
  "Provenance = object_schema (\<lambda>fs. do {
     ms \<leftarrow> defaulted [] (array_of Id_schema) ''messageIds'' fs;
     p \<leftarrow> defaulted None (nullable Id_schema) ''proposalId'' fs;
     i \<leftarrow> defaulted None (nullable Id_schema) ''interpretationId'' fs;
     Some \<lparr>messageIds = ms, proposalId = p, interpretationId = i\<rparr> })"

definition provenance_json :: "provenance \<Rightarrow> json" where
  "provenance_json p = JObj
     [(asc ''messageIds'', JArr (map JStr (messageIds p))),
      (asc ''proposalId'', opt_json JStr (proposalId p)),
      (asc ''interpretationId'', opt_json JStr (interpretationId p))]"

section \<open>Accepted object types and payloads\<close>

datatype accepted_type = Decision | Commitment | OpenQuestion | Claim | Objective

definition object_types :: "(string \<times> accepted_type) list" where
  "object_types = [(''decision'', Decision), (''commitment'', Commitment),
     (''open_question'', OpenQuestion), (''claim'', Claim), (''objective'', Objective)]"

definition AcceptedObjectType :: "accepted_type schema" where
  "AcceptedObjectType = enum_schema object_types"

fun type_name :: "accepted_type \<Rightarrow> string" where
  "type_name Decision = ''decision''"
| "type_name Commitment = ''commitment''"
| "type_name OpenQuestion = ''open_question''"
| "type_name Claim = ''claim''"
| "type_name Objective = ''objective''"

datatype decision_status = Active | Superseded
datatype commitment_status = CommitmentOpen | Done | Dropped
datatype question_status = QuestionOpen | Answered
datatype verification = Unverified | Verified | Disputed
datatype objective_status = ObjectiveOpen | Achieved | Abandoned

datatype payload =
    DecisionPayload jstr "jstr option" decision_status
  | CommitmentPayload jstr jstr "jstr option" commitment_status
  | OpenQuestionPayload jstr question_status
  | ClaimPayload jstr jstr verification
  | ObjectivePayload jstr objective_status

fun payload_type :: "payload \<Rightarrow> accepted_type" where
  "payload_type (DecisionPayload _ _ _) = Decision"
| "payload_type (CommitmentPayload _ _ _ _) = Commitment"
| "payload_type (OpenQuestionPayload _ _) = OpenQuestion"
| "payload_type (ClaimPayload _ _ _) = Claim"
| "payload_type (ObjectivePayload _ _) = Objective"

definition decision_statuses :: "(string \<times> decision_status) list" where
  "decision_statuses = [(''active'', Active), (''superseded'', Superseded)]"

definition commitment_statuses :: "(string \<times> commitment_status) list" where
  "commitment_statuses = [(''open'', CommitmentOpen), (''done'', Done), (''dropped'', Dropped)]"

definition question_statuses :: "(string \<times> question_status) list" where
  "question_statuses = [(''open'', QuestionOpen), (''answered'', Answered)]"

definition verifications :: "(string \<times> verification) list" where
  "verifications = [(''unverified'', Unverified), (''verified'', Verified), (''disputed'', Disputed)]"

definition objective_statuses :: "(string \<times> objective_status) list" where
  "objective_statuses = [(''open'', ObjectiveOpen), (''achieved'', Achieved), (''abandoned'', Abandoned)]"

definition DecisionPayload_schema :: "fields \<Rightarrow> payload option" where
  "DecisionPayload_schema fs = do {
     s \<leftarrow> required nonempty_schema ''statement'' fs;
     d \<leftarrow> defaulted None (nullable Id_schema) ''decidedBy'' fs;
     st \<leftarrow> defaulted Active (enum_schema decision_statuses) ''status'' fs;
     Some (DecisionPayload s d st) }"

definition CommitmentPayload_schema :: "fields \<Rightarrow> payload option" where
  "CommitmentPayload_schema fs = do {
     s \<leftarrow> required nonempty_schema ''statement'' fs;
     w \<leftarrow> required Id_schema ''owner'' fs;
     d \<leftarrow> defaulted None (nullable Timestamp_schema) ''due'' fs;
     st \<leftarrow> defaulted CommitmentOpen (enum_schema commitment_statuses) ''status'' fs;
     Some (CommitmentPayload s w d st) }"

definition OpenQuestionPayload_schema :: "fields \<Rightarrow> payload option" where
  "OpenQuestionPayload_schema fs = do {
     q \<leftarrow> required nonempty_schema ''question'' fs;
     st \<leftarrow> defaulted QuestionOpen (enum_schema question_statuses) ''status'' fs;
     Some (OpenQuestionPayload q st) }"

definition ClaimPayload_schema :: "fields \<Rightarrow> payload option" where
  "ClaimPayload_schema fs = do {
     s \<leftarrow> required nonempty_schema ''statement'' fs;
     c \<leftarrow> required Id_schema ''claimant'' fs;
     v \<leftarrow> defaulted Unverified (enum_schema verifications) ''verification'' fs;
     Some (ClaimPayload s c v) }"

definition ObjectivePayload_schema :: "fields \<Rightarrow> payload option" where
  "ObjectivePayload_schema fs = do {
     t \<leftarrow> required nonempty_schema ''title'' fs;
     st \<leftarrow> defaulted ObjectiveOpen (enum_schema objective_statuses) ''status'' fs;
     Some (ObjectivePayload t st) }"

fun objectPayloadByType :: "accepted_type \<Rightarrow> fields \<Rightarrow> payload option" where
  "objectPayloadByType Decision = DecisionPayload_schema"
| "objectPayloadByType Commitment = CommitmentPayload_schema"
| "objectPayloadByType OpenQuestion = OpenQuestionPayload_schema"
| "objectPayloadByType Claim = ClaimPayload_schema"
| "objectPayloadByType Objective = ObjectivePayload_schema"

fun objectPayloadKeys :: "accepted_type \<Rightarrow> string list" where
  "objectPayloadKeys Decision = [''statement'', ''decidedBy'', ''status'']"
| "objectPayloadKeys Commitment = [''statement'', ''owner'', ''due'', ''status'']"
| "objectPayloadKeys OpenQuestion = [''question'', ''status'']"
| "objectPayloadKeys Claim = [''statement'', ''claimant'', ''verification'']"
| "objectPayloadKeys Objective = [''title'', ''status'']"

fun decision_status_name :: "decision_status \<Rightarrow> string" where
  "decision_status_name Active = ''active''"
| "decision_status_name Superseded = ''superseded''"

fun commitment_status_name :: "commitment_status \<Rightarrow> string" where
  "commitment_status_name CommitmentOpen = ''open''"
| "commitment_status_name Done = ''done''"
| "commitment_status_name Dropped = ''dropped''"

fun question_status_name :: "question_status \<Rightarrow> string" where
  "question_status_name QuestionOpen = ''open''"
| "question_status_name Answered = ''answered''"

fun verification_name :: "verification \<Rightarrow> string" where
  "verification_name Unverified = ''unverified''"
| "verification_name Verified = ''verified''"
| "verification_name Disputed = ''disputed''"

fun objective_status_name :: "objective_status \<Rightarrow> string" where
  "objective_status_name ObjectiveOpen = ''open''"
| "objective_status_name Achieved = ''achieved''"
| "objective_status_name Abandoned = ''abandoned''"

text \<open>A payload as the JavaScript object it is, with the schema's key order.\<close>

fun payload_fields :: "payload \<Rightarrow> fields" where
  "payload_fields (DecisionPayload s d st) =
     [(asc ''statement'', JStr s), (asc ''decidedBy'', opt_json JStr d),
      (asc ''status'', jstring (decision_status_name st))]"
| "payload_fields (CommitmentPayload s w d st) =
     [(asc ''statement'', JStr s), (asc ''owner'', JStr w), (asc ''due'', opt_json JStr d),
      (asc ''status'', jstring (commitment_status_name st))]"
| "payload_fields (OpenQuestionPayload q st) =
     [(asc ''question'', JStr q), (asc ''status'', jstring (question_status_name st))]"
| "payload_fields (ClaimPayload s c v) =
     [(asc ''statement'', JStr s), (asc ''claimant'', JStr c),
      (asc ''verification'', jstring (verification_name v))]"
| "payload_fields (ObjectivePayload t st) =
     [(asc ''title'', JStr t), (asc ''status'', jstring (objective_status_name st))]"

definition payload_json :: "payload \<Rightarrow> json" where
  "payload_json p = JObj (payload_fields p)"

section \<open>Accepted objects\<close>

record accepted_object =
  object_id :: jstr
  object_roomId :: jstr
  object_objectiveId :: "jstr option"
  object_provenance :: provenance
  object_payload :: payload
  object_createdAt :: jstr
  object_updatedAt :: jstr

definition object_type :: "accepted_object \<Rightarrow> accepted_type" where
  "object_type ob = payload_type (object_payload ob)"

definition AcceptedObject :: "accepted_object schema" where
  "AcceptedObject = object_schema (\<lambda>fs. do {
     ty \<leftarrow> required AcceptedObjectType ''type'' fs;
     i \<leftarrow> required Id_schema ''id'' fs;
     r \<leftarrow> required Id_schema ''roomId'' fs;
     obj \<leftarrow> defaulted None (nullable Id_schema) ''objectiveId'' fs;
     pr \<leftarrow> defaulted emptyProvenance Provenance ''provenance'' fs;
     p \<leftarrow> required (object_schema (objectPayloadByType ty)) ''payload'' fs;
     c \<leftarrow> required Timestamp_schema ''createdAt'' fs;
     u \<leftarrow> required Timestamp_schema ''updatedAt'' fs;
     Some \<lparr>object_id = i, object_roomId = r, object_objectiveId = obj, object_provenance = pr,
           object_payload = p, object_createdAt = c, object_updatedAt = u\<rparr> })"

definition object_json :: "accepted_object \<Rightarrow> json" where
  "object_json ob = JObj
     [(asc ''id'', JStr (object_id ob)), (asc ''roomId'', JStr (object_roomId ob)),
      (asc ''objectiveId'', opt_json JStr (object_objectiveId ob)),
      (asc ''provenance'', provenance_json (object_provenance ob)),
      (asc ''type'', jstring (type_name (object_type ob))),
      (asc ''payload'', payload_json (object_payload ob)),
      (asc ''createdAt'', JStr (object_createdAt ob)),
      (asc ''updatedAt'', JStr (object_updatedAt ob))]"

section \<open>Field roles and attribution\<close>

datatype field_role = Attribution | TextRole | StateRole | Detail

fun PAYLOAD_FIELD_ROLE :: "accepted_type \<Rightarrow> (string \<times> field_role) list" where
  "PAYLOAD_FIELD_ROLE Decision = [(''statement'', TextRole), (''decidedBy'', Attribution), (''status'', StateRole)]"
| "PAYLOAD_FIELD_ROLE Commitment =
     [(''statement'', TextRole), (''owner'', Attribution), (''due'', Detail), (''status'', StateRole)]"
| "PAYLOAD_FIELD_ROLE OpenQuestion = [(''question'', TextRole), (''status'', StateRole)]"
| "PAYLOAD_FIELD_ROLE Claim =
     [(''statement'', TextRole), (''claimant'', Attribution), (''verification'', StateRole)]"
| "PAYLOAD_FIELD_ROLE Objective = [(''title'', TextRole), (''status'', StateRole)]"

definition fieldsWithRole :: "accepted_type \<Rightarrow> field_role \<Rightarrow> string list" where
  "fieldsWithRole ty r = map fst (filter (\<lambda>(k, r'). r' = r) (PAYLOAD_FIELD_ROLE ty))"

definition ATTRIBUTION_FIELDS :: "accepted_type \<Rightarrow> string list" where
  "ATTRIBUTION_FIELDS ty = fieldsWithRole ty Attribution"

definition ATTRIBUTION_FIELD :: "accepted_type \<Rightarrow> string option" where
  "ATTRIBUTION_FIELD ty = (case ATTRIBUTION_FIELDS ty of [] \<Rightarrow> None | f # _ \<Rightarrow> Some f)"

definition TEXT_FIELD :: "accepted_type \<Rightarrow> string" where
  "TEXT_FIELD ty = hd (fieldsWithRole ty TextRole)"

text \<open>The loop of \<open>payloadAttributions\<close>: each attributed, non-empty string once, in field order.\<close>

fun collect_names :: "fields \<Rightarrow> string list \<Rightarrow> jstr list \<Rightarrow> jstr list" where
  "collect_names fs [] out = out"
| "collect_names fs (k # ks) out = (case field fs k of
     Some (JStr v) \<Rightarrow> collect_names fs ks (if v \<noteq> [] \<and> v \<notin> set out then out @ [v] else out)
   | _ \<Rightarrow> collect_names fs ks out)"

definition payloadAttributions :: "accepted_type \<Rightarrow> fields \<Rightarrow> jstr list" where
  "payloadAttributions ty fs = collect_names fs (ATTRIBUTION_FIELDS ty) []"

definition payloadText :: "accepted_type \<Rightarrow> fields \<Rightarrow> jstr" where
  "payloadText ty fs = (case field fs (TEXT_FIELD ty) of Some (JStr s) \<Rightarrow> s | _ \<Rightarrow> [])"

definition payloadTextKey :: "accepted_type \<Rightarrow> string" where
  "payloadTextKey ty = TEXT_FIELD ty"

definition objectStatement :: "accepted_object \<Rightarrow> jstr" where
  "objectStatement ob = payloadText (object_type ob) (payload_fields (object_payload ob))"

definition attributions :: "payload \<Rightarrow> jstr list" where
  "attributions p = payloadAttributions (payload_type p) (payload_fields p)"

section \<open>What the schemas admit\<close>

fun payload_ok :: "payload \<Rightarrow> bool" where
  "payload_ok (DecisionPayload s d st) = (s \<noteq> [] \<and> pred_option Id d)"
| "payload_ok (CommitmentPayload s w d st) = (s \<noteq> [] \<and> Id w \<and> pred_option Timestamp d)"
| "payload_ok (OpenQuestionPayload q st) = (q \<noteq> [])"
| "payload_ok (ClaimPayload s c v) = (s \<noteq> [] \<and> Id c)"
| "payload_ok (ObjectivePayload t st) = (t \<noteq> [])"

definition provenance_ok :: "provenance \<Rightarrow> bool" where
  "provenance_ok p \<longleftrightarrow> list_all Id (messageIds p) \<and> pred_option Id (proposalId p) \<and>
     pred_option Id (interpretationId p)"

definition object_ok :: "accepted_object \<Rightarrow> bool" where
  "object_ok ob \<longleftrightarrow> Id (object_id ob) \<and> Id (object_roomId ob) \<and>
     pred_option Id (object_objectiveId ob) \<and> provenance_ok (object_provenance ob) \<and>
     payload_ok (object_payload ob) \<and> Timestamp (object_createdAt ob) \<and>
     Timestamp (object_updatedAt ob)"

lemma Id_nonempty: "Id s \<Longrightarrow> s \<noteq> []"
  by (auto simp: Id_def)

lemma one_le_js_length [simp]: "Suc 0 \<le> js_length s \<longleftrightarrow> s \<noteq> []"
  by (metis One_nat_def js_length_eq_0 less_one linorder_not_less)

lemma field_Cons [simp]:
  "field [] k = None"
  "field ((asc k', j) # fs) k = (if k' = k then Some j else field fs k)"
  by (auto simp: field_def asc_eq_iff)

lemma field_append: "field (fs @ gs) k = (case field fs k of None \<Rightarrow> field gs k | Some j \<Rightarrow> Some j)"
  by (simp add: field_def map_add_def split: option.splits)

lemma enum_name [simp]:
  "enum_schema decision_statuses (jstring (decision_status_name ds)) = Some ds"
  "enum_schema commitment_statuses (jstring (commitment_status_name cs)) = Some cs"
  "enum_schema question_statuses (jstring (question_status_name qs)) = Some qs"
  "enum_schema verifications (jstring (verification_name v)) = Some v"
  "enum_schema objective_statuses (jstring (objective_status_name os)) = Some os"
  "AcceptedObjectType (jstring (type_name ty)) = Some ty"
  by (cases ds, simp_all add: enum_schema_def decision_statuses_def)
     (cases cs, simp_all add: commitment_statuses_def,
      cases qs, simp_all add: question_statuses_def,
      cases v, simp_all add: verifications_def,
      cases os, simp_all add: objective_statuses_def,
      cases ty, simp_all add: AcceptedObjectType_def enum_schema_def object_types_def)

lemma nullable_refined [simp]:
  "pred_option P x \<Longrightarrow> nullable (refined P) (opt_json JStr x) = Some x"
  by (rule nullable_opt_json) auto

lemma nullable_refined_Some:
  "nullable (refined P) j = Some x \<Longrightarrow> pred_option P x"
  by (auto simp: nullable_def pred_option_def split: json.splits if_splits)

lemma array_of_ids [simp]: "list_all P xs \<Longrightarrow> array_of (refined P) (JArr (map JStr xs)) = Some xs"
  by (auto simp: array_of_def list_all_iff intro!: array_schema_map)

lemma array_of_ids_Some: "array_of (refined P) j = Some xs \<Longrightarrow> list_all P xs"
  by (auto simp: array_of_def split: json.splits elim!: array_schema_all)

lemma payload_roundtrip_aux:
  "payload_ok p \<Longrightarrow> objectPayloadByType (payload_type p) (payload_fields p) = Some p"
  by (cases p) (simp_all add: DecisionPayload_schema_def CommitmentPayload_schema_def
      OpenQuestionPayload_schema_def ClaimPayload_schema_def ObjectivePayload_schema_def
      required_def defaulted_def)

lemma defaulted_ok:
  "defaulted d p k fs = Some x \<Longrightarrow> Q d \<Longrightarrow> (\<And>j y. p j = Some y \<Longrightarrow> Q y) \<Longrightarrow> Q x"
  by (auto simp: defaulted_def split: option.splits)

lemma payload_schema_ok:
  "objectPayloadByType ty fs = Some p \<Longrightarrow> payload_type p = ty \<and> payload_ok p"
  by (cases ty) (auto simp: DecisionPayload_schema_def CommitmentPayload_schema_def
      OpenQuestionPayload_schema_def ClaimPayload_schema_def ObjectivePayload_schema_def
      required_def bind_eq_Some_conv
      elim!: defaulted_ok[where Q = "pred_option Id"] defaulted_ok[where Q = "pred_option Timestamp"]
      dest!: nullable_refined_Some)

lemma provenance_roundtrip: "provenance_ok p \<Longrightarrow> Provenance (provenance_json p) = Some p"
  by (simp add: provenance_ok_def Provenance_def provenance_json_def object_schema_def defaulted_def)

lemma provenance_schema_ok: "Provenance j = Some p \<Longrightarrow> provenance_ok p"
  by (auto simp: Provenance_def object_schema_def provenance_ok_def bind_eq_Some_conv split: json.splits
      elim!: defaulted_ok[where Q = "pred_option Id"] defaulted_ok[where Q = "list_all Id"]
      dest!: nullable_refined_Some array_of_ids_Some)

lemma emptyProvenance_ok [simp]: "provenance_ok emptyProvenance"
  by (simp add: provenance_ok_def emptyProvenance_def)

lemma object_roundtrip_aux: "object_ok ob \<Longrightarrow> AcceptedObject (object_json ob) = Some ob"
  by (simp add: object_ok_def AcceptedObject_def object_json_def object_schema_def required_def
      defaulted_def provenance_roundtrip payload_json_def object_type_def payload_roundtrip_aux)

lemma object_schema_Some: "object_schema p j = Some x \<longleftrightarrow> (\<exists>fs. j = JObj fs \<and> p fs = Some x)"
  by (auto simp: object_schema_def split: json.splits)

lemma object_schema_sound: "AcceptedObject j = Some ob \<Longrightarrow> object_ok ob"
  by (auto simp: AcceptedObject_def object_schema_Some bind_eq_Some_conv required_def object_ok_def
      elim!: defaulted_ok[where Q = "pred_option Id"] defaulted_ok[where Q = provenance_ok]
      dest!: nullable_refined_Some provenance_schema_ok payload_schema_ok)

section \<open>The field classification\<close>

lemma roles_cover_schema: "map fst (PAYLOAD_FIELD_ROLE ty) = objectPayloadKeys ty"
  by (cases ty) auto

lemma payload_fields_keys: "map fst (payload_fields p) = map asc (objectPayloadKeys (payload_type p))"
  by (cases p) auto

lemma attribution_fields_simps [simp]:
  "ATTRIBUTION_FIELD Decision = Some ''decidedBy''"
  "ATTRIBUTION_FIELD Commitment = Some ''owner''"
  "ATTRIBUTION_FIELD OpenQuestion = None"
  "ATTRIBUTION_FIELD Claim = Some ''claimant''"
  "ATTRIBUTION_FIELD Objective = None"
  by (simp_all add: ATTRIBUTION_FIELD_def ATTRIBUTION_FIELDS_def fieldsWithRole_def)

lemma text_field_simps [simp]:
  "TEXT_FIELD Decision = ''statement''"
  "TEXT_FIELD Commitment = ''statement''"
  "TEXT_FIELD OpenQuestion = ''question''"
  "TEXT_FIELD Claim = ''statement''"
  "TEXT_FIELD Objective = ''title''"
  by (simp_all add: TEXT_FIELD_def fieldsWithRole_def)

lemma attributions_simps [simp]:
  "attributions (DecisionPayload s d st) = (case d of Some n \<Rightarrow> if n = [] then [] else [n] | None \<Rightarrow> [])"
  "attributions (CommitmentPayload s w du cs) = (if w = [] then [] else [w])"
  "attributions (OpenQuestionPayload s qs) = []"
  "attributions (ClaimPayload s c v) = (if c = [] then [] else [c])"
  "attributions (ObjectivePayload s os) = []"
  by (simp_all add: attributions_def payloadAttributions_def ATTRIBUTION_FIELDS_def
      fieldsWithRole_def opt_json_def split: option.splits)

fun payload_statement :: "payload \<Rightarrow> jstr" where
  "payload_statement (DecisionPayload s d st) = s"
| "payload_statement (CommitmentPayload s w d st) = s"
| "payload_statement (OpenQuestionPayload q st) = q"
| "payload_statement (ClaimPayload s c v) = s"
| "payload_statement (ObjectivePayload t st) = t"

lemma payloadText_payload [simp]:
  "payloadText (payload_type p) (payload_fields p) = payload_statement p"
  by (cases p) (simp_all add: payloadText_def)

lemma objectStatement_payload [simp]: "objectStatement ob = payload_statement (object_payload ob)"
  by (simp add: objectStatement_def object_type_def)

end
