(* ===== verification/Records.thy ===== *)
theory Records
  imports Objects JsText
begin

text \<open>
  The records the log and the folded state are made of: \<open>proposal.ts\<close>, \<open>relations.ts\<close>,
  \<open>events.ts\<close> and \<open>state.ts\<close>, with the wire schema of an event, its printer, and the
  canonical form two JSON values are compared in.
\<close>

section \<open>Proposals\<close>

datatype proposer = ByModel jstr | ByHuman jstr | ByAgent jstr

fun proposerIsMachine :: "proposer \<Rightarrow> bool" where
  "proposerIsMachine (ByHuman u) = False"
| "proposerIsMachine (ByModel m) = True"
| "proposerIsMachine (ByAgent u) = True"

datatype proposal_status = Proposed | Accepted | Rejected | SupersededReading

text \<open>
  \<open>StoredProposal\<close> is the wire proposal without its status; \<open>proposal\<close> extends it, so
  \<open>storeProposal\<close> is record truncation.
\<close>

record stored_proposal =
  proposal_id :: jstr
  proposal_roomId :: jstr
  confidence :: rat
  proposer :: proposer
  cites :: "jstr list"
  quote :: "jstr option"
  proposal_interpretationId :: "jstr option"
  proposal_payload :: payload
  proposal_createdAt :: jstr

record proposal = stored_proposal +
  wire_status :: proposal_status

definition proposal_type :: "('a) stored_proposal_scheme \<Rightarrow> accepted_type" where
  "proposal_type p = payload_type (proposal_payload p)"

definition storeProposal :: "proposal \<Rightarrow> stored_proposal" where
  "storeProposal p = stored_proposal.truncate p"

definition proposal_statuses :: "(string \<times> proposal_status) list" where
  "proposal_statuses = [(''proposed'', Proposed), (''accepted'', Accepted),
     (''rejected'', Rejected), (''superseded'', SupersededReading)]"

fun proposal_status_name :: "proposal_status \<Rightarrow> string" where
  "proposal_status_name Proposed = ''proposed''"
| "proposal_status_name Accepted = ''accepted''"
| "proposal_status_name Rejected = ''rejected''"
| "proposal_status_name SupersededReading = ''superseded''"

definition Proposer_schema :: "proposer schema" where
  "Proposer_schema = object_schema (\<lambda>fs. do {
     k \<leftarrow> required string_schema ''kind'' fs;
     if k = asc ''model'' then map_option ByModel (required nonempty_schema ''model'' fs)
     else if k = asc ''human'' then map_option ByHuman (required Id_schema ''userId'' fs)
     else if k = asc ''agent'' then map_option ByAgent (required Id_schema ''userId'' fs)
     else None })"

fun proposer_json :: "proposer \<Rightarrow> json" where
  "proposer_json (ByModel m) = JObj [(asc ''kind'', jstring ''model''), (asc ''model'', JStr m)]"
| "proposer_json (ByHuman u) = JObj [(asc ''kind'', jstring ''human''), (asc ''userId'', JStr u)]"
| "proposer_json (ByAgent u) = JObj [(asc ''kind'', jstring ''agent''), (asc ''userId'', JStr u)]"

definition confidence_schema :: "rat schema" where
  "confidence_schema j = (case j of JNum x \<Rightarrow> if 0 \<le> x \<and> x \<le> 1 then Some x else None | _ \<Rightarrow> None)"

definition ProposalShape :: "proposal schema" where
  "ProposalShape = object_schema (\<lambda>fs. do {
     ty \<leftarrow> required AcceptedObjectType ''type'' fs;
     i \<leftarrow> required Id_schema ''id'' fs;
     r \<leftarrow> required Id_schema ''roomId'' fs;
     x \<leftarrow> required confidence_schema ''confidence'' fs;
     pr \<leftarrow> required Proposer_schema ''proposer'' fs;
     ms \<leftarrow> defaulted [] (array_of Id_schema) ''provenance'' fs;
     q \<leftarrow> defaulted None (nullable string_schema) ''quote'' fs;
     ip \<leftarrow> defaulted None (nullable Id_schema) ''interpretationId'' fs;
     st \<leftarrow> defaulted Proposed (enum_schema proposal_statuses) ''status'' fs;
     c \<leftarrow> required Timestamp_schema ''createdAt'' fs;
     p \<leftarrow> required (object_schema (objectPayloadByType ty)) ''payload'' fs;
     Some \<lparr>proposal_id = i, proposal_roomId = r, confidence = x, proposer = pr, cites = ms,
           quote = q, proposal_interpretationId = ip, proposal_payload = p,
           proposal_createdAt = c, wire_status = st\<rparr> })"

text \<open>The cross-field rule: a machine reading cites a message and quotes it.\<close>

definition Proposal_refinement :: "unicode \<Rightarrow> ('a) stored_proposal_scheme \<Rightarrow> bool" where
  "Proposal_refinement U p \<longleftrightarrow>
     (proposerIsMachine (proposer p) \<longrightarrow> cites p \<noteq> [] \<and> \<not> isBlank U (quote p))"

definition Proposal :: "unicode \<Rightarrow> proposal schema" where
  "Proposal U j = do { p \<leftarrow> ProposalShape j; if Proposal_refinement U p then Some p else None }"

definition proposal_json :: "proposal \<Rightarrow> json" where
  "proposal_json p = JObj
     [(asc ''id'', JStr (proposal_id p)), (asc ''roomId'', JStr (proposal_roomId p)),
      (asc ''confidence'', JNum (confidence p)), (asc ''proposer'', proposer_json (proposer p)),
      (asc ''provenance'', JArr (map JStr (cites p))), (asc ''quote'', opt_json JStr (quote p)),
      (asc ''interpretationId'', opt_json JStr (proposal_interpretationId p)),
      (asc ''status'', jstring (proposal_status_name (wire_status p))),
      (asc ''createdAt'', JStr (proposal_createdAt p)),
      (asc ''type'', jstring (type_name (proposal_type p))),
      (asc ''payload'', payload_json (proposal_payload p))]"

section \<open>Relations\<close>

datatype relation_kind = Supersedes | DependsOn | Blocks | Answers | Evidence

datatype relation_target = ToObject jstr | ToMessage jstr | ToUrl jstr | ToFile jstr

record relation =
  relation_id :: jstr
  relation_roomId :: jstr
  relation_kind :: relation_kind
  fromObjectId :: jstr
  relation_to :: relation_target
  relation_note :: "jstr option"
  relation_createdAt :: jstr

definition relation_kinds :: "(string \<times> relation_kind) list" where
  "relation_kinds = [(''supersedes'', Supersedes), (''depends_on'', DependsOn), (''blocks'', Blocks),
     (''answers'', Answers), (''evidence'', Evidence)]"

fun relation_kind_name :: "relation_kind \<Rightarrow> string" where
  "relation_kind_name Supersedes = ''supersedes''"
| "relation_kind_name DependsOn = ''depends_on''"
| "relation_kind_name Blocks = ''blocks''"
| "relation_kind_name Answers = ''answers''"
| "relation_kind_name Evidence = ''evidence''"

definition RelationTarget :: "unicode \<Rightarrow> relation_target schema" where
  "RelationTarget U = object_schema (\<lambda>fs. do {
     k \<leftarrow> required string_schema ''kind'' fs;
     if k = asc ''object'' then map_option ToObject (required Id_schema ''objectId'' fs)
     else if k = asc ''message'' then map_option ToMessage (required Id_schema ''messageId'' fs)
     else if k = asc ''url'' then map_option ToUrl (required (refined (is_url U)) ''url'' fs)
     else if k = asc ''file'' then map_option ToFile (required nonempty_schema ''fileKey'' fs)
     else None })"

fun target_json :: "relation_target \<Rightarrow> json" where
  "target_json (ToObject i) = JObj [(asc ''kind'', jstring ''object''), (asc ''objectId'', JStr i)]"
| "target_json (ToMessage i) = JObj [(asc ''kind'', jstring ''message''), (asc ''messageId'', JStr i)]"
| "target_json (ToUrl u) = JObj [(asc ''kind'', jstring ''url''), (asc ''url'', JStr u)]"
| "target_json (ToFile f) = JObj [(asc ''kind'', jstring ''file''), (asc ''fileKey'', JStr f)]"

definition Relation :: "unicode \<Rightarrow> relation schema" where
  "Relation U = object_schema (\<lambda>fs. do {
     i \<leftarrow> required Id_schema ''id'' fs;
     r \<leftarrow> required Id_schema ''roomId'' fs;
     k \<leftarrow> required (enum_schema relation_kinds) ''kind'' fs;
     f \<leftarrow> required Id_schema ''fromObjectId'' fs;
     t \<leftarrow> required (RelationTarget U) ''to'' fs;
     n \<leftarrow> defaulted None (nullable string_schema) ''note'' fs;
     c \<leftarrow> required Timestamp_schema ''createdAt'' fs;
     Some \<lparr>relation_id = i, relation_roomId = r, relation_kind = k, fromObjectId = f,
           relation_to = t, relation_note = n, relation_createdAt = c\<rparr> })"

definition relation_json :: "relation \<Rightarrow> json" where
  "relation_json r = JObj
     [(asc ''id'', JStr (relation_id r)), (asc ''roomId'', JStr (relation_roomId r)),
      (asc ''kind'', jstring (relation_kind_name (relation_kind r))),
      (asc ''fromObjectId'', JStr (fromObjectId r)), (asc ''to'', target_json (relation_to r)),
      (asc ''note'', opt_json JStr (relation_note r)),
      (asc ''createdAt'', JStr (relation_createdAt r))]"

definition objectToObjectKinds :: "relation_kind list" where
  "objectToObjectKinds = [Supersedes, DependsOn, Blocks, Answers]"

fun isObjectTarget :: "relation_target \<Rightarrow> bool" where
  "isObjectTarget (ToObject _) = True"
| "isObjectTarget _ = False"

datatype shape_error =
    MustTargetObject relation_kind relation_target
  | EvidenceTargetsObject
  | PointsAtItself relation_kind

definition relationShapeError :: "relation \<Rightarrow> shape_error option" where
  "relationShapeError r =
     (let structural = (relation_kind r \<in> set objectToObjectKinds) in
      if structural \<and> \<not> isObjectTarget (relation_to r)
        then Some (MustTargetObject (relation_kind r) (relation_to r))
      else if relation_kind r = Evidence \<and> isObjectTarget (relation_to r)
        then Some EvidenceTargetsObject
      else if structural \<and> relation_to r = ToObject (fromObjectId r)
        then Some (PointsAtItself (relation_kind r))
      else None)"

section \<open>Events\<close>

datatype correction_action = Amend | Retract | Restore | Retype | Reattribute | Reopen

record correction_event =
  corrected_id :: jstr
  corrected_at :: jstr
  corrected_objectId :: jstr
  corrected_action :: correction_action
  patch :: fields
  toType :: "accepted_type option"
  corrected_provenance :: provenance
  corrected_note :: "jstr option"

datatype core_event =
    ProposalRecorded jstr jstr proposal
  | ProposalRejected jstr jstr jstr "jstr option"
  | ProposalSuperseded jstr jstr jstr "jstr option" "jstr option"
  | ObjectAccepted jstr jstr accepted_object
  | ObjectCorrected correction_event
  | RelationAdded jstr jstr relation

fun event_id :: "core_event \<Rightarrow> jstr" where
  "event_id (ProposalRecorded i _ _) = i"
| "event_id (ProposalRejected i _ _ _) = i"
| "event_id (ProposalSuperseded i _ _ _ _) = i"
| "event_id (ObjectAccepted i _ _) = i"
| "event_id (ObjectCorrected c) = corrected_id c"
| "event_id (RelationAdded i _ _) = i"

fun event_at :: "core_event \<Rightarrow> jstr" where
  "event_at (ProposalRecorded _ t _) = t"
| "event_at (ProposalRejected _ t _ _) = t"
| "event_at (ProposalSuperseded _ t _ _ _) = t"
| "event_at (ObjectAccepted _ t _) = t"
| "event_at (ObjectCorrected c) = corrected_at c"
| "event_at (RelationAdded _ t _) = t"

definition correction_actions :: "(string \<times> correction_action) list" where
  "correction_actions = [(''amend'', Amend), (''retract'', Retract), (''restore'', Restore),
     (''retype'', Retype), (''reattribute'', Reattribute), (''reopen'', Reopen)]"

fun action_name :: "correction_action \<Rightarrow> string" where
  "action_name Amend = ''amend''"
| "action_name Retract = ''retract''"
| "action_name Restore = ''restore''"
| "action_name Retype = ''retype''"
| "action_name Reattribute = ''reattribute''"
| "action_name Reopen = ''reopen''"

definition record_schema :: "fields schema" where
  "record_schema j = (case j of JObj fs \<Rightarrow> Some fs | _ \<Rightarrow> None)"

definition ObjectCorrected_schema :: "jstr \<Rightarrow> jstr \<Rightarrow> fields \<Rightarrow> core_event option" where
  "ObjectCorrected_schema i t fs = do {
     ob \<leftarrow> required Id_schema ''objectId'' fs;
     a \<leftarrow> required (enum_schema correction_actions) ''action'' fs;
     p \<leftarrow> defaulted [] record_schema ''patch'' fs;
     ty \<leftarrow> defaulted None (nullable AcceptedObjectType) ''toType'' fs;
     pr \<leftarrow> defaulted emptyProvenance Provenance ''provenance'' fs;
     n \<leftarrow> defaulted None (nullable string_schema) ''note'' fs;
     Some (ObjectCorrected \<lparr>corrected_id = i, corrected_at = t, corrected_objectId = ob,
       corrected_action = a, patch = p, toType = ty, corrected_provenance = pr,
       corrected_note = n\<rparr>) }"

definition CoreEventVariants :: "unicode \<Rightarrow> fields \<Rightarrow> core_event option" where
  "CoreEventVariants U fs = do {
     ty \<leftarrow> required string_schema ''type'' fs;
     i \<leftarrow> required Id_schema ''id'' fs;
     t \<leftarrow> required Timestamp_schema ''at'' fs;
     if ty = asc ''proposal_recorded''
       then map_option (ProposalRecorded i t) (required (Proposal U) ''proposal'' fs)
     else if ty = asc ''proposal_rejected'' then do {
       p \<leftarrow> required Id_schema ''proposalId'' fs;
       r \<leftarrow> defaulted None (nullable string_schema) ''reason'' fs;
       Some (ProposalRejected i t p r) }
     else if ty = asc ''proposal_superseded'' then do {
       p \<leftarrow> required Id_schema ''proposalId'' fs;
       b \<leftarrow> defaulted None (nullable Id_schema) ''supersededByProposalId'' fs;
       r \<leftarrow> defaulted None (nullable string_schema) ''reason'' fs;
       Some (ProposalSuperseded i t p b r) }
     else if ty = asc ''object_accepted''
       then map_option (ObjectAccepted i t) (required AcceptedObject ''object'' fs)
     else if ty = asc ''object_corrected'' then ObjectCorrected_schema i t fs
     else if ty = asc ''relation_added''
       then map_option (RelationAdded i t) (required (Relation U) ''relation'' fs)
     else None }"

text \<open>The whole schema: the no-actor guard, then the union of the six event types.\<close>

definition CoreEvent :: "unicode \<Rightarrow> core_event schema" where
  "CoreEvent U = object_schema (\<lambda>fs.
     if field fs ''actor'' \<noteq> None then None else CoreEventVariants U fs)"

fun event_json :: "core_event \<Rightarrow> json" where
  "event_json (ProposalRecorded i t p) = JObj
     [(asc ''id'', JStr i), (asc ''at'', JStr t), (asc ''type'', jstring ''proposal_recorded''),
      (asc ''proposal'', proposal_json p)]"
| "event_json (ProposalRejected i t p r) = JObj
     [(asc ''id'', JStr i), (asc ''at'', JStr t), (asc ''type'', jstring ''proposal_rejected''),
      (asc ''proposalId'', JStr p), (asc ''reason'', opt_json JStr r)]"
| "event_json (ProposalSuperseded i t p b r) = JObj
     [(asc ''id'', JStr i), (asc ''at'', JStr t), (asc ''type'', jstring ''proposal_superseded''),
      (asc ''proposalId'', JStr p), (asc ''supersededByProposalId'', opt_json JStr b),
      (asc ''reason'', opt_json JStr r)]"
| "event_json (ObjectAccepted i t ob) = JObj
     [(asc ''id'', JStr i), (asc ''at'', JStr t), (asc ''type'', jstring ''object_accepted''),
      (asc ''object'', object_json ob)]"
| "event_json (ObjectCorrected c) = JObj
     [(asc ''id'', JStr (corrected_id c)), (asc ''at'', JStr (corrected_at c)),
      (asc ''type'', jstring ''object_corrected''),
      (asc ''objectId'', JStr (corrected_objectId c)),
      (asc ''action'', jstring (action_name (corrected_action c))),
      (asc ''patch'', JObj (patch c)),
      (asc ''toType'', opt_json (\<lambda>ty. jstring (type_name ty)) (toType c)),
      (asc ''provenance'', provenance_json (corrected_provenance c)),
      (asc ''note'', opt_json JStr (corrected_note c))]"
| "event_json (RelationAdded i t r) = JObj
     [(asc ''id'', JStr i), (asc ''at'', JStr t), (asc ''type'', jstring ''relation_added''),
      (asc ''relation'', relation_json r)]"

end
