(* ===== verification/Policy.thy ===== *)
theory Policy
  imports Matching Records
begin

text \<open>
  \<open>policy.ts\<close>: the acceptance table and its invariants, the shapes a text reads as a
  commitment in, and the supersession split.
\<close>

section \<open>The acceptance table\<close>

record acceptance_rule =
  thetaAuto :: rat
  thetaMin :: rat
  autoAccept :: bool

definition AcceptanceRule :: "acceptance_rule \<Rightarrow> bool" where
  "AcceptanceRule r \<longleftrightarrow> 0 \<le> thetaAuto r \<and> thetaAuto r \<le> 1 \<and> 0 \<le> thetaMin r \<and> thetaMin r \<le> 1"

fun DEFAULT_ACCEPTANCE_RULES :: "accepted_type \<Rightarrow> acceptance_rule" where
  "DEFAULT_ACCEPTANCE_RULES Decision = \<lparr>thetaAuto = 7/10, thetaMin = 1/2, autoAccept = False\<rparr>"
| "DEFAULT_ACCEPTANCE_RULES Commitment = \<lparr>thetaAuto = 3/4, thetaMin = 1/2, autoAccept = False\<rparr>"
| "DEFAULT_ACCEPTANCE_RULES OpenQuestion = \<lparr>thetaAuto = 3/5, thetaMin = 2/5, autoAccept = True\<rparr>"
| "DEFAULT_ACCEPTANCE_RULES Claim = \<lparr>thetaAuto = 7/10, thetaMin = 1/2, autoAccept = True\<rparr>"
| "DEFAULT_ACCEPTANCE_RULES Objective = \<lparr>thetaAuto = 3/4, thetaMin = 1/2, autoAccept = False\<rparr>"

definition autoAcceptable :: "accepted_type \<Rightarrow> bool" where
  "autoAcceptable ty = autoAccept (DEFAULT_ACCEPTANCE_RULES ty)"

text \<open>A floor is a number or \<open>Number.POSITIVE_INFINITY\<close>.\<close>

datatype floor = Finite rat | Infinite

definition MODEL_ACCEPTANCE_FLOOR :: "accepted_type \<Rightarrow> floor" where
  "MODEL_ACCEPTANCE_FLOOR ty =
     (if autoAcceptable ty then Finite (thetaAuto (DEFAULT_ACCEPTANCE_RULES ty)) else Infinite)"

fun below_floor :: "rat \<Rightarrow> floor \<Rightarrow> bool" where
  "below_floor x (Finite f) = (x < f)"
| "below_floor x Infinite = True"

text \<open>The schema of a configuration, and the merge that is held to it.\<close>

definition all_types :: "accepted_type list" where
  "all_types = [Decision, Commitment, OpenQuestion, Claim, Objective]"

definition rule_ok :: "accepted_type \<Rightarrow> acceptance_rule \<Rightarrow> bool" where
  "rule_ok ty r \<longleftrightarrow> thetaMin r \<le> thetaAuto r \<and> (autoAccept r \<longrightarrow> autoAcceptable ty) \<and>
     \<not> (autoAccept r \<and> MODEL_ACCEPTANCE_FLOOR ty \<noteq> Infinite \<and>
        below_floor (thetaAuto r) (MODEL_ACCEPTANCE_FLOOR ty))"

definition AcceptanceConfig :: "(accepted_type \<Rightarrow> acceptance_rule option) \<Rightarrow> (accepted_type \<Rightarrow> acceptance_rule) option" where
  "AcceptanceConfig rules =
     (if list_all (\<lambda>ty. case rules ty of None \<Rightarrow> False | Some r \<Rightarrow> AcceptanceRule r \<and> rule_ok ty r) all_types
      then Some (\<lambda>ty. the (rules ty)) else None)"

record rule_override =
  override_thetaAuto :: "rat option"
  override_thetaMin :: "rat option"
  override_autoAccept :: "bool option"

definition or_default :: "'a \<Rightarrow> 'a option \<Rightarrow> 'a" where
  "or_default d x = (case x of None \<Rightarrow> d | Some v \<Rightarrow> v)"

definition merge_rule :: "acceptance_rule \<Rightarrow> rule_override option \<Rightarrow> acceptance_rule" where
  "merge_rule d x = (case x of None \<Rightarrow> d | Some over \<Rightarrow>
     \<lparr>thetaAuto = or_default (thetaAuto d) (override_thetaAuto over),
      thetaMin = or_default (thetaMin d) (override_thetaMin over),
      autoAccept = or_default (autoAccept d) (override_autoAccept over)\<rparr>)"

definition resolveAcceptanceConfig ::
  "(accepted_type \<Rightarrow> rule_override option) \<Rightarrow> (accepted_type \<Rightarrow> acceptance_rule) option" where
  "resolveAcceptanceConfig overrides =
     AcceptanceConfig (\<lambda>ty. Some (merge_rule (DEFAULT_ACCEPTANCE_RULES ty) (overrides ty)))"

section \<open>What a text reads as\<close>

definition AGENT :: re where
  "AGENT = Alt (one_of_lits [''i'', ''we'', ''you'', ''he'', ''she'', ''they'', ''everyone'',
     ''everybody'', ''someone'', ''somebody'', ''anyone''])
     (Seq (lit ''@'') (many1 (Cls (\<lambda>c. word_char c \<or> c = 46 \<or> c = 45))))"

definition i_or_we :: re where
  "i_or_we = one_of_lits [''i'', ''we'']"

definition clause_chars :: "nat \<Rightarrow> bool \<Rightarrow> re" where
  "clause_chars n greedy = Rep greedy n (none_of ''.!?'')"

text \<open>Modals, futures and plans.\<close>

definition COMMITMENT_SHAPES_future :: "re list" where
  "COMMITMENT_SHAPES_future =
    [seq [Bound, lit_i ''will'', Bound],
     seq [Bound, lit_i ''won'', chr 39, lit_i ''t'', Bound],
     seq [Bound, lit_i ''shall'', Bound],
     seq [Bound, Alt (Seq (chr 39) (lit_i ''ll'')) (Seq (chr 8217) (lit_i ''ll'')), Bound],
     seq [Bound, lit_i ''gonna'', Bound],
     seq [Bound, alt [one_of_lits [''am'', ''is'', ''are'', ''was'', ''were''],
            Seq (chr 39) (lit_i ''m''), Seq (chr 39) (lit_i ''re''), Seq (chr 39) (lit_i ''s'')],
          spaces1, lit_i ''going'', spaces1, lit_i ''to'', Bound],
     seq [Bound, one_of_lits [''plan'', ''plans'', ''planning'', ''intend'', ''intends'', ''aim'', ''aims''],
          spaces1, lit_i ''to'', Bound]]"

text \<open>Obligations on a person, and the explicit promises.\<close>

definition COMMITMENT_SHAPES_promise :: "re list" where
  "COMMITMENT_SHAPES_promise =
    [seq [Bound, AGENT, spaces1,
          alt [lit_i ''must'', seq [lit_i ''has'', spaces1, lit_i ''to''],
               seq [lit_i ''have'', spaces1, lit_i ''to''],
               seq [lit_i ''need'', opt (lit_i ''s''), spaces1, lit_i ''to'']],
          spaces1, Ahead False (Seq (lit_i ''be'') Bound)],
     seq [Bound, i_or_we, spaces1,
          one_of_lits [''promise'', ''promises'', ''commit'', ''commits'', ''undertake'', ''undertakes'',
            ''pledge'', ''pledges'', ''guarantee'', ''guarantees'', ''swear'', ''swears''], Bound],
     seq [Bound, i_or_we, spaces1, lit_i ''owe'', Bound],
     seq [Bound, lit_i ''count'', spaces1, lit_i ''on'', spaces1, one_of_lits [''me'', ''us''], Bound],
     seq [Bound, i_or_we, opt (Seq (chr 39) (lit_i ''ve'')), spaces1,
          one_of_lits [''got'', ''have got''], spaces1,
          one_of_lits [''this'', ''it'', ''that'', ''these'', ''those''], Bound],
     seq [Bound, lit_i ''consider'', spaces1, clause_chars 60 False, Bound,
          one_of_lits [''done'', ''handled'', ''sorted'', ''covered'', ''taken care of''], Bound],
     seq [Bound, one_of_lits [''done'', ''handled'', ''sorted'', ''covered''], spaces1, lit_i ''by'',
          spaces1, one_of_lits [''me'', ''us''], Bound],
     seq [Bound, lit_i ''leave'', spaces1, clause_chars 60 False, Bound,
          one_of_lits [''to'', ''with''], spaces1, one_of_lits [''me'', ''us''], Bound]]"

text \<open>The present progressive, a deadline, an offer.\<close>

definition weekdays :: re where
  "weekdays = one_of_lits [''monday'', ''tuesday'', ''wednesday'', ''thursday'', ''friday'']"

definition COMMITMENT_SHAPES_present :: "unicode \<Rightarrow> re list" where
  "COMMITMENT_SHAPES_present U =
    [seq [Bound_iu, i_or_we, spaces1, one_of_lits [''am'', ''are''], spaces1,
          many1 (Cls (is_letter U)), lit_i ''ing'', Bound_iu],
     seq [Bound_iu, i_or_we, chr 39, one_of_lits [''m'', ''re''], spaces1,
          many1 (Cls (is_letter U)), lit_i ''ing'', Bound_iu],
     seq [Bound, i_or_we, Bound, clause_chars 80 True, Bound,
          alt [lit_i ''tomorrow'', lit_i ''tonight'',
               seq [lit_i ''next'', spaces1, Alt (one_of_lits [''week'', ''month'', ''sprint'']) weekdays],
               seq [one_of_lits [''on'', ''by'', ''before''], spaces1,
                    alt [weekdays, one_of_lits [''saturday'', ''sunday'', ''eod'', ''eow'', ''noon''],
                         seq [lit_i ''the'', spaces1, lit_i ''release''],
                         seq [lit_i ''the'', spaces1, lit_i ''deploy'']]]],
          Bound],
     seq [Bound, alt [lit_i ''i'', lit_i ''we'', seq [lit_i ''i'', chr 39, lit_i ''ll''],
            seq [lit_i ''we'', chr 39, lit_i ''ll'']],
          spaces1, one_of_lits [''can'', ''could''], spaces1,
          one_of_lits [''do'', ''take'', ''handle'', ''own'', ''land'', ''ship''], Bound]]"

definition COMMITMENT_SHAPES :: "unicode \<Rightarrow> re list" where
  "COMMITMENT_SHAPES U =
     COMMITMENT_SHAPES_future @ COMMITMENT_SHAPES_promise @ COMMITMENT_SHAPES_present U"

definition readsAsCommitment :: "unicode \<Rightarrow> jstr \<Rightarrow> bool" where
  "readsAsCommitment U t \<longleftrightarrow> list_ex (\<lambda>p. test p t) (COMMITMENT_SHAPES U)"

fun typeCertifiableFromText :: "unicode \<Rightarrow> accepted_type \<Rightarrow> jstr \<Rightarrow> bool" where
  "typeCertifiableFromText U OpenQuestion t = True"
| "typeCertifiableFromText U Claim t = (\<not> readsAsCommitment U t)"
| "typeCertifiableFromText U Commitment t = False"
| "typeCertifiableFromText U Decision t = False"
| "typeCertifiableFromText U Objective t = False"

section \<open>The supersession split\<close>

datatype supersession_authority = ModelMayLand | RequiresHuman

fun decideSupersession :: "accepted_type \<Rightarrow> supersession_authority" where
  "decideSupersession Claim = ModelMayLand"
| "decideSupersession OpenQuestion = ModelMayLand"
| "decideSupersession Decision = RequiresHuman"
| "decideSupersession Commitment = RequiresHuman"
| "decideSupersession Objective = RequiresHuman"

section \<open>The table is consistent with the floor\<close>

lemma rule_ok_autoAccept:
  assumes "rule_ok ty r" and "autoAccept r" and "thetaAuto r \<le> x"
  shows "\<not> below_floor x (MODEL_ACCEPTANCE_FLOOR ty)"
  using assms by (auto simp: rule_ok_def MODEL_ACCEPTANCE_FLOOR_def)

lemma AcceptanceConfig_rule:
  assumes "AcceptanceConfig rules = Some config"
  shows "AcceptanceRule (config ty) \<and> rule_ok ty (config ty)"
  using assms by (cases ty) (auto simp: AcceptanceConfig_def all_types_def split: if_splits option.splits)

lemma autoAcceptable_iff: "autoAcceptable ty \<longleftrightarrow> ty = Claim \<or> ty = OpenQuestion"
  by (cases ty) (auto simp: autoAcceptable_def)

end
