(* ===== verification/State.thy ===== *)
theory State
  imports Records
begin

text \<open>
  The folded state of \<open>state.ts\<close>: object and proposal records, the append-only correction log,
  reducer issues, and the cursor.  An issue's \<open>reason\<close> is the refusal the source renders as a
  sentence; here it is a datatype with one constructor per sentence, carrying the values the
  sentence interpolates (grouped by the part of the code that refuses).
\<close>

section \<open>Refusals\<close>

datatype human_only_gate =
    DirectAcceptance | DecisionAcceptance | CommitmentAcceptance | ObjectiveAcceptance
  | ClaimVerification | Supersession | ConfirmedSupersession | UnconfirmedSupersession
  | AnswerRelation | CorrectionGate

datatype binding_gate = AcceptanceBinding | RejectionBinding | SupersessionBinding

datatype receipt_gate =
    PayloadBinding | ProvenanceBinding | MissingReceiptContext | MissingQuote | ReceiptFailed
  | ReceiptNotCertifiable | ThirdPartyConfirm

text \<open>Authority gates (\<open>authority.ts\<close>).\<close>

datatype authority_refusal =
    HumanOnly human_only_gate actor jstr "accepted_type option"
  | ProposalBindingRefused binding_gate actor proposer jstr
  | SelfStagedMachineReading actor "jstr option" proposer
  | SelfStagedForeignName actor "jstr option" jstr
  | CorrectionPutsName actor correction_action jstr jstr
  | CorrectionRewords actor correction_action jstr jstr
  | VerifiesOwnClaim actor
  | VerifiesOwnStaging actor
  | CommitmentOwnedByOther actor jstr
  | RetractsVerifiedClaim actor
  | AcceptancePutsName actor jstr jstr jstr
  | AcceptanceRewords actor jstr jstr jstr
  | BelowConfidenceFloor actor accepted_type jstr rat
  | UncertifiedType actor accepted_type jstr
  | ReceiptRefused receipt_gate actor jstr

text \<open>Structural refusals of the proposal and acceptance handlers (\<open>reduce.ts\<close>).\<close>

datatype proposal_fault =
    ProposalAlreadyRecorded jstr
  | ForcedToProposed jstr proposal_status
  | UnknownProposal jstr
  | ProposalAlready jstr proposal_status
  | ProposalSupersedesItself jstr
  | SupersededByUnknownProposal jstr jstr
  | ReplacementCrossesRooms jstr jstr jstr

datatype acceptance_fault =
    ObjectAlreadyAccepted jstr
  | CitesUnknownProposal jstr jstr
  | ProposalAlreadyRejected jstr
  | ProposalAlreadyAcceptedAs jstr "jstr option"
  | ProposalAlreadySupersededBy jstr "jstr option"
  | ProposalTypeMismatch jstr accepted_type accepted_type
  | ProposalRoomMismatch jstr jstr jstr
  | ObjectiveMissing jstr jstr
  | ObjectiveWrongType jstr jstr accepted_type
  | ObjectiveOtherRoom jstr jstr

text \<open>Structural refusals of the correction planner and of the relation handler.\<close>

datatype correction_fault =
    UnknownObject jstr
  | AlreadyRetracted jstr
  | NotRetracted jstr
  | RetractedRestoreFirst jstr correction_action
  | NoAttributionField accepted_type
  | ReattributeEmpty jstr
  | ReattributeStrays jstr "jstr list"
  | AmendTouchesAttribution jstr
  | InvalidPatch correction_action jstr
  | ChangedNothing correction_action jstr

datatype retype_fault =
    RetypeWithoutTarget jstr
  | RetypeSameType jstr accepted_type
  | ObjectiveStillFiled jstr accepted_type "jstr list"
  | QuestionStillAnswered jstr accepted_type
  | StillAnAnswer jstr accepted_type
  | RetypeMovesAttribution jstr string
  | RetypeInvalid jstr accepted_type accepted_type
  | AlreadyOpen jstr accepted_type
  | CannotReopen jstr accepted_type

datatype relation_fault =
    RelationExists jstr
  | RelationShape shape_error
  | UnknownSource jstr
  | UnknownTarget jstr
  | SourceOtherRoom jstr jstr
  | TargetOtherRoom jstr jstr
  | AnswersFromNonQuestion accepted_type
  | AnswersToWrongType accepted_type
  | AnswersRetracted jstr
  | AnswersAlreadyAnswered jstr
  | AlreadySuperseded jstr jstr
  | SupersessionCycle jstr jstr

datatype reason =
    Authority authority_refusal
  | ProposalFault proposal_fault
  | AcceptanceFault acceptance_fault
  | CorrectionFault correction_fault
  | RetypeFault retype_fault
  | RelationFault relation_fault
  | NoReasonRecorded jstr

section \<open>Records of the state\<close>

record object_record =
  object :: accepted_object
  acceptedAt :: jstr
  record_updatedAt :: jstr
  acceptedBy :: actor
  humanTouchedAt :: "jstr option"
  revision :: nat
  retractedAt :: "jstr option"
  supersededById :: "jstr option"
  reopenedFromAnswers :: "jstr list"

record proposal_record =
  proposal :: stored_proposal
  stagedBy :: actor
  status :: proposal_status
  acceptedObjectId :: "jstr option"
  rejectedReason :: "jstr option"
  supersededByProposalId :: "jstr option"
  supersededReason :: "jstr option"

definition proposalWithStatus :: "proposal_record \<Rightarrow> proposal" where
  "proposalWithStatus r = stored_proposal.extend (proposal r) \<lparr>wire_status = status r\<rparr>"

text \<open>What a correction logs as \<open>before\<close> and \<open>after\<close>.\<close>

datatype snapshot =
    SPayload payload
  | STyped accepted_type payload
  | SRetracted bool
  | SAnswered "jstr list"
  | SReopened "jstr list"
  | SStatus commitment_status

record correction_record =
  correction_eventId :: jstr
  correction_objectId :: jstr
  correction_objectType :: accepted_type
  correction_action :: correction_action
  correction_before :: snapshot
  correction_after :: snapshot
  correction_actor :: actor
  correction_provenance :: provenance
  correction_note :: "jstr option"
  correction_at :: jstr

type_synonym reducer_issue = "jstr \<times> reason"

record event_cursor =
  cursor_at :: jstr
  cursor_id :: jstr

record core_state =
  objects :: "object_record store"
  relations :: "relation list"
  proposals :: "proposal_record store"
  corrections :: "correction_record list"
  issues :: "reducer_issue list"
  consumedEventIds :: "jstr list"
  cursor :: "event_cursor option"
  watermarks :: "event_cursor store"

definition emptyState :: core_state where
  "emptyState = \<lparr>objects = [], relations = [], proposals = [], corrections = [], issues = [],
     consumedEventIds = [], cursor = None, watermarks = []\<rparr>"

section \<open>Trusted context\<close>

record provenance_message =
  message_id :: jstr
  authorId :: jstr
  body :: jstr

record trusted_context =
  actor :: actor
  messages :: "provenance_message list option"

record authored_event = trusted_context +
  event :: core_event

definition authored :: "core_event \<Rightarrow> trusted_context \<Rightarrow> authored_event" where
  "authored e c = trusted_context.extend c \<lparr>event = e\<rparr>"

section \<open>Canonical JSON\<close>

text \<open>
  \<open>canonicalize\<close> sorts the keys of every object, recursively; \<open>canonicalJson\<close> then prints the
  result.  \<open>JSON.stringify\<close> is injective on the values compared here (strings, nulls, and arrays
  and objects of them), so two canonical texts are equal exactly when the canonical values are.
\<close>

fun canonicalize :: "json \<Rightarrow> json" where
  "canonicalize (JArr js) = JArr (map canonicalize js)"
| "canonicalize (JObj fs) = JObj (sort_key fst (map (\<lambda>(k, v). (k, canonicalize v)) fs))"
| "canonicalize JNull = JNull"
| "canonicalize (JBool b) = JBool b"
| "canonicalize (JNum x) = JNum x"
| "canonicalize (JStr s) = JStr s"

definition canonicalJson :: "json \<Rightarrow> json" where
  "canonicalJson v = canonicalize v"

lemma canonical_opt [simp]: "canonicalize (opt_json JStr x) = opt_json JStr x"
  by (cases x) (simp_all add: opt_json_def)

lemma opt_json_inj [simp]: "opt_json JStr x = opt_json JStr y \<longleftrightarrow> x = y"
  by (cases x; cases y) (simp_all add: opt_json_def)

lemma status_names_inj [simp]:
  "decision_status_name a = decision_status_name b \<longleftrightarrow> a = b"
  "commitment_status_name c = commitment_status_name d \<longleftrightarrow> c = d"
  "question_status_name e = question_status_name f \<longleftrightarrow> e = f"
  "verification_name g = verification_name h \<longleftrightarrow> g = h"
  "objective_status_name i = objective_status_name j \<longleftrightarrow> i = j"
  by (cases a; cases b; simp) ((cases c; cases d; simp), (cases e; cases f; simp),
      (cases g; cases h; simp), (cases i; cases j; simp))

lemma payload_fields_distinct: "distinct (map fst (payload_fields p))"
  by (cases p) simp_all

lemma canonical_fields:
  assumes "distinct (map fst fs)" and "distinct (map fst gs)"
    and "canonicalize (JObj fs) = canonicalize (JObj gs)"
  shows "map_option canonicalize (field fs k) = map_option canonicalize (field gs k)"
proof -
  let ?c = "map (\<lambda>(k, v). (k, canonicalize v))"
  have "sort_key fst (?c fs) = sort_key fst (?c gs)"
    using assms(3) by simp
  then have "set (sort_key fst (?c fs)) = set (sort_key fst (?c gs))"
    by (rule arg_cong)
  then have "set (?c fs) = set (?c gs)"
    by (simp only: set_sort)
  moreover have "distinct (map fst (?c fs))" and "distinct (map fst (?c gs))"
    using assms(1,2) by (simp_all add: comp_def case_prod_beta)
  ultimately have "map_of (?c fs) = map_of (?c gs)"
    by (subst map_of_inject_set)
  then have "map_of (?c fs) (asc k) = map_of (?c gs) (asc k)"
    by simp
  then show ?thesis
    by (simp add: map_of_map field_def)
qed

lemma canonical_payload_json [simp]:
  "canonicalJson (payload_json p) = canonicalJson (payload_json q) \<longleftrightarrow> p = q"
proof
  assume "canonicalJson (payload_json p) = canonicalJson (payload_json q)"
  then have f: "map_option canonicalize (field (payload_fields p) k) =
      map_option canonicalize (field (payload_fields q) k)" for k
    unfolding canonicalJson_def payload_json_def
    by (intro canonical_fields payload_fields_distinct)
  show "p = q"
    using f[of "''statement''"] f[of "''decidedBy''"] f[of "''owner''"] f[of "''due''"]
      f[of "''status''"] f[of "''question''"] f[of "''claimant''"] f[of "''verification''"]
      f[of "''title''"]
    by (cases p; cases q) simp_all
qed simp

end
