(* ===== verification/Escalation.thy ===== *)
theory Escalation
  imports Policy State
begin

text \<open>
  \<open>escalation.ts\<close>, the receipt check: what can be wrong with the citation of a reading, how
  severe each problem is, and which of them block a machine's acceptance.
\<close>

section \<open>Problems\<close>

datatype problem_kind =
    NoProvenance | UnknownMessage | MissingQuoteProblem | QuoteNotFound | QuoteOnlyInReplyBlockquote
  | ElidedQuote | QuoteTooShort | QuoteDoesNotBearStatement | QuoteCarriesMoreThanStatement
  | StatementRespacesTheQuote | QuoteIsAFragment | QuoteSpanUnscanned | QuoteOmitsSurroundingText
  | SupersededByLaterMessage | StatementIsNotAnAssertion | StatementIsNotAQuestion
  | StatementUncheckable | StatementAddsLinkStructure | StatementAddsBlockStructure
  | AmbiguousQuote | AttributedPersonNotAuthor

datatype severity = Reject | Refer | Reclassify

datatype problem_subject = TheReading | TheWindow

datatype evidence = TheProposal | TheCitedMessages | EvidenceWindow

record problem =
  problem_kind :: problem_kind
  severity :: severity
  problem_messageId :: "jstr option"
  about :: problem_subject

record provenance_subject =
  subject_type :: accepted_type
  subject_provenance :: "jstr list"
  subject_quote :: "jstr option"
  subject_proposer :: proposer
  attributedTo :: "jstr option"
  statement :: "jstr option"

section \<open>Evidence\<close>

fun PROBLEM_EVIDENCE :: "problem_kind \<Rightarrow> evidence" where
  "PROBLEM_EVIDENCE NoProvenance = TheProposal"
| "PROBLEM_EVIDENCE UnknownMessage = EvidenceWindow"
| "PROBLEM_EVIDENCE MissingQuoteProblem = TheProposal"
| "PROBLEM_EVIDENCE QuoteNotFound = TheCitedMessages"
| "PROBLEM_EVIDENCE QuoteOnlyInReplyBlockquote = TheCitedMessages"
| "PROBLEM_EVIDENCE ElidedQuote = TheCitedMessages"
| "PROBLEM_EVIDENCE QuoteTooShort = TheProposal"
| "PROBLEM_EVIDENCE QuoteDoesNotBearStatement = TheProposal"
| "PROBLEM_EVIDENCE QuoteCarriesMoreThanStatement = TheProposal"
| "PROBLEM_EVIDENCE StatementRespacesTheQuote = TheProposal"
| "PROBLEM_EVIDENCE QuoteIsAFragment = TheCitedMessages"
| "PROBLEM_EVIDENCE QuoteSpanUnscanned = TheCitedMessages"
| "PROBLEM_EVIDENCE QuoteOmitsSurroundingText = TheCitedMessages"
| "PROBLEM_EVIDENCE SupersededByLaterMessage = EvidenceWindow"
| "PROBLEM_EVIDENCE StatementIsNotAnAssertion = TheProposal"
| "PROBLEM_EVIDENCE StatementIsNotAQuestion = TheProposal"
| "PROBLEM_EVIDENCE StatementUncheckable = TheProposal"
| "PROBLEM_EVIDENCE StatementAddsLinkStructure = TheProposal"
| "PROBLEM_EVIDENCE StatementAddsBlockStructure = TheProposal"
| "PROBLEM_EVIDENCE AmbiguousQuote = TheCitedMessages"
| "PROBLEM_EVIDENCE AttributedPersonNotAuthor = TheCitedMessages"

definition problemSubject :: "problem_kind \<Rightarrow> bool \<Rightarrow> problem_subject" where
  "problemSubject k windowHoldsEveryCitation = (case PROBLEM_EVIDENCE k of
     TheProposal \<Rightarrow> TheReading
   | EvidenceWindow \<Rightarrow> TheWindow
   | TheCitedMessages \<Rightarrow> if windowHoldsEveryCitation then TheReading else TheWindow)"

section \<open>Reading messages\<close>

fun starts_with :: "jstr \<Rightarrow> jstr \<Rightarrow> bool" where
  "starts_with [] s = True"
| "starts_with (p # ps) [] = False"
| "starts_with (p # ps) (c # s) = (p = c \<and> starts_with ps s)"

text \<open>\<open>String#includes\<close>.\<close>

fun contains_text :: "jstr \<Rightarrow> jstr \<Rightarrow> bool" where
  "contains_text [] p = (p = [])"
| "contains_text (c # s) p = (starts_with p (c # s) \<or> contains_text s p)"

text \<open>\<open>split(LINE_BREAK)\<close>: every break character ends a line.\<close>

fun break_lines :: "jstr \<Rightarrow> jstr \<Rightarrow> jstr list" where
  "break_lines acc [] = [rev acc]"
| "break_lines acc (c # s) = (if LINE_BREAK c then rev acc # break_lines [] s else break_lines (c # acc) s)"

definition BLOCKQUOTE_LINE :: "jstr \<Rightarrow> bool" where
  "BLOCKQUOTE_LINE l = (case dropWhile js_space l of c # _ \<Rightarrow> c = 62 | [] \<Rightarrow> False)"

fun join_lines :: "jstr list \<Rightarrow> jstr" where
  "join_lines [] = []"
| "join_lines [l] = l"
| "join_lines (l # ls) = l @ 10 # join_lines ls"

definition stripReplyBlockquotes :: "jstr \<Rightarrow> jstr" where
  "stripReplyBlockquotes t = join_lines (filter (\<lambda>l. \<not> BLOCKQUOTE_LINE l) (break_lines [] t))"

definition bearingMessages :: "jstr \<Rightarrow> provenance_message list \<Rightarrow> provenance_message list" where
  "bearingMessages q ms = (let normalized = normalizeForReceipt q in
     if normalized = [] then []
     else filter (\<lambda>m. contains_text (normalizeForReceipt (stripReplyBlockquotes (body m))) normalized) ms)"

definition one_author :: "provenance_message list \<Rightarrow> bool" where
  "one_author ms \<longleftrightarrow> length (dedup (map authorId ms)) = 1"

definition bearingMessage :: "jstr \<Rightarrow> provenance_message list \<Rightarrow> provenance_message option" where
  "bearingMessage q ms = (case bearingMessages q ms of
     [] \<Rightarrow> None | m # rest \<Rightarrow> if one_author (m # rest) then Some m else None)"

definition ELISION :: "jstr \<Rightarrow> bool" where
  "ELISION t \<longleftrightarrow> contains_text t (asc ''...'') \<or> 8230 \<in> set t"

section \<open>Later revisions\<close>

definition RETRACTION_MARKERS :: "jstr list" where
  "RETRACTION_MARKERS = [asc ''i was wrong'', asc ''i'' @ 39 # asc ''m wrong'', asc ''i am wrong'',
     asc ''i stand corrected'', asc ''correction'', asc ''corrected'', asc ''never mind'', asc ''nevermind'',
     asc ''scratch that'', asc ''disregard that'', asc ''i take that back'', asc ''withdrawn'']"

definition SED_CORRECTION :: re where
  "SED_CORRECTION = seq [Bound, lit ''s/'', many1 (Cls (\<lambda>c. c \<noteq> 47 \<and> c \<noteq> 10)), lit ''/'',
     many (Cls (\<lambda>c. c \<noteq> 47 \<and> c \<noteq> 10)), lit ''/'']"

definition isWordChar :: "int \<Rightarrow> bool" where
  "isWordChar c \<longleftrightarrow> is_digit c \<or> 97 \<le> c \<and> c \<le> 122"

text \<open>The first occurrence only: the character left of it and the text right of it.\<close>

fun first_occurrence :: "jstr \<Rightarrow> int \<Rightarrow> jstr \<Rightarrow> (int \<times> jstr) option" where
  "first_occurrence p left_char [] = (if p = [] then Some (left_char, []) else None)"
| "first_occurrence p left_char (c # s) =
     (if starts_with p (c # s) then Some (left_char, drop (length p) (c # s)) else first_occurrence p c s)"

definition containsPhrase :: "jstr \<Rightarrow> jstr \<Rightarrow> bool" where
  "containsPhrase normalized phrase = (case first_occurrence phrase 32 normalized of
     None \<Rightarrow> False
   | Some (left_char, rest) \<Rightarrow> \<not> isWordChar left_char \<and> \<not> isWordChar (case rest of [] \<Rightarrow> 32 | c # _ \<Rightarrow> c))"

datatype unscanned_why =
    NoStatementToScanFor | NoCitationInTheWindow | StatementTooLong | WindowEndsAtTheCitations
  | WindowCarriesFewerThanThisCheckReads | TooManyMessages | TooManySentences | TooManyTokensInASentence

datatype later_revision =
    Revision provenance_message "jstr list"
  | Unscanned unscanned_why
  | NoRevision nat

text \<open>One later sentence: does it restate the reading, change it, or neither?\<close>

fun scan_sentences :: "unicode \<Rightarrow> receipt_policy \<Rightarrow> jstr list \<Rightarrow> provenance_message \<Rightarrow> jstr list \<Rightarrow> bool \<Rightarrow>
    later_revision + bool" where
  "scan_sentences U P wanted m [] restated = Inr restated"
| "scan_sentences U P wanted m (s # ss) restated =
     (let a = alignTokens P (routingTokens U s) wanted in
      if undecidable a = Some TooLong then Inl (Unscanned TooManyTokensInASentence)
      else if undecidable a \<noteq> None then scan_sentences U P wanted m ss restated
      else if borne a then scan_sentences U P wanted m ss True
      else if unmatchedInStatement a = [] \<or> unmatchedInQuote a = [] then
        (let changed = (if unmatchedInQuote a \<noteq> [] then unmatchedInQuote a else unmatchedInStatement a)
         in Inl (Revision m (if changed \<noteq> [] then changed else [asc ''whitespace''])))
      else scan_sentences U P wanted m ss restated)"

text \<open>One later message; \<open>None\<close> when it leaves the reading alone.\<close>

definition message_revision ::
  "unicode \<Rightarrow> receipt_policy \<Rightarrow> jstr \<Rightarrow> jstr list \<Rightarrow> provenance_message \<Rightarrow> later_revision option" where
  "message_revision U P st wanted m =
     (let own = stripReplyBlockquotes (body m); normalized = normalizeForRouting U own in
      case filter (containsPhrase normalized) RETRACTION_MARKERS of
        marker # _ \<Rightarrow> Some (Revision m [marker])
      | [] \<Rightarrow>
        if test SED_CORRECTION normalized then Some (Revision m [asc ''s/'' @ 8230 # asc ''/'' @ 8230 # asc ''/''])
        else let sentences = sentencesOf own in
          if length sentences > maxScannedSentences P then Some (Unscanned TooManySentences)
          else (case scan_sentences U P wanted m sentences False of
            Inl r \<Rightarrow> Some r
          | Inr restated \<Rightarrow>
              if restated \<and> \<not> quoteCoversOwnText U st own then
                (let around = filter (\<lambda>s. \<not> borne (alignTokens P (routingTokens U s) wanted)) sentences;
                     added = concat (map (routingTokens U) around)
                 in Some (Revision m (if added \<noteq> [] then added else [asc ''surrounding text''])))
              else None))"

fun scan_messages ::
  "unicode \<Rightarrow> receipt_policy \<Rightarrow> jstr \<Rightarrow> jstr list \<Rightarrow> provenance_message list \<Rightarrow> later_revision option" where
  "scan_messages U P st wanted [] = None"
| "scan_messages U P st wanted (m # ms) = (case message_revision U P st wanted m of
     Some r \<Rightarrow> Some r | None \<Rightarrow> scan_messages U P st wanted ms)"

fun index_where :: "('a \<Rightarrow> bool) \<Rightarrow> 'a list \<Rightarrow> nat option" where
  "index_where p [] = None"
| "index_where p (x # xs) = (if p x then Some 0 else map_option Suc (index_where p xs))"

fun last_index_where :: "('a \<Rightarrow> bool) \<Rightarrow> 'a list \<Rightarrow> nat option" where
  "last_index_where p [] = None"
| "last_index_where p (x # xs) = (case last_index_where p xs of
     Some n \<Rightarrow> Some (Suc n) | None \<Rightarrow> if p x then Some 0 else None)"

definition laterRevision ::
  "unicode \<Rightarrow> receipt_policy \<Rightarrow> jstr \<Rightarrow> jstr list \<Rightarrow> provenance_message list \<Rightarrow> later_revision" where
  "laterRevision U P st citedIds ms =
     (let wanted = routingTokens U st; is_cited = (\<lambda>m. message_id m \<in> set citedIds) in
      if isBlank U (Some st) \<or> wanted = [] then Unscanned NoStatementToScanFor
      else if length wanted > maxAlignedTokens P then Unscanned StatementTooLong
      else (case (index_where is_cited ms, last_index_where is_cited ms) of
        (Some firstCited, Some lastCited) \<Rightarrow>
          (let normalizedStatement = normalizeForReceipt st;
               scanFloor = (case index_where (\<lambda>m. contains_text (normalizeForReceipt (stripReplyBlockquotes (body m)))
                   normalizedStatement) ms of
                 None \<Rightarrow> firstCited | Some e \<Rightarrow> min firstCited e);
               after = drop (Suc lastCited) ms;
               later = drop (Suc scanFloor) ms in
           if \<not> list_ex (\<lambda>m. \<not> is_cited m) after then Unscanned WindowEndsAtTheCitations
           else if length after \<ge> maxLaterMessagesCarried P \<and>
                   maxLaterMessagesCarried P \<le> maxLaterMessagesScanned P
             then Unscanned WindowCarriesFewerThanThisCheckReads
           else if length later > maxLaterMessagesScanned P then Unscanned TooManyMessages
           else (case scan_messages U P st wanted later of
             Some r \<Rightarrow> r | None \<Rightarrow> NoRevision (length later)))
      | _ \<Rightarrow> Unscanned NoCitationInTheWindow))"

section \<open>The receipt check\<close>

type_synonym finding = "problem_kind \<times> severity \<times> jstr option"

definition finding_if :: "bool \<Rightarrow> problem_kind \<Rightarrow> severity \<Rightarrow> jstr option \<Rightarrow> finding list" where
  "finding_if b k s m = (if b then [(k, s, m)] else [])"

text \<open>\<open>new Map(messages)\<close>: the last message with an id wins.\<close>

definition message_by_id :: "provenance_message list \<Rightarrow> jstr \<Rightarrow> provenance_message option" where
  "message_by_id ms i = List.find (\<lambda>m. message_id m = i) (rev ms)"

definition cited_messages :: "provenance_subject \<Rightarrow> provenance_message list \<Rightarrow> provenance_message list" where
  "cited_messages s ms = concat (map (\<lambda>i. case message_by_id ms i of None \<Rightarrow> [] | Some m \<Rightarrow> [m]) (subject_provenance s))"

definition subject_quote_text :: "unicode \<Rightarrow> provenance_subject \<Rightarrow> jstr" where
  "subject_quote_text U s = (if hasContent U (subject_quote s) then trim (the (subject_quote s)) else [])"

definition or_empty :: "jstr option \<Rightarrow> jstr" where
  "or_empty t = (case t of None \<Rightarrow> [] | Some s \<Rightarrow> s)"

text \<open>Where the quote is, and who can be said to have written it.\<close>

definition location_findings :: "jstr \<Rightarrow> provenance_message list \<Rightarrow> finding list" where
  "location_findings q cited =
     (let normalizedQuote = normalizeForReceipt q;
          inFullText = filter (\<lambda>m. contains_text (normalizeForReceipt (body m)) normalizedQuote) cited;
          inOwnText = bearingMessages q cited in
      (case inFullText of
         m # _ \<Rightarrow> finding_if (inOwnText = []) QuoteOnlyInReplyBlockquote Reject (Some (message_id m))
       | [] \<Rightarrow> [(if ELISION q then ElidedQuote else QuoteNotFound, Reject, None)]) @
      finding_if (length (dedup (map authorId inOwnText)) > 1) AmbiguousQuote Reject None)"

definition bearing_of :: "jstr \<Rightarrow> provenance_message list \<Rightarrow> provenance_message option" where
  "bearing_of q cited = (let inOwnText = bearingMessages q cited in
     if length (dedup (map authorId inOwnText)) > 1 then None
     else (case inOwnText of [] \<Rightarrow> None | m # _ \<Rightarrow> Some m))"

definition span_findings :: "unicode \<Rightarrow> receipt_policy \<Rightarrow> jstr \<Rightarrow> provenance_message option \<Rightarrow> finding list" where
  "span_findings U P q bearing = (case bearing of
     None \<Rightarrow> []
   | Some m \<Rightarrow> (let ownText = stripReplyBlockquotes (body m) in
       if length (sentencesOf ownText) > maxScannedSentences P
         then [(QuoteSpanUnscanned, Refer, Some (message_id m))]
       else if \<not> quoteSpansWholeSentences U P q ownText then [(QuoteIsAFragment, Refer, Some (message_id m))]
       else if \<not> quoteCoversOwnText U q (body m) then [(QuoteOmitsSurroundingText, Refer, Some (message_id m))]
       else []))"

definition revision_findings :: "unicode \<Rightarrow> receipt_policy \<Rightarrow> provenance_subject \<Rightarrow> provenance_message list \<Rightarrow> finding list" where
  "revision_findings U P s ms =
     (if \<not> hasContent U (statement s) then []
      else case laterRevision U P (or_empty (statement s)) (subject_provenance s) ms of
        Unscanned why \<Rightarrow> [(SupersededByLaterMessage, Refer, None)]
      | Revision m added \<Rightarrow> [(SupersededByLaterMessage, Refer, Some (message_id m))]
      | NoRevision n \<Rightarrow> [])"

definition mood_findings :: "provenance_subject \<Rightarrow> jstr option \<Rightarrow> finding list" where
  "mood_findings s bearing_id = (let text_of = normalizeForReceipt (or_empty (statement s)) in
     finding_if (subject_type s \<noteq> OpenQuestion \<and> \<not> isAssertion text_of) StatementIsNotAnAssertion Refer bearing_id @
     finding_if (subject_type s = OpenQuestion \<and> \<not> readsAsQuestion text_of) StatementIsNotAQuestion Refer bearing_id)"

definition structure_findings :: "jstr \<Rightarrow> jstr \<Rightarrow> jstr option \<Rightarrow> finding list" where
  "structure_findings authored_text st bearing_id =
     finding_if (addedLinkStructure authored_text st \<noteq> []) StatementAddsLinkStructure Reject bearing_id @
     finding_if (addedBlockStructure authored_text st \<noteq> []) StatementAddsBlockStructure Reject bearing_id"

text \<open>The bearing check; its last branch is the contradiction the source names.\<close>

definition bearing_findings :: "statement_bearing \<Rightarrow> jstr option \<Rightarrow> finding list" where
  "bearing_findings b bearing_id = (case undecidable b of
     Some u \<Rightarrow> [(StatementUncheckable, if u = TooLong then Refer else Reject, bearing_id)]
   | None \<Rightarrow>
       if borne b then []
       else if unmatchedInStatement b \<noteq> [] then [(QuoteDoesNotBearStatement, Reject, bearing_id)]
       else if unmatchedInQuote b \<noteq> [] then [(QuoteCarriesMoreThanStatement, Refer, bearing_id)]
       else if whitespaceDiffers b then [(StatementRespacesTheQuote, Reject, bearing_id)]
       else [(StatementUncheckable, Reject, bearing_id)])"

definition quote_findings ::
  "unicode \<Rightarrow> receipt_policy \<Rightarrow> bool \<Rightarrow> provenance_subject \<Rightarrow> provenance_message list \<Rightarrow> provenance_message list \<Rightarrow> finding list" where
  "quote_findings U P fromMachine s cited ms =
     (let q = subject_quote_text U s; bearing = bearing_of q cited;
          bearing_id = map_option message_id bearing; st = or_empty (statement s) in
      if normalizeForReceipt q = [] \<or> cited = [] then []
      else location_findings q cited @
        (if \<not> fromMachine then []
         else finding_if (js_length (normalizeForReceipt q) < minQuoteLength P) QuoteTooShort Reject bearing_id @
           span_findings U P q bearing @
           revision_findings U P s ms @
           mood_findings s bearing_id @
           structure_findings (case bearing of None \<Rightarrow> [] | Some m \<Rightarrow> body m) st bearing_id @
           bearing_findings (statementBearing U P q st) bearing_id))"

definition attribution_findings ::
  "unicode \<Rightarrow> bool \<Rightarrow> provenance_subject \<Rightarrow> provenance_message list \<Rightarrow> finding list" where
  "attribution_findings U fromMachine s cited = (case attributedTo s of
     None \<Rightarrow> []
   | Some who \<Rightarrow>
       if who = [] \<or> cited = [] \<or> ATTRIBUTION_FIELDS (subject_type s) = [] then []
       else let q = subject_quote_text U s;
                bearing = (if normalizeForReceipt q = [] then None else bearing_of q cited);
                supported = (case bearing of
                  Some m \<Rightarrow> authorId m = who
                | None \<Rightarrow> \<not> fromMachine \<and> list_ex (\<lambda>m. authorId m = who) cited) in
         finding_if (\<not> supported) AttributedPersonNotAuthor
           (if subject_type s = Commitment \<or> subject_type s = Decision then Reclassify else Reject)
           (map_option message_id bearing))"

definition provenance_findings ::
  "unicode \<Rightarrow> receipt_policy \<Rightarrow> provenance_subject \<Rightarrow> provenance_message list \<Rightarrow> finding list" where
  "provenance_findings U P s ms =
     (let fromMachine = proposerIsMachine (subject_proposer s); cited = cited_messages s ms in
      if subject_provenance s = [] then finding_if fromMachine NoProvenance Reject None
      else concat (map (\<lambda>i. finding_if (message_by_id ms i = None) UnknownMessage Refer (Some i)) (subject_provenance s)) @
        finding_if (fromMachine \<and> normalizeForReceipt (subject_quote_text U s) = []) MissingQuoteProblem Reject None @
        quote_findings U P fromMachine s cited ms @
        attribution_findings U fromMachine s cited)"

definition validateProposalProvenance ::
  "unicode \<Rightarrow> receipt_policy \<Rightarrow> provenance_subject \<Rightarrow> provenance_message list \<Rightarrow> problem list" where
  "validateProposalProvenance U P s ms =
     (let whole = list_all (\<lambda>i. message_by_id ms i \<noteq> None) (subject_provenance s) in
      map (\<lambda>(k, sev, m). \<lparr>problem_kind = k, severity = sev, problem_messageId = m, about = problemSubject k whole\<rparr>)
        (provenance_findings U P s ms))"

section \<open>Severities\<close>

definition rejectingProblems :: "problem list \<Rightarrow> problem list" where
  "rejectingProblems ps = filter (\<lambda>p. severity p = Reject) ps"

definition referringProblems :: "problem list \<Rightarrow> problem list" where
  "referringProblems ps = filter (\<lambda>p. severity p = Refer) ps"

definition blockingProblems :: "problem list \<Rightarrow> problem list" where
  "blockingProblems ps = filter (\<lambda>p. severity p \<noteq> Reclassify) ps"

definition provenanceIsClean :: "problem list \<Rightarrow> bool" where
  "provenanceIsClean ps \<longleftrightarrow> ps = []"

definition isAboutTheWindow :: "problem list \<Rightarrow> bool" where
  "isAboutTheWindow ps \<longleftrightarrow> list_ex (\<lambda>p. about p = TheWindow) ps"

lemma severity_partition:
  "blockingProblems ps = [] \<longleftrightarrow> rejectingProblems ps = [] \<and> referringProblems ps = []"
proof -
  have "severity p \<noteq> Reclassify \<longleftrightarrow> severity p = Reject \<or> severity p = Refer" for p :: problem
    by (cases "severity p") auto
  then show ?thesis
    by (auto simp: blockingProblems_def rejectingProblems_def referringProblems_def filter_empty_conv)
qed

end
