(* ===== verification/Authority.thy ===== *)
theory Authority
  imports Escalation
begin

text \<open>
  \<open>authority.ts\<close> and \<open>epistemic.ts\<close>: who may do what to the record.  Each gate returns the
  refusal, or \<open>None\<close> to let the act through, as in the source.
\<close>

section \<open>Human-only gates\<close>

fun modelMintingGate :: "accepted_type \<Rightarrow> human_only_gate option" where
  "modelMintingGate Decision = Some DecisionAcceptance"
| "modelMintingGate Commitment = Some CommitmentAcceptance"
| "modelMintingGate Objective = Some ObjectiveAcceptance"
| "modelMintingGate Claim = None"
| "modelMintingGate OpenQuestion = None"

fun isHuman :: "actor \<Rightarrow> bool" where
  "isHuman (Human u) = True"
| "isHuman (Agent u) = False"
| "isHuman (Model m) = False"
| "isHuman System = False"

definition humanOnlyRefusal :: "human_only_gate \<Rightarrow> actor \<Rightarrow> jstr \<Rightarrow> accepted_type option \<Rightarrow> reason" where
  "humanOnlyRefusal g a subject retiredType = Authority (HumanOnly g a subject retiredType)"

section \<open>Binding an act to the proposal it cites\<close>

fun actorMatchesProposer :: "actor \<Rightarrow> proposer \<Rightarrow> bool" where
  "actorMatchesProposer (Human u) p = True"
| "actorMatchesProposer (Model m) p = (p = ByModel m)"
| "actorMatchesProposer (Agent u) p = (p = ByAgent u)"
| "actorMatchesProposer System p = False"

definition proposalBindingRefusal :: "binding_gate \<Rightarrow> actor \<Rightarrow> proposer \<Rightarrow> jstr \<Rightarrow> reason" where
  "proposalBindingRefusal g a p i = Authority (ProposalBindingRefused g a p i)"

section \<open>Names on sentences\<close>

text \<open>Is this user somebody other than the (human) actor?\<close>

definition isForeign :: "actor \<Rightarrow> jstr \<Rightarrow> bool" where
  "isForeign a u \<longleftrightarrow> a \<noteq> Human u"

definition selfStagedReadingRefusal ::
  "actor \<Rightarrow> jstr option \<Rightarrow> proposer option \<Rightarrow> actor \<Rightarrow> jstr list \<Rightarrow> reason option" where
  "selfStagedReadingRefusal a pid prop staged attributed = (case a of
     Human u \<Rightarrow>
       if staged \<noteq> Human u then None
       else (case prop of
         Some p \<Rightarrow> if proposerIsMachine p then Some (Authority (SelfStagedMachineReading a pid p))
                  else (case filter (\<lambda>v. v \<noteq> u) attributed of
                          [] \<Rightarrow> None | n # _ \<Rightarrow> Some (Authority (SelfStagedForeignName a pid n)))
       | None \<Rightarrow> (case filter (\<lambda>v. v \<noteq> u) attributed of
                   [] \<Rightarrow> None | n # _ \<Rightarrow> Some (Authority (SelfStagedForeignName a pid n))))
   | _ \<Rightarrow> None)"

definition correctionAttributionRefusal ::
  "actor \<Rightarrow> jstr \<Rightarrow> correction_action \<Rightarrow> accepted_object \<Rightarrow> accepted_object \<Rightarrow> reason option" where
  "correctionAttributionRefusal a oid action prior after =
     (let namedBefore = attributions (object_payload prior);
          namedAfter = attributions (object_payload after)
      in case filter (isForeign a) (filter (\<lambda>u. u \<notin> set namedBefore) namedAfter) of
           gained # _ \<Rightarrow> Some (Authority (CorrectionPutsName a action oid gained))
         | [] \<Rightarrow> if objectStatement after = objectStatement prior then None
                else (case filter (isForeign a) namedAfter of
                  [] \<Rightarrow> None | quoted # _ \<Rightarrow> Some (Authority (CorrectionRewords a action oid quoted))))"

definition selfVerificationRefusal :: "actor \<Rightarrow> jstr \<Rightarrow> actor option \<Rightarrow> reason option" where
  "selfVerificationRefusal a claimant staged = (case a of
     Human u \<Rightarrow>
       if u = claimant then Some (Authority (VerifiesOwnClaim a))
       else if staged = Some (Human u) then Some (Authority (VerifiesOwnStaging a))
       else None
   | _ \<Rightarrow> None)"

definition ownerConfirmRefusal :: "actor \<Rightarrow> jstr \<Rightarrow> reason option" where
  "ownerConfirmRefusal a w = (case a of
     Human u \<Rightarrow> if u = w then None else Some (Authority (CommitmentOwnedByOther a w))
   | _ \<Rightarrow> None)"

fun verified_claim :: "payload \<Rightarrow> bool" where
  "verified_claim (ClaimPayload s c v) = (v = Verified)"
| "verified_claim _ = False"

definition retractVerifiedClaimRefusal :: "actor \<Rightarrow> accepted_object \<Rightarrow> reason option" where
  "retractVerifiedClaimRefusal a ob =
     (if \<not> isHuman a then None
      else if verified_claim (object_payload ob) then Some (Authority (RetractsVerifiedClaim a))
      else None)"

definition acceptanceAttributionRefusal ::
  "actor \<Rightarrow> jstr \<Rightarrow> jstr \<Rightarrow> accepted_object \<Rightarrow> accepted_object \<Rightarrow> reason option" where
  "acceptanceAttributionRefusal a oid pid staged ob =
     (if \<not> isHuman a then None else
      let namedStaged = attributions (object_payload staged);
          namedMinted = attributions (object_payload ob)
      in case filter (isForeign a) (filter (\<lambda>u. u \<notin> set namedStaged) namedMinted) of
           gained # _ \<Rightarrow> Some (Authority (AcceptancePutsName a pid oid gained))
         | [] \<Rightarrow> if objectStatement ob = objectStatement staged then None
                else (case filter (isForeign a) namedMinted of
                  [] \<Rightarrow> None | quoted # _ \<Rightarrow> Some (Authority (AcceptanceRewords a pid oid quoted))))"

definition confidenceFloorRefusal :: "actor \<Rightarrow> accepted_type \<Rightarrow> jstr \<Rightarrow> rat \<Rightarrow> reason" where
  "confidenceFloorRefusal a ty pid x = Authority (BelowConfidenceFloor a ty pid x)"

definition uncertifiedTypeRefusal :: "actor \<Rightarrow> accepted_type \<Rightarrow> jstr \<Rightarrow> reason" where
  "uncertifiedTypeRefusal a ty subject = Authority (UncertifiedType a ty subject)"

section \<open>The receipt of a machine's acceptance\<close>

fun receipt_attributedTo :: "payload \<Rightarrow> jstr option" where
  "receipt_attributedTo (ClaimPayload s c v) = Some c"
| "receipt_attributedTo (CommitmentPayload s w d st) = Some w"
| "receipt_attributedTo _ = None"

definition receipt_subject :: "stored_proposal \<Rightarrow> accepted_object \<Rightarrow> provenance_subject" where
  "receipt_subject p ob = \<lparr>subject_type = proposal_type p, subject_provenance = cites p,
     subject_quote = quote p, subject_proposer = proposer p,
     attributedTo = receipt_attributedTo (object_payload ob),
     statement = Some (objectStatement ob)\<rparr>"

definition window_has_content :: "unicode \<Rightarrow> provenance_message list option \<Rightarrow> bool" where
  "window_has_content U ms = (case ms of None \<Rightarrow> False
     | Some w \<Rightarrow> list_ex (\<lambda>m. hasContent U (Some (body m))) w)"

definition acceptanceReceiptRefusal ::
  "unicode \<Rightarrow> actor \<Rightarrow> jstr \<Rightarrow> stored_proposal \<Rightarrow> accepted_object \<Rightarrow> provenance_message list option \<Rightarrow>
   receipt_gate option" where
  "acceptanceReceiptRefusal U a pid p ob window =
     (if canonicalJson (payload_json (object_payload ob)) \<noteq> canonicalJson (payload_json (proposal_payload p))
        then Some PayloadBinding
      else if sort (messageIds (object_provenance ob)) \<noteq> sort (cites p) then Some ProvenanceBinding
      else if \<not> window_has_content U window then Some MissingReceiptContext
      else if isBlank U (quote p) then Some MissingQuote
      else let problems = validateProposalProvenance U RECEIPT_POLICY (receipt_subject p ob) (the window) in
        if rejectingProblems problems \<noteq> [] then Some ReceiptFailed
        else if referringProblems problems \<noteq> [] then Some ReceiptNotCertifiable
        else if list_ex (\<lambda>q. problem_kind q = AttributedPersonNotAuthor) problems
          then Some ThirdPartyConfirm
        else None)"

section \<open>Epistemic state\<close>

datatype epistemic_state = Unconfirmed | Confirmed

definition epistemicStateOf :: "object_record \<Rightarrow> epistemic_state" where
  "epistemicStateOf r = (if isHuman (acceptedBy r) \<or> humanTouchedAt r \<noteq> None then Confirmed else Unconfirmed)"

text \<open>\<open>confirmedAt\<close>: when the record became a person's word, if it has.\<close>

definition confirmedAt :: "object_record \<Rightarrow> jstr option" where
  "confirmedAt r = (if isHuman (acceptedBy r) then Some (acceptedAt r) else humanTouchedAt r)"

section \<open>Facts about the gates\<close>

lemma isHuman_iff: "isHuman a \<longleftrightarrow> (\<exists>u. a = Human u)"
  by (cases a) auto

lemma isForeign_Human [simp]: "isForeign (Human u) v \<longleftrightarrow> v \<noteq> u"
  by (auto simp: isForeign_def)

lemma first_match_None:
  "(case filter P xs of [] \<Rightarrow> None | y # _ \<Rightarrow> Some (f y)) = None \<longleftrightarrow> (\<forall>x \<in> set xs. \<not> P x)"
proof (cases "filter P xs")
  case (Cons y ys)
  then have "y \<in> set xs \<and> P y" by (auto simp: filter_eq_Cons_iff)
  with Cons show ?thesis by auto
qed (auto simp: filter_empty_conv)

lemma name_gate_None:
  "(case filter P xs of y # _ \<Rightarrow> Some (f y) | [] \<Rightarrow> if b then None else r) = None \<longleftrightarrow>
     (\<forall>x \<in> set xs. \<not> P x) \<and> (b \<or> r = None)"
proof (cases "filter P xs")
  case (Cons y ys)
  then have "y \<in> set xs \<and> P y" by (auto simp: filter_eq_Cons_iff)
  with Cons show ?thesis by auto
qed (auto simp: filter_empty_conv)

lemma ownerConfirm_None: "ownerConfirmRefusal (Human u) w = None \<longleftrightarrow> u = w"
  by (simp add: ownerConfirmRefusal_def)

lemma selfVerification_None:
  "selfVerificationRefusal (Human u) c staged = None \<longleftrightarrow> u \<noteq> c \<and> staged \<noteq> Some (Human u)"
  by (simp add: selfVerificationRefusal_def)

text \<open>
  The attribution rule, as a statement about names: a correction by \<open>u\<close> adds nobody's name but
  \<open>u\<close>'s, and rewords only a sentence that names nobody but \<open>u\<close>.
\<close>

lemma correctionAttribution_None:
  "correctionAttributionRefusal (Human u) oid act prior after = None \<longleftrightarrow>
     set (attributions (object_payload after)) \<subseteq> insert u (set (attributions (object_payload prior))) \<and>
     (objectStatement after \<noteq> objectStatement prior \<longrightarrow>
        set (attributions (object_payload after)) \<subseteq> {u})"
  unfolding correctionAttributionRefusal_def Let_def name_gate_None first_match_None by auto

lemma acceptanceAttribution_None:
  "acceptanceAttributionRefusal (Human u) oid pid staged ob = None \<longleftrightarrow>
     set (attributions (object_payload ob)) \<subseteq> insert u (set (attributions (object_payload staged))) \<and>
     (objectStatement ob \<noteq> objectStatement staged \<longrightarrow>
        set (attributions (object_payload ob)) \<subseteq> {u})"
  unfolding acceptanceAttributionRefusal_def Let_def isHuman.simps not_True_eq_False if_False
    name_gate_None first_match_None by auto

lemma modelMintingGate_None: "modelMintingGate ty = None \<longleftrightarrow> ty = Claim \<or> ty = OpenQuestion"
  by (cases ty) auto

end
