(* ===== verification/Reduce_Accept.thy ===== *)
theory Reduce_Accept
  imports Authority
begin

text \<open>
  \<open>reduce.ts\<close>, the proposal and acceptance handlers.  A handler of the source
  mutates the state it is given and returns whether the event applied; here it returns the new
  state with that flag.  A mutated record is written back with \<open>put\<close>, and a refusal appends an
  issue (\<open>fail\<close>) and changes nothing else.
\<close>

type_synonym step = "core_state \<times> bool"

definition fail :: "core_state \<Rightarrow> jstr \<Rightarrow> reason \<Rightarrow> core_state" where
  "fail s i r = s\<lparr>issues := issues s @ [(i, r)]\<rparr>"

definition refuse :: "core_state \<Rightarrow> jstr \<Rightarrow> reason \<Rightarrow> step" where
  "refuse s i r = (fail s i r, False)"

section \<open>Proposals\<close>

definition applyProposalRecorded :: "core_state \<Rightarrow> jstr \<Rightarrow> proposal \<Rightarrow> actor \<Rightarrow> step" where
  "applyProposalRecorded s eid p a =
     (if get (proposals s) (proposal_id p) \<noteq> None
        then refuse s eid (ProposalFault (ProposalAlreadyRecorded (proposal_id p)))
      else let
        s' = (if wire_status p \<noteq> Proposed
              then fail s eid (ProposalFault (ForcedToProposed (proposal_id p) (wire_status p))) else s);
        r = \<lparr>proposal = storeProposal p, stagedBy = a, status = Proposed, acceptedObjectId = None,
             rejectedReason = None, supersededByProposalId = None, supersededReason = None\<rparr>
      in (s'\<lparr>proposals := put (proposal_id p) r (proposals s')\<rparr>, True))"

definition applyProposalRejected :: "core_state \<Rightarrow> jstr \<Rightarrow> jstr \<Rightarrow> jstr option \<Rightarrow> actor \<Rightarrow> step" where
  "applyProposalRejected s eid pid why a = (case get (proposals s) pid of
     None \<Rightarrow> refuse s eid (ProposalFault (UnknownProposal pid))
   | Some r \<Rightarrow>
       if \<not> actorMatchesProposer a (proposer (proposal r))
         then refuse s eid (proposalBindingRefusal RejectionBinding a (proposer (proposal r)) pid)
       else if status r = Accepted then refuse s eid (ProposalFault (ProposalAlready pid Accepted))
       else if status r = Rejected then refuse s eid (ProposalFault (ProposalAlready pid Rejected))
       else if status r = SupersededReading
         then refuse s eid (ProposalFault (ProposalAlready pid SupersededReading))
       else (s\<lparr>proposals := put pid (r\<lparr>status := Rejected, rejectedReason := why\<rparr>) (proposals s)\<rparr>, True))"

definition replacement_refusal :: "core_state \<Rightarrow> jstr \<Rightarrow> proposal_record \<Rightarrow> jstr option \<Rightarrow> reason option" where
  "replacement_refusal s pid r byId = (case byId of
     None \<Rightarrow> None
   | Some b \<Rightarrow>
       if b = pid then Some (ProposalFault (ProposalSupersedesItself pid))
       else (case get (proposals s) b of
         None \<Rightarrow> Some (ProposalFault (SupersededByUnknownProposal pid b))
       | Some q \<Rightarrow> if proposal_roomId (proposal q) \<noteq> proposal_roomId (proposal r)
           then Some (ProposalFault (ReplacementCrossesRooms b (proposal_roomId (proposal q))
                  (proposal_roomId (proposal r))))
           else None))"

definition applyProposalSuperseded ::
  "core_state \<Rightarrow> jstr \<Rightarrow> jstr \<Rightarrow> jstr option \<Rightarrow> jstr option \<Rightarrow> actor \<Rightarrow> step" where
  "applyProposalSuperseded s eid pid byId why a = (case get (proposals s) pid of
     None \<Rightarrow> refuse s eid (ProposalFault (UnknownProposal pid))
   | Some r \<Rightarrow>
       if \<not> actorMatchesProposer a (proposer (proposal r))
         then refuse s eid (proposalBindingRefusal SupersessionBinding a (proposer (proposal r)) pid)
       else if status r \<noteq> Proposed then refuse s eid (ProposalFault (ProposalAlready pid (status r)))
       else (case replacement_refusal s pid r byId of
         Some why' \<Rightarrow> refuse s eid why'
       | None \<Rightarrow> (s\<lparr>proposals := put pid (r\<lparr>status := SupersededReading, supersededByProposalId := byId,
                    supersededReason := why\<rparr>) (proposals s)\<rparr>, True)))"

section \<open>Acceptance\<close>

text \<open>The authority floor: what an actor of this kind may mint at all.\<close>

definition acceptance_floor_refusal :: "core_state \<Rightarrow> accepted_object \<Rightarrow> actor \<Rightarrow> reason option" where
  "acceptance_floor_refusal s ob a = first_refusal
     [refuse_if (get (objects s) (object_id ob) \<noteq> None)
        (AcceptanceFault (ObjectAlreadyAccepted (object_id ob))),
      (case modelMintingGate (object_type ob) of
         Some g \<Rightarrow> refuse_if (\<not> isHuman a) (humanOnlyRefusal g a (object_id ob) None)
       | None \<Rightarrow> None),
      refuse_if (verified_claim (object_payload ob) \<and> \<not> isHuman a)
        (humanOnlyRefusal ClaimVerification a (object_id ob) None),
      refuse_if (proposalId (object_provenance ob) = None \<and> \<not> isHuman a)
        (humanOnlyRefusal DirectAcceptance a (object_id ob) None)]"

text \<open>The proposal an acceptance cites, when it cites one and the proposal exists.\<close>

definition cited_proposal :: "core_state \<Rightarrow> accepted_object \<Rightarrow> proposal_record option" where
  "cited_proposal s ob = Option.bind (proposalId (object_provenance ob)) (get (proposals s))"

definition citation_refusal :: "core_state \<Rightarrow> accepted_object \<Rightarrow> actor \<Rightarrow> reason option" where
  "citation_refusal s ob a = (case proposalId (object_provenance ob) of
     None \<Rightarrow> None
   | Some pid \<Rightarrow> (case get (proposals s) pid of
       None \<Rightarrow> Some (AcceptanceFault (CitesUnknownProposal (object_id ob) pid))
     | Some r \<Rightarrow> first_refusal
         [refuse_if (status r = Rejected) (AcceptanceFault (ProposalAlreadyRejected pid)),
          refuse_if (status r = Accepted \<or> acceptedObjectId r \<noteq> None)
            (AcceptanceFault (ProposalAlreadyAcceptedAs pid (acceptedObjectId r))),
          refuse_if (status r = SupersededReading)
            (AcceptanceFault (ProposalAlreadySupersededBy pid (supersededByProposalId r))),
          refuse_if (\<not> actorMatchesProposer a (proposer (proposal r)))
            (proposalBindingRefusal AcceptanceBinding a (proposer (proposal r)) pid),
          refuse_if (proposal_type (proposal r) \<noteq> object_type ob)
            (AcceptanceFault (ProposalTypeMismatch pid (proposal_type (proposal r)) (object_type ob))),
          refuse_if (proposal_roomId (proposal r) \<noteq> object_roomId ob)
            (AcceptanceFault (ProposalRoomMismatch pid (proposal_roomId (proposal r)) (object_roomId ob)))]))"

text \<open>A machine's acceptance: the receipt, the confidence floor, the type the text certifies.\<close>

definition machine_refusal ::
  "unicode \<Rightarrow> core_state \<Rightarrow> accepted_object \<Rightarrow> actor \<Rightarrow> provenance_message list option \<Rightarrow> reason option" where
  "machine_refusal U s ob a ms = (case (proposalId (object_provenance ob), cited_proposal s ob) of
     (Some pid, Some r) \<Rightarrow>
       if isHuman a then None
       else (case acceptanceReceiptRefusal U a pid (proposal r) ob ms of
         Some g \<Rightarrow> Some (Authority (ReceiptRefused g a pid))
       | None \<Rightarrow>
           if below_floor (confidence (proposal r)) (MODEL_ACCEPTANCE_FLOOR (object_type ob))
             then Some (confidenceFloorRefusal a (object_type ob) pid (confidence (proposal r)))
           else if \<not> typeCertifiableFromText U (object_type ob)
                       (normalizeForReceipt (payloadText (object_type ob) (payload_fields (object_payload ob))))
             then Some (uncertifiedTypeRefusal a (object_type ob) (object_id ob))
           else None)
   | _ \<Rightarrow> None)"

text \<open>What a person may accept: no self-staged reading, no self-verification, no one else's promise.\<close>

definition person_refusal :: "core_state \<Rightarrow> accepted_object \<Rightarrow> actor \<Rightarrow> reason option" where
  "person_refusal s ob a =
     (let cited = cited_proposal s ob;
          staged = (case cited of Some r \<Rightarrow> stagedBy r | None \<Rightarrow> a)
      in first_refusal
       [selfStagedReadingRefusal a (proposalId (object_provenance ob))
          (map_option (\<lambda>r. proposer (proposal r)) cited) staged (attributions (object_payload ob)),
        (case object_payload ob of
           ClaimPayload st claimant v \<Rightarrow>
             if v = Verified \<and> isHuman a then selfVerificationRefusal a claimant (Some staged) else None
         | CommitmentPayload st w d cs \<Rightarrow> if isHuman a then ownerConfirmRefusal a w else None
         | _ \<Rightarrow> None),
        (case (proposalId (object_provenance ob), cited) of
           (Some pid, Some r) \<Rightarrow>
             if isHuman a then acceptanceAttributionRefusal a (object_id ob) pid
               (ob\<lparr>object_payload := proposal_payload (proposal r)\<rparr>) ob
             else None
         | _ \<Rightarrow> None)])"

definition objective_refusal :: "core_state \<Rightarrow> accepted_object \<Rightarrow> reason option" where
  "objective_refusal s ob = (case object_objectiveId ob of
     None \<Rightarrow> None
   | Some oid \<Rightarrow> (case get (objects s) oid of
       None \<Rightarrow> Some (AcceptanceFault (ObjectiveMissing (object_id ob) oid))
     | Some r \<Rightarrow>
         if object_type (object r) \<noteq> Objective
           then Some (AcceptanceFault (ObjectiveWrongType (object_id ob) oid (object_type (object r))))
         else if object_roomId (object r) \<noteq> object_roomId ob
           then Some (AcceptanceFault (ObjectiveOtherRoom (object_id ob) oid))
         else None))"

definition acceptance_refusal ::
  "unicode \<Rightarrow> core_state \<Rightarrow> accepted_object \<Rightarrow> actor \<Rightarrow> provenance_message list option \<Rightarrow> reason option" where
  "acceptance_refusal U s ob a ms = first_refusal
     [acceptance_floor_refusal s ob a, citation_refusal s ob a, machine_refusal U s ob a ms,
      person_refusal s ob a, objective_refusal s ob]"

definition accepted_record :: "jstr \<Rightarrow> accepted_object \<Rightarrow> actor \<Rightarrow> object_record" where
  "accepted_record t ob a = \<lparr>object = ob, acceptedAt = t, record_updatedAt = t, acceptedBy = a,
     humanTouchedAt = (if isHuman a then Some t else None), revision = 0, retractedAt = None,
     supersededById = None, reopenedFromAnswers = []\<rparr>"

definition mark_accepted :: "core_state \<Rightarrow> accepted_object \<Rightarrow> core_state" where
  "mark_accepted s ob = (case (proposalId (object_provenance ob), cited_proposal s ob) of
     (Some pid, Some r) \<Rightarrow> s\<lparr>proposals := put pid (r\<lparr>status := Accepted,
        acceptedObjectId := Some (object_id ob)\<rparr>) (proposals s)\<rparr>
   | _ \<Rightarrow> s)"

definition applyObjectAccepted ::
  "unicode \<Rightarrow> core_state \<Rightarrow> jstr \<Rightarrow> jstr \<Rightarrow> accepted_object \<Rightarrow> actor \<Rightarrow> provenance_message list option \<Rightarrow> step" where
  "applyObjectAccepted U s eid t ob a ms = (case acceptance_refusal U s ob a ms of
     Some r \<Rightarrow> refuse s eid r
   | None \<Rightarrow> (mark_accepted (s\<lparr>objects := put (object_id ob) (accepted_record t ob a) (objects s)\<rparr>) ob, True))"

end
