(* ===== verification/Reduce_Correct.thy ===== *)
theory Reduce_Correct
  imports Reduce_Accept
begin

text \<open>
  \<open>reduce.ts\<close>, the correction handler: a planner per verb that decides what the correction would
  do, the gates on the plan, and the one function that commits it; with the supersession
  bookkeeping that \<open>retract\<close> and \<open>restore\<close> run after the commit.
\<close>

section \<open>Supersession bookkeeping\<close>

definition setSuperseded :: "object_record \<Rightarrow> jstr option \<Rightarrow> jstr \<Rightarrow> object_record" where
  "setSuperseded r by_id t =
     (let r' = r\<lparr>supersededById := by_id, record_updatedAt := t\<rparr>
      in case object_payload (object r) of
        DecisionPayload st d _ \<Rightarrow> r'\<lparr>object := (object r)\<lparr>
            object_payload := DecisionPayload st d (if by_id = None then Active else Superseded),
            object_updatedAt := t\<rparr>\<rparr>
      | _ \<Rightarrow> r')"

definition supersessionEdges :: "core_state \<Rightarrow> jstr \<Rightarrow> relation list" where
  "supersessionEdges s supersederId = filter (\<lambda>r. relation_kind r = Supersedes \<and>
     fromObjectId r = supersederId \<and> isObjectTarget (relation_to r)) (relations s)"

definition supersedersOf :: "core_state \<Rightarrow> jstr \<Rightarrow> jstr list" where
  "supersedersOf s targetId = map fromObjectId
     (filter (\<lambda>r. relation_kind r = Supersedes \<and> relation_to r = ToObject targetId) (relations s))"

definition live_superseder :: "core_state \<Rightarrow> jstr \<Rightarrow> jstr \<Rightarrow> bool" where
  "live_superseder s supersederId i \<longleftrightarrow> i \<noteq> supersederId \<and>
     (case get (objects s) i of Some r \<Rightarrow> retractedAt r = None | None \<Rightarrow> False)"

fun release_edges :: "jstr \<Rightarrow> jstr \<Rightarrow> relation list \<Rightarrow> core_state \<Rightarrow> core_state" where
  "release_edges supersederId t [] s = s"
| "release_edges supersederId t (e # es) s = release_edges supersederId t es
     (case relation_to e of
        ToObject tid \<Rightarrow> (case get (objects s) tid of
          Some target \<Rightarrow>
            if supersededById target \<noteq> Some supersederId then s
            else s\<lparr>objects := put tid (setSuperseded target
                    (List.find (live_superseder s supersederId) (supersedersOf s (object_id (object target)))) t)
                    (objects s)\<rparr>
        | None \<Rightarrow> s)
      | _ \<Rightarrow> s)"

definition releaseSupersessions :: "core_state \<Rightarrow> jstr \<Rightarrow> jstr \<Rightarrow> core_state" where
  "releaseSupersessions s supersederId t = release_edges supersederId t (supersessionEdges s supersederId) s"

fun reapply_edges :: "jstr \<Rightarrow> jstr \<Rightarrow> relation list \<Rightarrow> core_state \<Rightarrow> core_state" where
  "reapply_edges supersederId t [] s = s"
| "reapply_edges supersederId t (e # es) s = reapply_edges supersederId t es
     (case relation_to e of
        ToObject tid \<Rightarrow> (case get (objects s) tid of
          Some target \<Rightarrow>
            if supersededById target \<noteq> None then s
            else s\<lparr>objects := put tid (setSuperseded target (Some supersederId) t) (objects s)\<rparr>
        | None \<Rightarrow> s)
      | _ \<Rightarrow> s)"

definition reapplySupersessions :: "core_state \<Rightarrow> jstr \<Rightarrow> jstr \<Rightarrow> core_state" where
  "reapplySupersessions s supersederId t = reapply_edges supersederId t (supersessionEdges s supersederId) s"

lemma unseen_decreases:
  assumes "get os c \<noteq> None" and "c \<notin> set seen"
  shows "card (set (keys os) - insert c (set seen)) < card (set (keys os) - set seen)"
proof (rule psubset_card_mono)
  show "set (keys os) - insert c (set seen) \<subset> set (keys os) - set seen"
    using assms keys_get [of c os] by blast
qed simp

text \<open>
  The walk up the supersession chain.  It stops at the target, at an object met before, or at the
  end of the chain; every step that continues adds a stored object to \<open>seen\<close>, so it terminates.
\<close>

function supersession_walk :: "object_record store \<Rightarrow> jstr \<Rightarrow> jstr list \<Rightarrow> jstr \<Rightarrow> bool" where
  "supersession_walk os targetId seen c =
     (if c = targetId then True
      else if c \<in> set seen then True
      else case Option.bind (get os c) supersededById of
        None \<Rightarrow> False
      | Some c' \<Rightarrow> supersession_walk os targetId (c # seen) c')"
  by pat_completeness auto

termination supersession_walk
  by (relation "measure (\<lambda>(os, t, seen, c). card (set (keys os) - set seen))")
     (auto simp: bind_eq_Some_conv intro!: unseen_decreases)

declare supersession_walk.simps [simp del]

definition supersessionWouldCycle :: "core_state \<Rightarrow> jstr \<Rightarrow> jstr \<Rightarrow> bool" where
  "supersessionWouldCycle s fromId targetId = supersession_walk (objects s) targetId [] fromId"

section \<open>Plans\<close>

datatype after_commit =
    NoEffect
  | ReleaseSupersessions
  | ReapplySupersessions
  | RememberAnswers "jstr list"

record correction_plan =
  plan_object :: accepted_object
  plan_before :: snapshot
  plan_after :: snapshot
  plan_retractedAt :: "jstr option option"
  afterCommit :: after_commit

datatype correction_outcome = Planned correction_plan | Refused reason | Noop reason

definition edit_plan :: "accepted_object \<Rightarrow> snapshot \<Rightarrow> snapshot \<Rightarrow> correction_plan" where
  "edit_plan ob b a = \<lparr>plan_object = ob, plan_before = b, plan_after = a, plan_retractedAt = None,
     afterCommit = NoEffect\<rparr>"

section \<open>amend and reattribute\<close>

text \<open>\<open>applyPayloadPatch\<close> and \<open>finish\<close>: merge the patch over the payload and parse the result again.\<close>

definition applyPayloadPatch :: "accepted_object \<Rightarrow> fields \<Rightarrow> accepted_object option" where
  "applyPayloadPatch ob p = map_option (\<lambda>q. ob\<lparr>object_payload := q\<rparr>)
     (objectPayloadByType (object_type ob) (p @ payload_fields (object_payload ob)))"

definition edit_verb_refusal :: "correction_event \<Rightarrow> object_record \<Rightarrow> reason option" where
  "edit_verb_refusal e r = (let attributionField = ATTRIBUTION_FIELD (object_type (object r)) in
     if corrected_action e = Reattribute then
       (case attributionField of
          None \<Rightarrow> Some (CorrectionFault (NoAttributionField (object_type (object r))))
        | Some f \<Rightarrow>
            if patch e = [] then Some (CorrectionFault (ReattributeEmpty (corrected_objectId e)))
            else let strays = filter (\<lambda>k. k \<noteq> asc f) (map fst (patch e)) in
              if strays \<noteq> [] then Some (CorrectionFault (ReattributeStrays (corrected_objectId e) strays))
              else None)
     else (case attributionField of
          None \<Rightarrow> None
        | Some f \<Rightarrow> refuse_if (field (patch e) f \<noteq> None)
            (CorrectionFault (AmendTouchesAttribution (corrected_objectId e)))))"

definition planPayloadEdit :: "correction_event \<Rightarrow> object_record \<Rightarrow> correction_outcome" where
  "planPayloadEdit e r = (case edit_verb_refusal e r of
     Some why \<Rightarrow> Refused why
   | None \<Rightarrow> (case applyPayloadPatch (object r) (patch e) of
       None \<Rightarrow> Refused (CorrectionFault (InvalidPatch (corrected_action e) (corrected_objectId e)))
     | Some ob \<Rightarrow>
         if canonicalJson (payload_json (object_payload ob)) =
            canonicalJson (payload_json (object_payload (object r)))
           then Noop (CorrectionFault (ChangedNothing (corrected_action e) (corrected_objectId e)))
         else Planned (edit_plan (ob\<lparr>object_updatedAt := corrected_at e\<rparr>)
                (SPayload (object_payload (object r))) (SPayload (object_payload ob)))))"

section \<open>retype\<close>

definition retypeCarryOver :: "accepted_object \<Rightarrow> accepted_type \<Rightarrow> fields" where
  "retypeCarryOver from_ob to_type =
     (let fs = payload_fields (object_payload from_ob);
          text_part = (case field fs (TEXT_FIELD (object_type from_ob)) of
            Some (JStr s) \<Rightarrow> [(asc (TEXT_FIELD to_type), JStr s)] | _ \<Rightarrow> []);
          name_part = (case (ATTRIBUTION_FIELD (object_type from_ob), ATTRIBUTION_FIELD to_type) of
            (Some f, Some g) \<Rightarrow> (case field fs f of
               Some (JStr held) \<Rightarrow> if held \<noteq> [] then [(asc g, JStr held)] else [] | _ \<Rightarrow> [])
          | _ \<Rightarrow> [])
      in text_part @ name_part)"

definition liveAnswers :: "core_state \<Rightarrow> relation list" where
  "liveAnswers s = filter (\<lambda>r. relation_kind r = Answers \<and>
     \<not> (case get (objects s) (fromObjectId r) of
          Some q \<Rightarrow> relation_id r \<in> set (reopenedFromAnswers q) | None \<Rightarrow> False)) (relations s)"

definition filed_under :: "core_state \<Rightarrow> jstr \<Rightarrow> jstr list" where
  "filed_under s oid = filter (\<lambda>i. case get (objects s) i of
     Some r \<Rightarrow> object_objectiveId (object r) = Some oid | None \<Rightarrow> False) (sort (keys (objects s)))"

definition retypeStructuralRefusal :: "core_state \<Rightarrow> accepted_object \<Rightarrow> accepted_type \<Rightarrow> reason option" where
  "retypeStructuralRefusal s from_ob to_type = first_refusal
     [refuse_if (object_type from_ob = Objective \<and> to_type \<noteq> Objective \<and>
         filed_under s (object_id from_ob) \<noteq> [])
        (RetypeFault (ObjectiveStillFiled (object_id from_ob) to_type (filed_under s (object_id from_ob)))),
      refuse_if (filter (\<lambda>r. fromObjectId r = object_id from_ob) (liveAnswers s) \<noteq> [] \<and>
         to_type \<noteq> OpenQuestion)
        (RetypeFault (QuestionStillAnswered (object_id from_ob) to_type)),
      refuse_if (filter (\<lambda>r. relation_to r = ToObject (object_id from_ob)) (liveAnswers s) \<noteq> [] \<and>
         to_type \<noteq> Decision \<and> to_type \<noteq> Claim)
        (RetypeFault (StillAnAnswer (object_id from_ob) to_type))]"

definition retype_moves_attribution :: "fields \<Rightarrow> fields \<Rightarrow> accepted_type \<Rightarrow> bool" where
  "retype_moves_attribution carried p to_type = (case ATTRIBUTION_FIELD to_type of
     None \<Rightarrow> False
   | Some g \<Rightarrow> (case (field carried g, field p g) of
       (Some held, Some proposed) \<Rightarrow> proposed \<noteq> held | _ \<Rightarrow> False))"

definition retyped_json :: "accepted_object \<Rightarrow> accepted_type \<Rightarrow> fields \<Rightarrow> jstr \<Rightarrow> json" where
  "retyped_json from_ob to_type p t = JObj
     [(asc ''id'', JStr (object_id from_ob)), (asc ''roomId'', JStr (object_roomId from_ob)),
      (asc ''objectiveId'', opt_json JStr (object_objectiveId from_ob)),
      (asc ''provenance'', provenance_json (object_provenance from_ob)),
      (asc ''type'', jstring (type_name to_type)), (asc ''payload'', JObj p),
      (asc ''createdAt'', JStr (object_createdAt from_ob)), (asc ''updatedAt'', JStr t)]"

definition planRetype :: "core_state \<Rightarrow> correction_event \<Rightarrow> object_record \<Rightarrow> correction_outcome" where
  "planRetype s e r = (case toType e of
     None \<Rightarrow> Refused (RetypeFault (RetypeWithoutTarget (corrected_objectId e)))
   | Some to_type \<Rightarrow> let from_ob = object r in
       if to_type = object_type from_ob
         then Refused (RetypeFault (RetypeSameType (corrected_objectId e) to_type))
       else (case retypeStructuralRefusal s from_ob to_type of
         Some why \<Rightarrow> Refused why
       | None \<Rightarrow> let carried = retypeCarryOver from_ob to_type in
           if retype_moves_attribution carried (patch e) to_type
             then Refused (RetypeFault (RetypeMovesAttribution (corrected_objectId e)
                    (or_default [] (ATTRIBUTION_FIELD to_type))))
           else (case AcceptedObject (retyped_json from_ob to_type (patch e @ carried) (corrected_at e)) of
             None \<Rightarrow> Refused (RetypeFault (RetypeInvalid (corrected_objectId e) (object_type from_ob) to_type))
           | Some ob \<Rightarrow> Planned (edit_plan ob (STyped (object_type from_ob) (object_payload from_ob))
                          (STyped to_type (object_payload ob))))))"

section \<open>reopen, retract, restore\<close>

definition planReopen :: "core_state \<Rightarrow> correction_event \<Rightarrow> object_record \<Rightarrow> correction_outcome" where
  "planReopen s e r = (let ob = object r; oid = corrected_objectId e in
     case object_payload ob of
       OpenQuestionPayload q st \<Rightarrow>
         if st \<noteq> Answered then Refused (RetypeFault (AlreadyOpen oid OpenQuestion))
         else let answers = map relation_id (filter (\<lambda>x. relation_kind x = Answers \<and>
                fromObjectId x = object_id ob) (relations s))
           in Planned \<lparr>plan_object = ob\<lparr>object_payload := OpenQuestionPayload q QuestionOpen,
                          object_updatedAt := corrected_at e\<rparr>,
                plan_before = SAnswered answers, plan_after = SReopened answers,
                plan_retractedAt = None, afterCommit = RememberAnswers answers\<rparr>
     | CommitmentPayload st w d cs \<Rightarrow>
         if cs = CommitmentOpen then Refused (RetypeFault (AlreadyOpen oid Commitment))
         else Planned (edit_plan (ob\<lparr>object_payload := CommitmentPayload st w d CommitmentOpen,
                object_updatedAt := corrected_at e\<rparr>) (SStatus cs) (SStatus CommitmentOpen))
     | p \<Rightarrow> Refused (RetypeFault (CannotReopen oid (payload_type p))))"

definition planCorrection :: "core_state \<Rightarrow> correction_event \<Rightarrow> object_record \<Rightarrow> correction_outcome" where
  "planCorrection s e r = (let oid = corrected_objectId e; act = corrected_action e in
     if act = Retract then
       if retractedAt r \<noteq> None then Refused (CorrectionFault (AlreadyRetracted oid))
       else Planned \<lparr>plan_object = object r, plan_before = SRetracted False,
              plan_after = SRetracted True, plan_retractedAt = Some (Some (corrected_at e)),
              afterCommit = ReleaseSupersessions\<rparr>
     else if act = Restore then
       if retractedAt r = None then Refused (CorrectionFault (NotRetracted oid))
       else Planned \<lparr>plan_object = object r, plan_before = SRetracted True,
              plan_after = SRetracted False, plan_retractedAt = Some None,
              afterCommit = ReapplySupersessions\<rparr>
     else if retractedAt r \<noteq> None then Refused (CorrectionFault (RetractedRestoreFirst oid act))
     else if act = Retype then planRetype s e r
     else if act = Reopen then planReopen s e r
     else planPayloadEdit e r)"

section \<open>Gates on the plan\<close>

text \<open>
  A verification lapses when a correction moves the sentence or the claimant under it: the claim
  stays, its verification goes back to unverified, and the log records what was really stored.
\<close>

definition lapses :: "payload \<Rightarrow> payload \<Rightarrow> bool" where
  "lapses prior after = (case (prior, after) of
     (ClaimPayload s c v, ClaimPayload s' c' v') \<Rightarrow> v = Verified \<and> v' = Verified \<and>
        (normalizeForReceipt s' \<noteq> normalizeForReceipt s \<or> c' \<noteq> c)
   | _ \<Rightarrow> False)"

fun unverify :: "payload \<Rightarrow> payload" where
  "unverify (ClaimPayload s c v) = ClaimPayload s c Unverified"
| "unverify p = p"

definition lapse_plan :: "accepted_object \<Rightarrow> correction_plan \<Rightarrow> correction_plan" where
  "lapse_plan prior p =
     (if lapses (object_payload prior) (object_payload (plan_object p))
      then let q = unverify (object_payload (plan_object p))
        in p\<lparr>plan_object := (plan_object p)\<lparr>object_payload := q\<rparr>, plan_after := SPayload q\<rparr>
      else p)"

definition becomes_verified :: "payload \<Rightarrow> payload \<Rightarrow> bool" where
  "becomes_verified prior after \<longleftrightarrow> verified_claim after \<and> \<not> verified_claim prior"

definition staging_actor :: "core_state \<Rightarrow> accepted_object \<Rightarrow> actor option" where
  "staging_actor s ob = (case proposalId (object_provenance ob) of
     None \<Rightarrow> None | Some pid \<Rightarrow> map_option stagedBy (get (proposals s) pid))"

fun payload_owner :: "payload \<Rightarrow> jstr option" where
  "payload_owner (CommitmentPayload s w d st) = Some w"
| "payload_owner _ = None"

fun payload_claimant :: "payload \<Rightarrow> jstr option" where
  "payload_claimant (ClaimPayload s c v) = Some c"
| "payload_claimant _ = None"

definition takes_on_refusal :: "actor \<Rightarrow> accepted_object \<Rightarrow> accepted_object \<Rightarrow> reason option" where
  "takes_on_refusal a prior after = (case payload_owner (object_payload after) of
     Some w \<Rightarrow> if isHuman a \<and> object_type prior \<noteq> Commitment then ownerConfirmRefusal a w else None
   | None \<Rightarrow> None)"

definition verification_refusal :: "core_state \<Rightarrow> actor \<Rightarrow> accepted_object \<Rightarrow> accepted_object \<Rightarrow> reason option" where
  "verification_refusal s a prior after = (case payload_claimant (object_payload after) of
     Some c \<Rightarrow> if isHuman a \<and> becomes_verified (object_payload prior) (object_payload after)
       then selfVerificationRefusal a c (staging_actor s after) else None
   | None \<Rightarrow> None)"

definition correction_gates :: "core_state \<Rightarrow> correction_event \<Rightarrow> actor \<Rightarrow> object_record \<Rightarrow> correction_plan \<Rightarrow> reason option" where
  "correction_gates s e a r p = first_refusal
     [correctionAttributionRefusal a (corrected_objectId e) (corrected_action e) (object r) (plan_object p),
      takes_on_refusal a (object r) (plan_object p),
      verification_refusal s a (object r) (plan_object (lapse_plan (object r) p)),
      (if corrected_action e = Retract then retractVerifiedClaimRefusal a (object r) else None)]"

section \<open>Commit\<close>

definition add_missing :: "jstr list \<Rightarrow> jstr list \<Rightarrow> jstr list" where
  "add_missing xs ys = foldl (\<lambda>acc y. if y \<in> set acc then acc else acc @ [y]) xs ys"

definition correction_entry :: "correction_event \<Rightarrow> object_record \<Rightarrow> actor \<Rightarrow> correction_plan \<Rightarrow> correction_record" where
  "correction_entry e r a p = \<lparr>correction_eventId = corrected_id e, correction_objectId = object_id (object r),
     correction_objectType = object_type (object r), correction_action = corrected_action e,
     correction_before = plan_before p, correction_after = plan_after p, correction_actor = a,
     correction_provenance = corrected_provenance e, correction_note = corrected_note e,
     correction_at = corrected_at e\<rparr>"

definition corrected_record :: "correction_event \<Rightarrow> object_record \<Rightarrow> actor \<Rightarrow> correction_plan \<Rightarrow> object_record" where
  "corrected_record e r a p = r\<lparr>object := plan_object p,
     retractedAt := (case plan_retractedAt p of None \<Rightarrow> retractedAt r | Some v \<Rightarrow> v),
     record_updatedAt := corrected_at e, revision := revision r + 1,
     humanTouchedAt := (if humanTouchedAt r = None \<and> isHuman a then Some (corrected_at e) else humanTouchedAt r),
     reopenedFromAnswers := (case afterCommit p of
        RememberAnswers answers \<Rightarrow> add_missing (reopenedFromAnswers r) answers | _ \<Rightarrow> reopenedFromAnswers r)\<rparr>"

definition commitPlan :: "core_state \<Rightarrow> correction_event \<Rightarrow> object_record \<Rightarrow> actor \<Rightarrow> correction_plan \<Rightarrow> core_state" where
  "commitPlan s e r a p =
     (let s' = s\<lparr>corrections := corrections s @ [correction_entry e r a p],
                 objects := put (corrected_objectId e) (corrected_record e r a p) (objects s)\<rparr>
      in case afterCommit p of
           ReleaseSupersessions \<Rightarrow> releaseSupersessions s' (object_id (plan_object p)) (corrected_at e)
         | ReapplySupersessions \<Rightarrow> reapplySupersessions s' (object_id (plan_object p)) (corrected_at e)
         | _ \<Rightarrow> s')"

section \<open>The handler\<close>

definition correction_human_gate :: "correction_event \<Rightarrow> actor \<Rightarrow> object_record \<Rightarrow> reason option" where
  "correction_human_gate e a r =
     (let verifying = (field (patch e) ''verification'' = Some (jstring ''verified'') \<and>
                       (object_type (object r) = Claim \<or> toType e = Some Claim))
      in refuse_if (\<not> isHuman a) (humanOnlyRefusal (if verifying then ClaimVerification else CorrectionGate)
           a (corrected_objectId e) None))"

definition applyObjectCorrected :: "core_state \<Rightarrow> correction_event \<Rightarrow> actor \<Rightarrow> step" where
  "applyObjectCorrected s e a = (case get (objects s) (corrected_objectId e) of
     None \<Rightarrow> refuse s (corrected_id e) (CorrectionFault (UnknownObject (corrected_objectId e)))
   | Some r \<Rightarrow> (case correction_human_gate e a r of
       Some why \<Rightarrow> refuse s (corrected_id e) why
     | None \<Rightarrow> (case planCorrection s e r of
         Refused why \<Rightarrow> refuse s (corrected_id e) why
       | Noop why \<Rightarrow> (fail s (corrected_id e) why, True)
       | Planned p \<Rightarrow> (case correction_gates s e a r p of
           Some why \<Rightarrow> refuse s (corrected_id e) why
         | None \<Rightarrow> (commitPlan s e r a (lapse_plan (object r) p), True)))))"

end
