(* ===== verification/Reduce.thy ===== *)
theory Reduce
  imports Reduce_Correct
begin

text \<open>
  \<open>reduce.ts\<close>, the relation handler and the fold: \<open>appendEvent\<close> for one live event,
  \<open>foldEvents\<close>/\<open>reduce\<close> for a whole log, over the canonical order.
\<close>

section \<open>Canonical order\<close>

definition cursorOf :: "core_event \<Rightarrow> event_cursor" where
  "cursorOf e = \<lparr>cursor_at = event_at e, cursor_id = event_id e\<rparr>"

definition compare :: "jstr \<Rightarrow> jstr \<Rightarrow> int" where
  "compare a b = (if a < b then -1 else if a > b then 1 else 0)"

definition compareCursor :: "event_cursor \<Rightarrow> event_cursor \<Rightarrow> int" where
  "compareCursor a b =
     (let ka = instantKey (cursor_at a); kb = instantKey (cursor_at b)
      in if ka = kb then compare (cursor_id a) (cursor_id b) else compare ka kb)"

text \<open>The key \<open>compareCursor\<close> compares by; \<open>Array#sort\<close> with that comparator is a stable sort.\<close>

definition cursor_key :: "event_cursor \<Rightarrow> jstr \<times> jstr" where
  "cursor_key c = (instantKey (cursor_at c), cursor_id c)"

definition orderEvents :: "authored_event list \<Rightarrow> authored_event list" where
  "orderEvents rows = sort_key (\<lambda>x. cursor_key (cursorOf (event x))) rows"

section \<open>Relations\<close>

definition relation_target_record :: "core_state \<Rightarrow> relation \<Rightarrow> object_record option" where
  "relation_target_record s r = (case relation_to r of ToObject i \<Rightarrow> get (objects s) i | _ \<Rightarrow> None)"

definition endpoint_refusal :: "core_state \<Rightarrow> relation \<Rightarrow> reason option" where
  "endpoint_refusal s r = first_refusal
     [refuse_if (list_ex (\<lambda>x. relation_id x = relation_id r) (relations s))
        (RelationFault (RelationExists (relation_id r))),
      map_option (\<lambda>e. RelationFault (RelationShape e)) (relationShapeError r),
      refuse_if (get (objects s) (fromObjectId r) = None) (RelationFault (UnknownSource (fromObjectId r))),
      (case relation_to r of
         ToObject i \<Rightarrow> refuse_if (get (objects s) i = None) (RelationFault (UnknownTarget i))
       | _ \<Rightarrow> None),
      (case get (objects s) (fromObjectId r) of
         Some from_rec \<Rightarrow> refuse_if (object_roomId (object from_rec) \<noteq> relation_roomId r)
           (RelationFault (SourceOtherRoom (relation_id r) (object_roomId (object from_rec))))
       | None \<Rightarrow> None),
      (case relation_target_record s r of
         Some target \<Rightarrow> refuse_if (object_roomId (object target) \<noteq> relation_roomId r)
           (RelationFault (TargetOtherRoom (relation_id r) (object_roomId (object target))))
       | None \<Rightarrow> None)]"

definition answers_refusal :: "core_state \<Rightarrow> relation \<Rightarrow> actor \<Rightarrow> object_record \<Rightarrow> reason option" where
  "answers_refusal s r a from_rec =
     (if relation_kind r \<noteq> Answers then None
      else first_refusal
       [refuse_if (\<not> isHuman a) (humanOnlyRefusal AnswerRelation a (relation_id r) None),
        refuse_if (object_type (object from_rec) \<noteq> OpenQuestion)
          (RelationFault (AnswersFromNonQuestion (object_type (object from_rec)))),
        (case relation_target_record s r of
           Some target \<Rightarrow> refuse_if (object_type (object target) \<noteq> Decision \<and> object_type (object target) \<noteq> Claim)
             (RelationFault (AnswersToWrongType (object_type (object target))))
         | None \<Rightarrow> None),
        refuse_if (retractedAt from_rec \<noteq> None) (RelationFault (AnswersRetracted (object_id (object from_rec)))),
        (case object_payload (object from_rec) of
           OpenQuestionPayload q st \<Rightarrow> refuse_if (st \<noteq> QuestionOpen)
             (RelationFault (AnswersAlreadyAnswered (object_id (object from_rec))))
         | _ \<Rightarrow> None)])"

definition supersedes_refusal :: "core_state \<Rightarrow> relation \<Rightarrow> actor \<Rightarrow> reason option" where
  "supersedes_refusal s r a = (case (relation_kind r, relation_target_record s r) of
     (Supersedes, Some target) \<Rightarrow> first_refusal
       [refuse_if (decideSupersession (object_type (object target)) = RequiresHuman \<and> \<not> isHuman a)
          (humanOnlyRefusal Supersession a (relation_id r) (Some (object_type (object target)))),
        refuse_if (\<not> isHuman a)
          (humanOnlyRefusal (if epistemicStateOf target = Confirmed then ConfirmedSupersession
             else UnconfirmedSupersession) a (relation_id r) (Some (object_type (object target)))),
        (case supersededById target of
           Some b \<Rightarrow> Some (RelationFault (AlreadySuperseded (object_id (object target)) b)) | None \<Rightarrow> None),
        refuse_if (supersessionWouldCycle s (fromObjectId r) (object_id (object target)))
          (RelationFault (SupersessionCycle (fromObjectId r) (object_id (object target))))]
   | _ \<Rightarrow> None)"

definition relation_refusal :: "core_state \<Rightarrow> relation \<Rightarrow> actor \<Rightarrow> reason option" where
  "relation_refusal s r a = first_refusal
     [endpoint_refusal s r,
      (case get (objects s) (fromObjectId r) of
         Some from_rec \<Rightarrow> answers_refusal s r a from_rec | None \<Rightarrow> None),
      supersedes_refusal s r a]"

text \<open>What an edge does when it lands: the retired object is marked, the question is answered.\<close>

definition supersedes_effect :: "relation \<Rightarrow> jstr \<Rightarrow> core_state \<Rightarrow> core_state" where
  "supersedes_effect r t s = (case (relation_kind r, relation_to r) of
     (Supersedes, ToObject i) \<Rightarrow> (case get (objects s) i of
        Some target \<Rightarrow> s\<lparr>objects := put i (setSuperseded target (Some (fromObjectId r)) t) (objects s)\<rparr>
      | None \<Rightarrow> s)
   | _ \<Rightarrow> s)"

definition answers_effect :: "relation \<Rightarrow> jstr \<Rightarrow> core_state \<Rightarrow> core_state" where
  "answers_effect r t s = (if relation_kind r \<noteq> Answers then s
     else case get (objects s) (fromObjectId r) of
       Some q \<Rightarrow> (case object_payload (object q) of
         OpenQuestionPayload qt st \<Rightarrow> s\<lparr>objects := put (fromObjectId r)
           (q\<lparr>object := (object q)\<lparr>object_payload := OpenQuestionPayload qt Answered, object_updatedAt := t\<rparr>,
              record_updatedAt := t\<rparr>) (objects s)\<rparr>
       | _ \<Rightarrow> s)
     | None \<Rightarrow> s)"

definition applyRelationAdded :: "core_state \<Rightarrow> jstr \<Rightarrow> jstr \<Rightarrow> relation \<Rightarrow> actor \<Rightarrow> step" where
  "applyRelationAdded s eid t r a = (case relation_refusal s r a of
     Some why \<Rightarrow> refuse s eid why
   | None \<Rightarrow> (answers_effect r t (supersedes_effect r t (s\<lparr>relations := relations s @ [r]\<rparr>)), True))"

section \<open>Dispatch and consumption\<close>

fun resolveRoomId :: "core_state \<Rightarrow> core_event \<Rightarrow> jstr option" where
  "resolveRoomId s (ProposalRecorded _ _ p) = Some (proposal_roomId p)"
| "resolveRoomId s (ProposalRejected _ _ pid _) =
     map_option (\<lambda>r. proposal_roomId (proposal r)) (get (proposals s) pid)"
| "resolveRoomId s (ProposalSuperseded _ _ pid _ _) =
     map_option (\<lambda>r. proposal_roomId (proposal r)) (get (proposals s) pid)"
| "resolveRoomId s (ObjectAccepted _ _ ob) = Some (object_roomId ob)"
| "resolveRoomId s (ObjectCorrected c) =
     map_option (\<lambda>r. object_roomId (object r)) (get (objects s) (corrected_objectId c))"
| "resolveRoomId s (RelationAdded _ _ r) = Some (relation_roomId r)"

fun dispatch_event :: "unicode \<Rightarrow> core_state \<Rightarrow> core_event \<Rightarrow> actor \<Rightarrow> provenance_message list option \<Rightarrow> step" where
  "dispatch_event U s (ProposalRecorded i t p) a ms = applyProposalRecorded s i p a"
| "dispatch_event U s (ProposalRejected i t pid why) a ms = applyProposalRejected s i pid why a"
| "dispatch_event U s (ProposalSuperseded i t pid b why) a ms = applyProposalSuperseded s i pid b why a"
| "dispatch_event U s (ObjectAccepted i t ob) a ms = applyObjectAccepted U s i t ob a ms"
| "dispatch_event U s (ObjectCorrected c) a ms = applyObjectCorrected s c a"
| "dispatch_event U s (RelationAdded i t r) a ms = applyRelationAdded s i t r a"

definition dispatch :: "unicode \<Rightarrow> core_state \<Rightarrow> authored_event \<Rightarrow> step" where
  "dispatch U s x = dispatch_event U s (event x) (actor x) (messages x)"

datatype rejection = OutOfOrder bool | Duplicate

datatype event_outcome =
    Applied core_event actor
  | AppliedWithIssue core_event actor "reducer_issue list"
  | RejectedEvent core_event actor rejection
  | Malformed json actor

fun wasConsumed :: "event_outcome \<Rightarrow> bool" where
  "wasConsumed (Applied _ _) = True"
| "wasConsumed (AppliedWithIssue _ _ _) = True"
| "wasConsumed (RejectedEvent _ _ _) = False"
| "wasConsumed (Malformed _ _) = False"

definition rejectionFor :: "core_state \<Rightarrow> core_event \<Rightarrow> rejection option" where
  "rejectionFor s e =
     (let spent = (event_id e \<in> set (consumedEventIds s)) in
      if (case cursor s of Some c \<Rightarrow> compareCursor (cursorOf e) c \<le> 0 | None \<Rightarrow> False)
        then Some (OutOfOrder spent)
      else if spent then Some Duplicate else None)"

text \<open>
  The bookkeeping of a consumed event: the cursor, the room's watermark (the room is resolved
  before the handler runs), the spent id, and the backstop issue for a handler that refused
  without saying why.
\<close>

definition record_consumed :: "core_event \<Rightarrow> jstr option \<Rightarrow> core_state \<Rightarrow> core_state" where
  "record_consumed e room s = s\<lparr>cursor := Some (cursorOf e),
     watermarks := (case room of None \<Rightarrow> watermarks s | Some i \<Rightarrow> put i (cursorOf e) (watermarks s)),
     consumedEventIds := consumedEventIds s @ [event_id e]\<rparr>"

definition consume :: "unicode \<Rightarrow> core_state \<Rightarrow> authored_event \<Rightarrow> core_state \<times> event_outcome" where
  "consume U s x =
     (let e = event x;
          prior = length (issues s);
          (s1, applied) = dispatch U s x;
          s2 = record_consumed e (resolveRoomId s e) s1;
          s3 = (if \<not> applied \<and> length (issues s2) = prior
                then fail s2 (event_id e) (NoReasonRecorded (event_id e)) else s2);
          new = drop prior (issues s3)
      in (s3, if new \<noteq> [] then AppliedWithIssue e (actor x) new else Applied e (actor x)))"

section \<open>Appending and folding\<close>

definition append_authored :: "unicode \<Rightarrow> core_state \<Rightarrow> authored_event \<Rightarrow> core_state \<times> event_outcome" where
  "append_authored U s x = (case rejectionFor s (event x) of
     Some why \<Rightarrow> (s, RejectedEvent (event x) (actor x) why)
   | None \<Rightarrow> consume U s x)"

definition appendEvent :: "unicode \<Rightarrow> core_state \<Rightarrow> json \<Rightarrow> trusted_context \<Rightarrow> core_state \<times> event_outcome" where
  "appendEvent U s j c = (case CoreEvent U j of
     None \<Rightarrow> (s, Malformed j (actor c))
   | Some e \<Rightarrow> append_authored U s (authored e c))"

fun fold_rows :: "unicode \<Rightarrow> core_state \<Rightarrow> authored_event list \<Rightarrow> core_state \<times> event_outcome list" where
  "fold_rows U s [] = (s, [])"
| "fold_rows U s (x # xs) =
     (let (s', oc) = append_authored U s x; (s'', ocs) = fold_rows U s' xs in (s'', oc # ocs))"

text \<open>A log row as it is read back: the raw payload and its trusted context.\<close>

type_synonym raw_row = "json \<times> trusted_context"

fun parse_rows :: "unicode \<Rightarrow> raw_row list \<Rightarrow> authored_event list" where
  "parse_rows U [] = []"
| "parse_rows U ((j, c) # rows) = (case CoreEvent U j of
     None \<Rightarrow> parse_rows U rows | Some e \<Rightarrow> authored e c # parse_rows U rows)"

fun malformed_rows :: "unicode \<Rightarrow> raw_row list \<Rightarrow> event_outcome list" where
  "malformed_rows U [] = []"
| "malformed_rows U ((j, c) # rows) = (case CoreEvent U j of
     None \<Rightarrow> Malformed j (actor c) # malformed_rows U rows | Some e \<Rightarrow> malformed_rows U rows)"

definition foldEvents :: "unicode \<Rightarrow> raw_row list \<Rightarrow> core_state \<Rightarrow> core_state \<times> event_outcome list" where
  "foldEvents U rows initial =
     (let (s, ocs) = fold_rows U initial (orderEvents (parse_rows U rows))
      in (s, malformed_rows U rows @ ocs))"

definition reduce :: "unicode \<Rightarrow> raw_row list \<Rightarrow> core_state" where
  "reduce U rows = fst (foldEvents U rows emptyState)"

end
