(* ===== verification/Reduce_Fold.thy ===== *)
theory Reduce_Fold
  imports Reduce "HOL-Library.Multiset"
begin

text \<open>
  The fold as a fold: what an append may change, that replaying the consumed rows of a live
  session rebuilds its state, and that the order rows arrive in does not matter.  The argument
  is generic in the step function, so it is made once in the locale \<open>ordered_log\<close> and
  interpreted on \<open>append_authored\<close>.
\<close>

section \<open>The canonical order\<close>

abbreviation row_key :: "authored_event \<Rightarrow> jstr \<times> jstr" where
  "row_key x \<equiv> cursor_key (cursorOf (event x))"

lemma compare_less: "compare a b < 0 \<longleftrightarrow> a < b" "compare a b \<le> 0 \<longleftrightarrow> a \<le> b" "compare a b = 0 \<longleftrightarrow> a = b"
  by (auto simp: compare_def)

lemma compareCursor_key:
  "compareCursor a b < 0 \<longleftrightarrow> cursor_key a < cursor_key b"
  "compareCursor a b \<le> 0 \<longleftrightarrow> cursor_key a \<le> cursor_key b"
  by (auto simp: compareCursor_def cursor_key_def Let_def compare_less less_prod_def less_eq_prod_def
      compare_def)

section \<open>What one append changes\<close>

lemma fail_simps [simp]:
  "objects (fail s i r) = objects s" "relations (fail s i r) = relations s"
  "proposals (fail s i r) = proposals s" "corrections (fail s i r) = corrections s"
  "issues (fail s i r) = issues s @ [(i, r)]" "consumedEventIds (fail s i r) = consumedEventIds s"
  "cursor (fail s i r) = cursor s" "watermarks (fail s i r) = watermarks s"
  by (simp_all add: fail_def)

lemma record_consumed_simps [simp]:
  "objects (record_consumed e i s) = objects s" "relations (record_consumed e i s) = relations s"
  "proposals (record_consumed e i s) = proposals s" "corrections (record_consumed e i s) = corrections s"
  "issues (record_consumed e i s) = issues s"
  "consumedEventIds (record_consumed e i s) = consumedEventIds s @ [event_id e]"
  "cursor (record_consumed e i s) = Some (cursorOf e)"
  by (simp_all add: record_consumed_def)

text \<open>
  The parts of the state a handler leaves alone: only \<open>consume\<close> writes the cursor, the spent ids
  and the watermarks.
\<close>

definition same_position :: "core_state \<Rightarrow> core_state \<Rightarrow> bool" where
  "same_position s s' \<longleftrightarrow> cursor s' = cursor s \<and> consumedEventIds s' = consumedEventIds s \<and>
     watermarks s' = watermarks s"

lemma same_position_refl [simp]: "same_position s s"
  by (simp add: same_position_def)

lemma same_position_fail [simp]: "same_position s (fail s i r)"
  by (simp add: same_position_def)

lemma release_edges_frame:
  "cursor (release_edges i t es s) = cursor s"
  "consumedEventIds (release_edges i t es s) = consumedEventIds s"
  "watermarks (release_edges i t es s) = watermarks s"
  "relations (release_edges i t es s) = relations s"
  "proposals (release_edges i t es s) = proposals s"
  "corrections (release_edges i t es s) = corrections s"
  "issues (release_edges i t es s) = issues s"
  by (induction i t es s rule: release_edges.induct) (auto split: relation_target.splits option.splits)

lemma reapply_edges_frame:
  "cursor (reapply_edges i t es s) = cursor s"
  "consumedEventIds (reapply_edges i t es s) = consumedEventIds s"
  "watermarks (reapply_edges i t es s) = watermarks s"
  "relations (reapply_edges i t es s) = relations s"
  "proposals (reapply_edges i t es s) = proposals s"
  "corrections (reapply_edges i t es s) = corrections s"
  "issues (reapply_edges i t es s) = issues s"
  by (induction i t es s rule: reapply_edges.induct) (auto split: relation_target.splits option.splits)

lemma commitPlan_frame:
  "cursor (commitPlan s e r a p) = cursor s"
  "consumedEventIds (commitPlan s e r a p) = consumedEventIds s"
  "watermarks (commitPlan s e r a p) = watermarks s"
  "relations (commitPlan s e r a p) = relations s"
  "proposals (commitPlan s e r a p) = proposals s"
  "corrections (commitPlan s e r a p) = corrections s @ [correction_entry e r a p]"
  "issues (commitPlan s e r a p) = issues s"
  by (auto simp: commitPlan_def releaseSupersessions_def reapplySupersessions_def release_edges_frame
      reapply_edges_frame Let_def split: after_commit.splits)

lemma effects_frame:
  "cursor (answers_effect r t s) = cursor s" "cursor (supersedes_effect r t s) = cursor s"
  "consumedEventIds (answers_effect r t s) = consumedEventIds s"
  "consumedEventIds (supersedes_effect r t s) = consumedEventIds s"
  "watermarks (answers_effect r t s) = watermarks s" "watermarks (supersedes_effect r t s) = watermarks s"
  "relations (answers_effect r t s) = relations s" "relations (supersedes_effect r t s) = relations s"
  "proposals (answers_effect r t s) = proposals s" "proposals (supersedes_effect r t s) = proposals s"
  "corrections (answers_effect r t s) = corrections s" "corrections (supersedes_effect r t s) = corrections s"
  "issues (answers_effect r t s) = issues s" "issues (supersedes_effect r t s) = issues s"
  by (auto simp: answers_effect_def supersedes_effect_def
      split: option.splits relation_kind.splits relation_target.splits payload.splits)

lemma mark_accepted_frame:
  "cursor (mark_accepted s ob) = cursor s"
  "consumedEventIds (mark_accepted s ob) = consumedEventIds s"
  "watermarks (mark_accepted s ob) = watermarks s"
  "relations (mark_accepted s ob) = relations s"
  "objects (mark_accepted s ob) = objects s"
  "corrections (mark_accepted s ob) = corrections s"
  "issues (mark_accepted s ob) = issues s"
  by (auto simp: mark_accepted_def split: option.splits)

lemma applyObjectCorrected_cases:
  obtains (refused) why where "applyObjectCorrected s e a = refuse s (corrected_id e) why"
  | (noop) why where "applyObjectCorrected s e a = (fail s (corrected_id e) why, True)"
  | (committed) r p where "get (objects s) (corrected_objectId e) = Some r" and "isHuman a"
      and "planCorrection s e r = Planned p" and "correction_gates s e a r p = None"
      and "applyObjectCorrected s e a = (commitPlan s e r a (lapse_plan (object r) p), True)"
proof (cases "get (objects s) (corrected_objectId e)")
  case None
  then show ?thesis using refused by (simp add: applyObjectCorrected_def)
next
  case (Some r)
  show ?thesis
  proof (cases "correction_human_gate e a r")
    case None
    then have "isHuman a" by (simp add: correction_human_gate_def Let_def)
    with Some None show ?thesis
      by (cases "planCorrection s e r"; cases "correction_gates s e a r (case planCorrection s e r of Planned p \<Rightarrow> p)")
         (auto simp: applyObjectCorrected_def intro: refused noop committed)
  next
    case (Some why)
    with \<open>get (objects s) (corrected_objectId e) = Some r\<close> show ?thesis
      using refused by (simp add: applyObjectCorrected_def)
  qed
qed

lemma dispatch_position: "same_position s (fst (dispatch U s x))"
proof (cases "event x")
  case (ObjectCorrected c)
  show ?thesis
    by (rule applyObjectCorrected_cases [of s c "actor x"])
       (auto simp: dispatch_def ObjectCorrected refuse_def same_position_def commitPlan_frame)
qed (auto simp: dispatch_def refuse_def same_position_def applyProposalRecorded_def applyProposalRejected_def
      applyProposalSuperseded_def applyObjectAccepted_def applyRelationAdded_def mark_accepted_frame
      effects_frame Let_def split: option.splits)

lemma consume_simps:
  "cursor (fst (consume U s x)) = Some (cursorOf (event x))"
  "consumedEventIds (fst (consume U s x)) = consumedEventIds s @ [event_id (event x)]"
  "objects (fst (consume U s x)) = objects (fst (dispatch U s x))"
  "relations (fst (consume U s x)) = relations (fst (dispatch U s x))"
  "proposals (fst (consume U s x)) = proposals (fst (dispatch U s x))"
  "corrections (fst (consume U s x)) = corrections (fst (dispatch U s x))"
  "wasConsumed (snd (consume U s x))"
  using dispatch_position [of s U x]
  by (auto simp: consume_def Let_def same_position_def split: prod.splits)

lemma rejectionFor_None:
  "rejectionFor s e = None \<longleftrightarrow>
     (\<forall>c. cursor s = Some c \<longrightarrow> cursor_key c < cursor_key (cursorOf e)) \<and> event_id e \<notin> set (consumedEventIds s)"
  by (auto simp: rejectionFor_def Let_def compareCursor_key not_le split: option.splits)

section \<open>Ordered logs\<close>

text \<open>
  A consumer of an ordered log: a step either takes a row, moving its position strictly forward
  to the row's key, or leaves the state as it was.
\<close>

locale ordered_log =
  fixes step :: "'s \<Rightarrow> 'x \<Rightarrow> 's"
    and taken :: "'s \<Rightarrow> 'x \<Rightarrow> bool"
    and key :: "'x \<Rightarrow> 'k::linorder"
    and pos :: "'s \<Rightarrow> 'k option"
  assumes not_taken: "\<not> taken s x \<Longrightarrow> step s x = s"
    and taken_pos: "taken s x \<Longrightarrow> pos (step s x) = Some (key x)"
    and taken_after: "taken s x \<Longrightarrow> pos s = Some k \<Longrightarrow> k < key x"
begin

primrec run :: "'s \<Rightarrow> 'x list \<Rightarrow> 's" where
  "run s [] = s"
| "run s (x # xs) = run (step s x) xs"

primrec kept :: "'s \<Rightarrow> 'x list \<Rightarrow> 'x list" where
  "kept s [] = []"
| "kept s (x # xs) = (if taken s x then x # kept (step s x) xs else kept s xs)"

lemma run_append: "run s (xs @ ys) = run (run s xs) ys"
  by (induction xs arbitrary: s) auto

lemma run_kept: "run s (kept s xs) = run s xs"
  by (induction xs arbitrary: s) (auto simp: not_taken)

lemma kept_after: "pos s = Some k \<Longrightarrow> x \<in> set (kept s xs) \<Longrightarrow> k < key x"
proof (induction xs arbitrary: s k)
  case (Cons y ys)
  show ?case
  proof (cases "taken s y")
    case True
    with Cons.prems show ?thesis
      using Cons.IH [OF taken_pos [OF True]] taken_after [OF True Cons.prems(1)]
      by (auto dest: less_trans)
  next
    case False
    with Cons show ?thesis by simp
  qed
qed simp

lemma kept_sorted: "sorted_wrt (\<lambda>x y. key x < key y) (kept s xs)"
  by (induction xs arbitrary: s) (auto dest: kept_after [OF taken_pos])

lemma kept_distinct: "distinct (map key (kept s xs))"
  using kept_sorted [of s xs]
  by (metis distinct_map sorted_wrt_map strict_sorted_iff strict_sorted_imp_sorted distinct_conv_nth)

lemma distinct_sort_key: "distinct (map key (sort_key key xs)) \<longleftrightarrow> distinct (map key xs)"
  by (metis mset_eq_imp_distinct_iff mset_map mset_sort)

lemma sort_unique:
  assumes "mset xs = mset ys" and "distinct (map key xs)"
  shows "sort_key key xs = sort_key key ys"
proof (rule map_sorted_distinct_set_unique)
  have set_eq: "set xs = set ys"
    using assms(1) by (rule mset_eq_setD)
  have "distinct (map key ys)"
    using assms by (metis mset_eq_imp_distinct_iff mset_map)
  then show "distinct (map key (sort_key key ys))" "distinct (map key (sort_key key xs))"
    using assms(2) by (simp_all add: distinct_sort_key)
  show "inj_on key (set (sort_key key xs) \<union> set (sort_key key ys))"
    using assms(2) set_eq by (simp add: distinct_map)
qed (use mset_eq_setD [OF assms(1)] in simp_all)

lemma sort_kept: "mset ys = mset (kept s xs) \<Longrightarrow> sort_key key ys = kept s xs"
proof -
  assume eq: "mset ys = mset (kept s xs)"
  then have "sort_key key (kept s xs) = sort_key key ys"
    by (intro sort_unique kept_distinct) simp
  moreover have "sorted (map key (kept s xs))"
    using kept_sorted [of s xs] by (auto simp: sorted_map intro: sorted_wrt_mono_rel [rotated])
  ultimately show ?thesis by (metis sort_key_id_if_sorted)
qed

text \<open>Replaying what was kept, in any arrival order, gives the live state.\<close>

lemma replay: "mset ys = mset (kept s xs) \<Longrightarrow> run s (sort_key key ys) = run s xs"
  by (simp add: sort_kept run_kept)

text \<open>A redelivered row is never taken again.\<close>

lemma redelivered: "taken s x \<Longrightarrow> \<not> taken (step s x) x"
  using taken_pos taken_after by blast

end

interpretation event_log: ordered_log "\<lambda>s x. fst (append_authored U s x)"
    "\<lambda>s x. rejectionFor s (event x) = None" row_key "\<lambda>s. map_option cursor_key (cursor s)" for U :: unicode
proof unfold_locales
  fix s x
  show "rejectionFor s (event x) \<noteq> None \<Longrightarrow> fst (append_authored U s x) = s"
    by (auto simp: append_authored_def)
  assume none: "rejectionFor s (event x) = None"
  then show "map_option cursor_key (cursor (fst (append_authored U s x))) = Some (row_key x)"
    by (simp add: append_authored_def consume_simps)
  from none show "map_option cursor_key (cursor s) = Some k \<Longrightarrow> k < row_key x" for k
    by (auto simp: rejectionFor_None)
qed

lemma fold_rows_run: "fst (fold_rows U s xs) = event_log.run U s xs"
  by (induction xs arbitrary: s) (simp_all add: Let_def case_prod_beta)

lemma reduce_run: "reduce U rows = event_log.run U emptyState (orderEvents (parse_rows U rows))"
  by (simp add: reduce_def foldEvents_def Let_def case_prod_beta fold_rows_run)

section \<open>A live session\<close>

text \<open>
  What a server does with the rows it is handed: append each to the current state, and store the
  ones that were consumed.
\<close>

fun live_session :: "unicode \<Rightarrow> core_state \<Rightarrow> raw_row list \<Rightarrow> core_state \<times> raw_row list" where
  "live_session U s [] = (s, [])"
| "live_session U s ((j, c) # rows) =
     (let (s', oc) = appendEvent U s j c; (s'', stored) = live_session U s' rows
      in (s'', if wasConsumed oc then (j, c) # stored else stored))"

lemma append_consumed: "wasConsumed (snd (append_authored U s x)) \<longleftrightarrow> rejectionFor s (event x) = None"
  by (auto simp: append_authored_def consume_simps split: option.splits)

lemma append_rejected: "rejectionFor s (event x) = Some why \<Longrightarrow> fst (append_authored U s x) = s"
  by (simp add: append_authored_def)

lemma event_authored [simp]: "event (authored e c) = e"
  by (simp add: authored_def trusted_context.defs)

lemma live_session_run:
  "fst (live_session U s rows) = event_log.run U s (parse_rows U rows)"
proof (induction rows arbitrary: s)
  case (Cons row rows)
  then show ?case
    by (cases row) (simp add: appendEvent_def Let_def case_prod_beta split: option.splits)
qed simp

lemma live_session_kept:
  "parse_rows U (snd (live_session U s rows)) =
     event_log.kept U s (parse_rows U rows)"
proof (induction rows arbitrary: s)
  case (Cons row rows)
  obtain j c where row: "row = (j, c)" by fastforce
  show ?case
  proof (cases "CoreEvent U j")
    case None
    then show ?thesis using Cons by (simp add: row appendEvent_def Let_def case_prod_beta)
  next
    case (Some e)
    then show ?thesis
      using Cons.IH by (cases "rejectionFor s e")
        (simp_all add: row appendEvent_def Let_def case_prod_beta append_consumed append_rejected)
  qed
qed simp

lemma parse_rows_mset: "mset rows = mset rows' \<Longrightarrow> mset (parse_rows U rows) = mset (parse_rows U rows')"
proof -
  have "mset (parse_rows U rs) = \<Sum>\<^sub># (image_mset (\<lambda>(j, c). case CoreEvent U j of
      None \<Rightarrow> {#} | Some e \<Rightarrow> {#authored e c#}) (mset rs))" for rs
    by (induction U rs rule: parse_rows.induct) (auto split: option.splits)
  then show "mset rows = mset rows' \<Longrightarrow> ?thesis" by simp
qed

lemma orderEvents_sort: "orderEvents xs = sort_key row_key xs"
  by (simp add: orderEvents_def)

end
