(* ===== verification/Reduce_Objects.thy ===== *)
theory Reduce_Objects
  imports Reduce_Fold
begin

text \<open>
  What one consumed event may do to one object record, in three cases: the record was accepted by
  this event, it was corrected by this event, or only its bookkeeping moved (supersession, an
  answer landing).  Every invariant about objects is proved over these three cases, which
  \<open>object_change\<close> states once.
\<close>

section \<open>Bookkeeping changes\<close>

text \<open>Two payloads that say the same thing about the same person, whatever their status.\<close>

fun same_content :: "payload \<Rightarrow> payload \<Rightarrow> bool" where
  "same_content (DecisionPayload s d st) (DecisionPayload s' d' st') \<longleftrightarrow> s = s' \<and> d = d'"
| "same_content (OpenQuestionPayload q st) (OpenQuestionPayload q' st') \<longleftrightarrow> q = q'"
| "same_content p q \<longleftrightarrow> p = q"

lemma same_content_refl [simp]: "same_content p p"
  by (cases p) auto

lemma same_content_trans: "same_content p q \<Longrightarrow> same_content q r \<Longrightarrow> same_content p r"
  by (cases p; cases q; cases r) auto

lemma same_content_facts:
  assumes "same_content p q"
  shows "payload_type q = payload_type p" "attributions q = attributions p"
    "payload_statement q = payload_statement p" "payload_owner q = payload_owner p"
    "payload_claimant q = payload_claimant p" "verified_claim q = verified_claim p"
    "payload_ok q = payload_ok p"
  using assms by (cases p; cases q; auto)+

definition bookkept :: "object_record \<Rightarrow> object_record \<Rightarrow> bool" where
  "bookkept r r' \<longleftrightarrow>
     object_id (object r') = object_id (object r) \<and>
     object_roomId (object r') = object_roomId (object r) \<and>
     object_objectiveId (object r') = object_objectiveId (object r) \<and>
     object_provenance (object r') = object_provenance (object r) \<and>
     object_createdAt (object r') = object_createdAt (object r) \<and>
     same_content (object_payload (object r)) (object_payload (object r')) \<and>
     acceptedAt r' = acceptedAt r \<and> acceptedBy r' = acceptedBy r \<and>
     humanTouchedAt r' = humanTouchedAt r \<and> revision r' = revision r \<and>
     retractedAt r' = retractedAt r \<and> reopenedFromAnswers r' = reopenedFromAnswers r"

lemma bookkept_refl [simp]: "bookkept r r"
  by (simp add: bookkept_def)

lemma bookkept_trans: "bookkept a b \<Longrightarrow> bookkept b c \<Longrightarrow> bookkept a c"
  by (auto simp: bookkept_def intro: same_content_trans)

lemma bookkept_setSuperseded: "bookkept r (setSuperseded r i t)"
  by (auto simp: bookkept_def setSuperseded_def Let_def split: payload.splits)

lemma bookkept_facts:
  assumes "bookkept r r'"
  shows "object_type (object r') = object_type (object r)"
    "attributions (object_payload (object r')) = attributions (object_payload (object r))"
    "payload_statement (object_payload (object r')) = payload_statement (object_payload (object r))"
    "payload_owner (object_payload (object r')) = payload_owner (object_payload (object r))"
    "payload_claimant (object_payload (object r')) = payload_claimant (object_payload (object r))"
    "verified_claim (object_payload (object r')) = verified_claim (object_payload (object r))"
    "epistemicStateOf r' = epistemicStateOf r" "retractedAt r' = retractedAt r" "revision r' = revision r"
    "object_provenance (object r') = object_provenance (object r)"
    "acceptedBy r' = acceptedBy r" "humanTouchedAt r' = humanTouchedAt r"
  using assms same_content_facts [of "object_payload (object r)" "object_payload (object r')"]
  by (auto simp: bookkept_def object_type_def epistemicStateOf_def)

text \<open>A store whose records only changed bookkeeping, with no record lost or added.\<close>

definition store_bookkept :: "object_record store \<Rightarrow> object_record store \<Rightarrow> bool" where
  "store_bookkept os os' \<longleftrightarrow> keys os' = keys os \<and>
     (\<forall>i r'. get os' i = Some r' \<longrightarrow> (\<exists>r. get os i = Some r \<and> bookkept r r'))"

lemma store_bookkept_refl [simp]: "store_bookkept os os"
  by (auto simp: store_bookkept_def)

lemma store_bookkept_trans: "store_bookkept a b \<Longrightarrow> store_bookkept b c \<Longrightarrow> store_bookkept a c"
  by (fastforce simp: store_bookkept_def intro: bookkept_trans)

lemma store_bookkept_put:
  "get os i = Some r \<Longrightarrow> bookkept r r' \<Longrightarrow> store_bookkept os (put i r' os)"
  by (auto simp: store_bookkept_def keys_put)

lemma release_edges_bookkept: "store_bookkept (objects s) (objects (release_edges i t es s))"
proof (induction i t es s rule: release_edges.induct)
  case (2 i t e es s)
  show ?case
    by (simp, rule store_bookkept_trans [OF _ 2])
       (auto split: relation_target.splits option.splits
         intro!: store_bookkept_put bookkept_setSuperseded)
qed simp

lemma reapply_edges_bookkept: "store_bookkept (objects s) (objects (reapply_edges i t es s))"
proof (induction i t es s rule: reapply_edges.induct)
  case (2 i t e es s)
  show ?case
    by (simp, rule store_bookkept_trans [OF _ 2])
       (auto split: relation_target.splits option.splits
         intro!: store_bookkept_put bookkept_setSuperseded)
qed simp

lemma supersedes_effect_bookkept: "store_bookkept (objects s) (objects (supersedes_effect r t s))"
  by (auto simp: supersedes_effect_def split: relation_kind.splits relation_target.splits option.splits
      intro!: store_bookkept_put bookkept_setSuperseded)

lemma answers_effect_bookkept: "store_bookkept (objects s) (objects (answers_effect r t s))"
  by (auto simp: answers_effect_def bookkept_def split: option.splits payload.splits
      intro!: store_bookkept_put)

lemma commitPlan_bookkept:
  "store_bookkept (put (corrected_objectId e) (corrected_record e r a p) (objects s))
     (objects (commitPlan s e r a p))"
proof -
  let ?s = "s\<lparr>corrections := corrections s @ [correction_entry e r a p],
    objects := put (corrected_objectId e) (corrected_record e r a p) (objects s)\<rparr>"
  have "store_bookkept (objects ?s) (objects (release_edges i t es ?s))"
    and "store_bookkept (objects ?s) (objects (reapply_edges i t es ?s))" for i t es
    by (rule release_edges_bookkept, rule reapply_edges_bookkept)
  then show ?thesis
    by (simp add: commitPlan_def releaseSupersessions_def reapplySupersessions_def Let_def
        split: after_commit.split)
qed

section \<open>The three cases\<close>

lemma applyObjectAccepted_objects:
  "objects (fst (applyObjectAccepted U s eid t ob a ms)) =
     (if acceptance_refusal U s ob a ms = None then put (object_id ob) (accepted_record t ob a) (objects s)
      else objects s)"
  by (auto simp: applyObjectAccepted_def refuse_def mark_accepted_frame split: option.splits)

lemma proposal_handlers_objects:
  "objects (fst (applyProposalRecorded s i p a)) = objects s"
  "objects (fst (applyProposalRejected s i pid why a)) = objects s"
  "objects (fst (applyProposalSuperseded s i pid b why a)) = objects s"
  by (auto simp: applyProposalRecorded_def applyProposalRejected_def applyProposalSuperseded_def
      refuse_def Let_def split: option.splits)

lemma applyRelationAdded_objects:
  "store_bookkept (objects s) (objects (fst (applyRelationAdded s i t r a)))"
proof -
  let ?s = "s\<lparr>relations := relations s @ [r]\<rparr>"
  have "store_bookkept (objects ?s) (objects (answers_effect r t (supersedes_effect r t ?s)))"
    by (rule store_bookkept_trans [OF supersedes_effect_bookkept answers_effect_bookkept])
  then show ?thesis
    by (auto simp: applyRelationAdded_def refuse_def split: option.splits)
qed

lemma acceptance_fresh: "acceptance_refusal U s ob a ms = None \<Longrightarrow> get (objects s) (object_id ob) = None"
  by (simp add: acceptance_refusal_def acceptance_floor_refusal_def)

definition accepts :: "unicode \<Rightarrow> core_state \<Rightarrow> authored_event \<Rightarrow> jstr \<Rightarrow> object_record \<Rightarrow> bool" where
  "accepts U s x i r' \<longleftrightarrow> (\<exists>eid t ob. event x = ObjectAccepted eid t ob \<and> object_id ob = i \<and>
     get (objects s) i = None \<and> acceptance_refusal U s ob (actor x) (messages x) = None \<and>
     r' = accepted_record t ob (actor x))"

definition corrects :: "core_state \<Rightarrow> authored_event \<Rightarrow> jstr \<Rightarrow> object_record \<Rightarrow> object_record \<Rightarrow> bool" where
  "corrects s x i r r' \<longleftrightarrow> (\<exists>c p. event x = ObjectCorrected c \<and> corrected_objectId c = i \<and>
     get (objects s) i = Some r \<and> isHuman (actor x) \<and> planCorrection s c r = Planned p \<and>
     correction_gates s c (actor x) r p = None \<and>
     bookkept (corrected_record c r (actor x) (lapse_plan (object r) p)) r')"

lemma object_change:
  assumes "get (objects (fst (dispatch U s x))) i = Some r'"
  shows "(\<exists>r. get (objects s) i = Some r \<and> bookkept r r') \<or> accepts U s x i r' \<or> (\<exists>r. corrects s x i r r')"
proof (cases "event x")
  case (ObjectAccepted eid t ob)
  show ?thesis
  proof (cases "acceptance_refusal U s ob (actor x) (messages x) = None \<and> i = object_id ob")
    case True
    then show ?thesis
      using assms ObjectAccepted acceptance_fresh
      by (auto simp: dispatch_def applyObjectAccepted_objects accepts_def)
  next
    case False
    then show ?thesis
      using assms ObjectAccepted by (auto simp: dispatch_def applyObjectAccepted_objects split: if_splits)
  qed
next
  case (ObjectCorrected c)
  then have upd: "get (objects (fst (applyObjectCorrected s c (actor x)))) i = Some r'"
    using assms by (simp add: dispatch_def)
  show ?thesis
  proof (rule applyObjectCorrected_cases [of s c "actor x"])
    fix r p
    assume r: "get (objects s) (corrected_objectId c) = Some r" and h: "isHuman (actor x)"
      and p: "planCorrection s c r = Planned p" and g: "correction_gates s c (actor x) r p = None"
      and res: "applyObjectCorrected s c (actor x) = (commitPlan s c r (actor x) (lapse_plan (object r) p), True)"
    obtain q where q: "get (put (corrected_objectId c) (corrected_record c r (actor x) (lapse_plan (object r) p))
        (objects s)) i = Some q" "bookkept q r'"
      using upd commitPlan_bookkept [of c r "actor x" "lapse_plan (object r) p" s]
      unfolding res store_bookkept_def by auto
    then show ?thesis
      using r h p g ObjectCorrected by (auto simp: corrects_def split: if_splits)
  qed (use upd in \<open>auto simp: refuse_def\<close>)
next
  case (RelationAdded eid t r)
  then show ?thesis
    using assms applyRelationAdded_objects [of s eid t r "actor x"]
    by (auto simp: dispatch_def store_bookkept_def)
qed (use assms in \<open>auto simp: dispatch_def proposal_handlers_objects\<close>)

lemma dispatch_keeps_objects: "set (keys (objects s)) \<subseteq> set (keys (objects (fst (dispatch U s x))))"
proof (cases "event x")
  case (ObjectAccepted eid t ob)
  then show ?thesis
    by (auto simp: dispatch_def applyObjectAccepted_objects keys_put)
next
  case (ObjectCorrected c)
  show ?thesis
  proof (rule applyObjectCorrected_cases [of s c "actor x"])
    fix r p
    assume "applyObjectCorrected s c (actor x) = (commitPlan s c r (actor x) (lapse_plan (object r) p), True)"
    then show ?thesis
      using commitPlan_bookkept [of c r "actor x" "lapse_plan (object r) p" s] ObjectCorrected
      by (auto simp: dispatch_def store_bookkept_def keys_put split: if_splits)
  qed (auto simp: ObjectCorrected dispatch_def refuse_def)
next
  case (RelationAdded eid t r)
  then show ?thesis
    using applyRelationAdded_objects [of s eid t r "actor x"]
    by (auto simp: dispatch_def store_bookkept_def)
qed (auto simp: dispatch_def proposal_handlers_objects)

section \<open>What a plan leaves alone\<close>

text \<open>No verb moves an object to another id, room, objective, or receipt.\<close>

definition same_envelope :: "accepted_object \<Rightarrow> accepted_object \<Rightarrow> bool" where
  "same_envelope a b \<longleftrightarrow> object_id b = object_id a \<and> object_roomId b = object_roomId a \<and>
     object_objectiveId b = object_objectiveId a \<and> object_provenance b = object_provenance a \<and>
     object_createdAt b = object_createdAt a"

lemma opt_json_parse [simp]: "nullable (refined P) (opt_json JStr x) = Some y \<longleftrightarrow> y = x \<and> pred_option P x"
  by (cases x) (auto simp: nullable_def opt_json_def)

lemma array_of_ids_iff [simp]:
  "array_of (refined P) (JArr (map JStr xs)) = Some ys \<longleftrightarrow> ys = xs \<and> list_all P xs"
proof -
  have "array_schema (refined P) (map JStr xs) = Some ys \<longleftrightarrow> ys = xs \<and> list_all P xs"
    by (induction xs arbitrary: ys) (auto simp: bind_eq_Some_conv)
  then show ?thesis by (simp add: array_of_def)
qed

lemma provenance_parse: "Provenance (provenance_json p) = Some q \<longleftrightarrow> q = p \<and> provenance_ok p"
  by (auto simp: Provenance_def provenance_json_def object_schema_def defaulted_def provenance_ok_def
      bind_eq_Some_conv)

lemma retyped_parse:
  assumes "AcceptedObject (retyped_json ob ty fs t) = Some ob'"
  shows "same_envelope ob ob'" and "object_type ob' = ty"
    and "objectPayloadByType ty fs = Some (object_payload ob')"
    and "object_updatedAt ob' = t" and "object_ok ob'"
proof -
  from assms show env: "same_envelope ob ob'" and pay: "objectPayloadByType ty fs = Some (object_payload ob')"
    and "object_updatedAt ob' = t"
    by (auto simp: AcceptedObject_def retyped_json_def object_schema_def required_def defaulted_def
        bind_eq_Some_conv provenance_parse same_envelope_def split: if_splits)
  from payload_schema_ok [OF pay] show "object_type ob' = ty" by (simp add: object_type_def)
  from assms show "object_ok ob'" by (rule object_schema_sound)
qed

lemma planned_envelope:
  assumes "planCorrection s c r = Planned p"
  shows "same_envelope (object r) (plan_object p)"
  using assms
  by (auto simp: planCorrection_def planRetype_def planReopen_def planPayloadEdit_def edit_plan_def
      applyPayloadPatch_def same_envelope_def Let_def
      split: if_splits option.splits payload.splits dest!: retyped_parse(1))

lemma lapse_envelope: "same_envelope a (plan_object (lapse_plan b p)) = same_envelope a (plan_object p)"
  by (auto simp: lapse_plan_def same_envelope_def Let_def)

end
