(* ===== verification/Invariants.thy ===== *)
theory Invariants
  imports Reduce_Objects
begin

text \<open>
  Reachable states, with the rows that were consumed to reach them, and the invariants of object
  records.  An invariant relates a record to the rows consumed so far; \<open>object_invariant\<close> says
  what has to be checked for it (the three cases of \<open>object_change\<close>) and concludes that every
  record of every reachable state has it.
\<close>

section \<open>Reachable states\<close>

definition parsed_event :: "unicode \<Rightarrow> core_event \<Rightarrow> bool" where
  "parsed_event U e \<longleftrightarrow> (\<exists>j. CoreEvent U j = Some e)"

inductive folds :: "unicode \<Rightarrow> authored_event list \<Rightarrow> core_state \<Rightarrow> bool" for U :: unicode where
  start: "folds U [] emptyState"
| step: "folds U xs s \<Longrightarrow> parsed_event U (event x) \<Longrightarrow> rejectionFor s (event x) = None \<Longrightarrow>
    folds U (xs @ [x]) (fst (consume U s x))"

lemma folds_append:
  "folds U xs s \<Longrightarrow> parsed_event U (event x) \<Longrightarrow> \<exists>ys. folds U (xs @ ys) (fst (append_authored U s x)) \<and> set ys \<subseteq> {x}"
proof (cases "rejectionFor s (event x)")
  case None
  assume "folds U xs s" and "parsed_event U (event x)"
  with None have "folds U (xs @ [x]) (fst (consume U s x))" by (intro folds.step)
  with None show ?thesis by (auto simp: append_authored_def intro: exI [of _ "[x]"])
next
  case (Some why)
  assume "folds U xs s"
  with Some show ?thesis by (auto simp: append_authored_def intro: exI [of _ "[]"])
qed

lemma folds_run:
  "folds U xs s \<Longrightarrow> \<forall>y \<in> set ys. parsed_event U (event y) \<Longrightarrow>
     \<exists>zs. folds U (xs @ zs) (event_log.run U s ys) \<and> set zs \<subseteq> set ys"
proof (induction ys arbitrary: xs s)
  case Nil
  then show ?case by (auto intro: exI [of _ "[]"])
next
  case (Cons y ys)
  then obtain us where us: "folds U (xs @ us) (fst (append_authored U s y))" "set us \<subseteq> {y}"
    using folds_append [of U xs s y] by auto
  obtain zs where "folds U ((xs @ us) @ zs) (event_log.run U s (y # ys))" "set zs \<subseteq> set ys"
    using Cons.IH [OF us(1)] Cons.prems(2) by (auto simp del: append_assoc)
  with us show ?case by (intro exI [of _ "us @ zs"]) auto
qed

lemma parse_rows_parsed: "x \<in> set (parse_rows U rows) \<Longrightarrow> parsed_event U (event x)"
  by (induction "U" rows rule: parse_rows.induct)
     (auto simp: parsed_event_def split: option.splits)

text \<open>Every state the reducer returns is reachable by rows of the log it was given.\<close>

lemma reduce_folds: "\<exists>xs. folds U xs (reduce U rows) \<and> set xs \<subseteq> set (parse_rows U rows)"
  using folds_run [OF folds.start, of "orderEvents (parse_rows U rows)" U]
  by (auto simp: reduce_run orderEvents_def parse_rows_parsed)

section \<open>Events that parsed\<close>

fun event_ok :: "core_event \<Rightarrow> bool" where
  "event_ok (ObjectAccepted i t ob) \<longleftrightarrow> Id i \<and> Timestamp t \<and> object_ok ob"
| "event_ok (ObjectCorrected c) \<longleftrightarrow> Id (corrected_id c) \<and> Timestamp (corrected_at c) \<and> Id (corrected_objectId c)"
| "event_ok e \<longleftrightarrow> Id (event_id e) \<and> Timestamp (event_at e)"

lemma parsed_event_ok: "parsed_event U e \<Longrightarrow> event_ok e"
  by (auto simp: parsed_event_def CoreEvent_def CoreEventVariants_def object_schema_Some required_def
      ObjectCorrected_schema_def bind_eq_Some_conv split: if_splits dest: object_schema_sound)

section \<open>Plans keep payloads well-formed\<close>

lemma applyPayloadPatch_ok:
  assumes "applyPayloadPatch ob fs = Some ob'"
  shows "object_type ob' = object_type ob" and "payload_ok (object_payload ob')" and "same_envelope ob ob'"
  using assms by (auto simp: applyPayloadPatch_def same_envelope_def object_type_def dest: payload_schema_ok)

lemma lapse_plan_facts:
  "object_type (plan_object (lapse_plan b p)) = object_type (plan_object p)"
  "payload_owner (object_payload (plan_object (lapse_plan b p))) = payload_owner (object_payload (plan_object p))"
  "payload_claimant (object_payload (plan_object (lapse_plan b p))) = payload_claimant (object_payload (plan_object p))"
  "attributions (object_payload (plan_object (lapse_plan b p))) = attributions (object_payload (plan_object p))"
  "payload_statement (object_payload (plan_object (lapse_plan b p))) = payload_statement (object_payload (plan_object p))"
  "payload_ok (object_payload (plan_object (lapse_plan b p))) = payload_ok (object_payload (plan_object p))"
  "plan_retractedAt (lapse_plan b p) = plan_retractedAt p"
  "afterCommit (lapse_plan b p) = afterCommit p"
  by (cases "object_payload (plan_object p)"; simp add: lapse_plan_def Let_def object_type_def)+

section \<open>Object invariants\<close>

locale object_invariant =
  fixes U :: unicode
    and P :: "authored_event list \<Rightarrow> jstr \<Rightarrow> object_record \<Rightarrow> bool"
  assumes later: "P xs i r \<Longrightarrow> P (xs @ [x :: authored_event]) i r"
    and bookkeeping: "P xs i r \<Longrightarrow> bookkept r r' \<Longrightarrow> P xs i r'"
    and acceptance: "parsed_event U (event (x :: authored_event)) \<Longrightarrow> accepts U s x i r \<Longrightarrow> P (xs @ [x]) i r"
    and correction: "parsed_event U (event (x :: authored_event)) \<Longrightarrow> event x = ObjectCorrected c \<Longrightarrow>
      corrected_objectId c = i \<Longrightarrow> actor x = Human u \<Longrightarrow> get (objects s) i = Some r \<Longrightarrow>
      planCorrection s c r = Planned p \<Longrightarrow> correction_gates s c (Human u) r p = None \<Longrightarrow>
      P xs i r \<Longrightarrow> P (xs @ [x]) i (corrected_record c r (Human u) (lapse_plan (object r) p))"
begin

lemma holds: "folds U xs s \<Longrightarrow> get (objects s) i = Some r \<Longrightarrow> P xs i r"
proof (induction arbitrary: i r rule: folds.induct)
  case start
  then show ?case by (simp add: emptyState_def)
next
  case (step xs s x)
  from step.prems have "get (objects (fst (dispatch U s x))) i = Some r"
    by (simp add: consume_simps)
  from object_change [OF this] show ?case
  proof (elim disjE exE conjE)
    fix q assume "get (objects s) i = Some q" and "bookkept q r"
    with step.IH show ?thesis by (blast intro: later bookkeeping)
  next
    assume "accepts U s x i r"
    with step.hyps(2) show ?thesis by (rule acceptance)
  next
    fix q assume "corrects s x i q r"
    then obtain c p u where c: "event x = ObjectCorrected c" "corrected_objectId c = i" "actor x = Human u"
      "get (objects s) i = Some q" "planCorrection s c q = Planned p" "correction_gates s c (Human u) q p = None"
      and book: "bookkept (corrected_record c q (Human u) (lapse_plan (object q) p)) r"
      by (auto simp: corrects_def isHuman_iff)
    from correction [OF step.hyps(2) c step.IH [OF c(4)]] book show ?thesis
      by (rule bookkeeping)
  qed
qed

end

text \<open>The first invariant: a record is stored under its own id and its object parses.\<close>

definition wf_object :: "jstr \<Rightarrow> object_record \<Rightarrow> bool" where
  "wf_object i r \<longleftrightarrow> object_id (object r) = i \<and> Id i \<and> Id (object_roomId (object r)) \<and>
     pred_option Id (object_objectiveId (object r)) \<and> provenance_ok (object_provenance (object r)) \<and>
     payload_ok (object_payload (object r)) \<and> Timestamp (object_createdAt (object r))"

lemma corrected_record_simps [simp]:
  "object (corrected_record c r a p) = plan_object p"
  "acceptedBy (corrected_record c r a p) = acceptedBy r"
  "acceptedAt (corrected_record c r a p) = acceptedAt r"
  "revision (corrected_record c r a p) = revision r + 1"
  "supersededById (corrected_record c r a p) = supersededById r"
  "retractedAt (corrected_record c r a p) =
     (case plan_retractedAt p of None \<Rightarrow> retractedAt r | Some v \<Rightarrow> v)"
  "humanTouchedAt (corrected_record c r (Human u) p) =
     (if humanTouchedAt r = None then Some (corrected_at c) else humanTouchedAt r)"
  by (simp_all add: corrected_record_def)

lemma planned_payload_ok:
  assumes "planCorrection s c r = Planned p" and "payload_ok (object_payload (object r))"
  shows "payload_ok (object_payload (plan_object p))"
proof -
  from assms(1) consider "plan_object p = object r"
    | ob where "applyPayloadPatch (object r) (patch c) = Some ob" "plan_object p = ob\<lparr>object_updatedAt := corrected_at c\<rparr>"
    | fs ty where "AcceptedObject (retyped_json (object r) ty fs (corrected_at c)) = Some (plan_object p)"
    | q where "plan_object p = (object r)\<lparr>object_payload := q, object_updatedAt := corrected_at c\<rparr>"
        "payload_ok (object_payload (object r)) \<Longrightarrow> payload_ok q"
    by (auto simp: planCorrection_def planRetype_def planReopen_def planPayloadEdit_def edit_plan_def Let_def
        split: if_splits option.splits payload.splits)
  then show ?thesis
  proof cases
    case 2
    then show ?thesis using applyPayloadPatch_ok [OF 2(1)] by simp
  next
    case 3
    from retyped_parse(5) [OF this] show ?thesis by (simp add: object_ok_def)
  qed (use assms(2) in auto)
qed

interpretation wf: object_invariant U "\<lambda>xs. wf_object" for U
proof unfold_locales
  fix x :: authored_event and s i r and xs :: "authored_event list"
  assume "parsed_event U (event x)" and "accepts U s x i r"
  then show "wf_object i r"
    by (auto simp: accepts_def wf_object_def accepted_record_def object_ok_def dest!: parsed_event_ok)
next
  fix x :: authored_event and c i u s r p and xs :: "authored_event list"
  assume "planCorrection s c r = Planned p" and "wf_object i r"
  with planned_envelope [of s c r p] planned_payload_ok [of s c r p]
  show "wf_object i (corrected_record c r (Human u) (lapse_plan (object r) p))"
    using lapse_envelope [of "object r" "object r" p] lapse_plan_facts(6) [of "object r" p]
    by (auto simp: wf_object_def same_envelope_def)
qed (auto simp: wf_object_def bookkept_def same_content_facts(7))

text \<open>Invariants of content: as before, with the records known to be well-formed.\<close>

locale content_invariant =
  fixes U :: unicode
    and Q :: "authored_event list \<Rightarrow> jstr \<Rightarrow> object_record \<Rightarrow> bool"
  assumes content_later: "Q xs i r \<Longrightarrow> Q (xs @ [x :: authored_event]) i r"
    and content_bookkeeping: "Q xs i r \<Longrightarrow> bookkept r r' \<Longrightarrow> Q xs i r'"
    and content_acceptance: "event (x :: authored_event) = ObjectAccepted eid t ob \<Longrightarrow> object_id ob = i \<Longrightarrow> object_ok ob \<Longrightarrow>
      acceptance_refusal U s ob (actor x) (messages x) = None \<Longrightarrow>
      Q (xs @ [x]) i (accepted_record t ob (actor x))"
    and content_correction: "event (x :: authored_event) = ObjectCorrected c \<Longrightarrow> corrected_objectId c = i \<Longrightarrow> actor x = Human u \<Longrightarrow>
      wf_object i r \<Longrightarrow> planCorrection s c r = Planned p \<Longrightarrow> payload_ok (object_payload (plan_object p)) \<Longrightarrow>
      correction_gates s c (Human u) r p = None \<Longrightarrow>
      Q xs i r \<Longrightarrow> Q (xs @ [x]) i (corrected_record c r (Human u) (lapse_plan (object r) p))"

sublocale content_invariant \<subseteq> object_invariant U "\<lambda>xs i r. wf_object i r \<and> Q xs i r"
proof unfold_locales
  fix x :: authored_event and s i r and xs :: "authored_event list"
  assume ok: "parsed_event U (event x)" and acc: "accepts U s x i r"
  from acc obtain eid t ob where e: "event x = ObjectAccepted eid t ob" "object_id ob = i"
    "acceptance_refusal U s ob (actor x) (messages x) = None" "r = accepted_record t ob (actor x)"
    by (auto simp: accepts_def)
  from parsed_event_ok [OF ok] e(1) have "object_ok ob" by simp
  with e content_acceptance wf.acceptance [OF ok acc] show "wf_object i r \<and> Q (xs @ [x]) i r" by blast
next
  fix x :: authored_event and c i u s r p and xs :: "authored_event list"
  assume h: "parsed_event U (event x)" "event x = ObjectCorrected c" "corrected_objectId c = i"
    "actor x = Human u" "get (objects s) i = Some r" "planCorrection s c r = Planned p"
    "correction_gates s c (Human u) r p = None" and q: "wf_object i r \<and> Q xs i r"
  then have "payload_ok (object_payload (plan_object p))"
    by (intro planned_payload_ok) (auto simp: wf_object_def)
  with h q show "wf_object i (corrected_record c r (Human u) (lapse_plan (object r) p)) \<and>
      Q (xs @ [x]) i (corrected_record c r (Human u) (lapse_plan (object r) p))"
    using wf.correction [OF h] content_correction by blast
qed (use wf.bookkeeping content_later content_bookkeeping in blast)+

end
