(* ===== verification/Certification.thy ===== *)
theory Certification
  imports Invariants
begin

text \<open>
  Who certified what: the invariants that make the record trustworthy.  Each is an interpretation
  of \<open>content_invariant\<close>, so it is checked against the acceptance gates and the correction gates
  and holds in every reachable state.
\<close>

section \<open>What the gates let through\<close>

lemma acceptance_gates:
  assumes "acceptance_refusal U s ob a ms = None"
  shows acceptance_by_machine: "\<not> isHuman a \<Longrightarrow> (object_type ob = Claim \<or> object_type ob = OpenQuestion) \<and>
      \<not> verified_claim (object_payload ob) \<and> proposalId (object_provenance ob) \<noteq> None"
    and acceptance_by_owner: "a = Human u \<Longrightarrow> payload_owner (object_payload ob) = Some w \<Longrightarrow> u = w"
    and acceptance_by_verifier: "a = Human u \<Longrightarrow> verified_claim (object_payload ob) \<Longrightarrow>
      payload_claimant (object_payload ob) = Some c \<Longrightarrow> u \<noteq> c"
proof -
  from assms have floor: "acceptance_floor_refusal s ob a = None" and person: "person_refusal s ob a = None"
    by (simp_all add: acceptance_refusal_def)
  show "\<not> isHuman a \<Longrightarrow> (object_type ob = Claim \<or> object_type ob = OpenQuestion) \<and>
      \<not> verified_claim (object_payload ob) \<and> proposalId (object_provenance ob) \<noteq> None"
    using floor by (cases "object_type ob") (auto simp: acceptance_floor_refusal_def)
  show "a = Human u \<Longrightarrow> payload_owner (object_payload ob) = Some w \<Longrightarrow> u = w"
    using person by (cases "object_payload ob") (auto simp: person_refusal_def Let_def ownerConfirm_None)
  show "a = Human u \<Longrightarrow> verified_claim (object_payload ob) \<Longrightarrow>
      payload_claimant (object_payload ob) = Some c \<Longrightarrow> u \<noteq> c"
    using person by (cases "object_payload ob") (auto simp: person_refusal_def Let_def selfVerification_None)
qed

lemma correction_gates_None:
  assumes "correction_gates s c (Human u) r p = None"
  shows gate_attribution: "set (attributions (object_payload (plan_object p))) \<subseteq>
        insert u (set (attributions (object_payload (object r))))"
    and gate_reword: "payload_statement (object_payload (plan_object p)) \<noteq> payload_statement (object_payload (object r)) \<Longrightarrow>
        set (attributions (object_payload (plan_object p))) \<subseteq> {u}"
    and gate_takes_on: "payload_owner (object_payload (plan_object p)) = Some w \<Longrightarrow>
        object_type (object r) \<noteq> Commitment \<Longrightarrow> u = w"
    and gate_verifies: "becomes_verified (object_payload (object r))
          (object_payload (plan_object (lapse_plan (object r) p))) \<Longrightarrow>
        payload_claimant (object_payload (plan_object p)) = Some c' \<Longrightarrow> u \<noteq> c'"
    and gate_retract: "corrected_action c = Retract \<Longrightarrow> \<not> verified_claim (object_payload (object r))"
proof -
  from assms have attr: "correctionAttributionRefusal (Human u) (corrected_objectId c) (corrected_action c)
      (object r) (plan_object p) = None"
    and takes: "takes_on_refusal (Human u) (object r) (plan_object p) = None"
    and ver: "verification_refusal s (Human u) (object r) (plan_object (lapse_plan (object r) p)) = None"
    and ret: "corrected_action c = Retract \<Longrightarrow> retractVerifiedClaimRefusal (Human u) (object r) = None"
    by (auto simp: correction_gates_def)
  from attr show "set (attributions (object_payload (plan_object p))) \<subseteq>
        insert u (set (attributions (object_payload (object r))))"
    and "payload_statement (object_payload (plan_object p)) \<noteq> payload_statement (object_payload (object r)) \<Longrightarrow>
        set (attributions (object_payload (plan_object p))) \<subseteq> {u}"
    by (auto simp: correctionAttribution_None)
  from takes show "payload_owner (object_payload (plan_object p)) = Some w \<Longrightarrow>
        object_type (object r) \<noteq> Commitment \<Longrightarrow> u = w"
    by (simp add: takes_on_refusal_def ownerConfirm_None)
  from ver show "becomes_verified (object_payload (object r))
          (object_payload (plan_object (lapse_plan (object r) p))) \<Longrightarrow>
        payload_claimant (object_payload (plan_object p)) = Some c' \<Longrightarrow> u \<noteq> c'"
    by (simp add: verification_refusal_def lapse_plan_facts selfVerification_None)
  from ret show "corrected_action c = Retract \<Longrightarrow> \<not> verified_claim (object_payload (object r))"
    by (simp add: retractVerifiedClaimRefusal_def split: if_splits)
qed

section \<open>A commitment's owner took it on\<close>

fun acts_on :: "core_event \<Rightarrow> jstr option" where
  "acts_on (ObjectAccepted i t ob) = Some (object_id ob)"
| "acts_on (ObjectCorrected c) = Some (corrected_objectId c)"
| "acts_on _ = None"

definition acted :: "authored_event list \<Rightarrow> jstr \<Rightarrow> jstr \<Rightarrow> bool" where
  "acted xs u i \<longleftrightarrow> (\<exists>x \<in> set xs. actor x = Human u \<and> acts_on (event x) = Some i)"

lemma acted_mono: "acted xs u i \<Longrightarrow> acted (xs @ ys) u i"
  by (auto simp: acted_def)

lemma owner_attributed:
  "payload_ok p \<Longrightarrow> payload_owner p = Some w \<Longrightarrow> attributions p = [w]"
  by (cases p) (auto dest: Id_nonempty)

lemma claimant_attributed:
  "payload_ok p \<Longrightarrow> payload_claimant p = Some c \<Longrightarrow> attributions p = [c]"
  by (cases p) (auto dest: Id_nonempty)

lemma owner_type: "payload_owner p = Some w \<Longrightarrow> payload_type p = Commitment"
  by (cases p) auto

lemma commitment_owner: "payload_type p = Commitment \<Longrightarrow> \<exists>w. payload_owner p = Some w"
  by (cases p) auto

definition owner_acted :: "authored_event list \<Rightarrow> jstr \<Rightarrow> object_record \<Rightarrow> bool" where
  "owner_acted xs i r \<longleftrightarrow> (\<forall>w. payload_owner (object_payload (object r)) = Some w \<longrightarrow> acted xs w i)"

interpretation owners: content_invariant U owner_acted for U
proof unfold_locales
  fix xs i r and x :: authored_event
  show "owner_acted xs i r \<Longrightarrow> owner_acted (xs @ [x]) i r"
    by (simp add: owner_acted_def acted_mono)
next
  fix xs i r r'
  assume "owner_acted xs i r" and "bookkept r r'"
  then show "owner_acted xs i r'"
    by (simp add: owner_acted_def bookkept_facts [OF \<open>bookkept r r'\<close>])
next
  fix x :: authored_event and eid t ob i s and xs :: "authored_event list"
  assume e: "event x = ObjectAccepted eid t ob" "object_id ob = i"
    and acc: "acceptance_refusal U s ob (actor x) (messages x) = None"
  show "owner_acted (xs @ [x]) i (accepted_record t ob (actor x))"
    unfolding owner_acted_def
  proof (intro allI impI)
    fix w assume w: "payload_owner (object_payload (object (accepted_record t ob (actor x)))) = Some w"
    then have own: "payload_owner (object_payload ob) = Some w" by (simp add: accepted_record_def)
    have "isHuman (actor x)"
      using acceptance_by_machine [OF acc] owner_type [OF own] by (auto simp: object_type_def)
    then obtain u where u: "actor x = Human u" by (auto simp: isHuman_iff)
    with acceptance_by_owner [OF acc u own] e show "acted (xs @ [x]) w i"
      by (simp add: acted_def)
  qed
next
  fix x :: authored_event and c i u s r p and xs :: "authored_event list"
  assume e: "event x = ObjectCorrected c" "corrected_objectId c = i" "actor x = Human u"
    and wf: "wf_object i r" and ok: "payload_ok (object_payload (plan_object p))"
    and gates: "correction_gates s c (Human u) r p = None" and IH: "owner_acted xs i r"
  have here: "acted (xs @ [x]) u i" using e by (simp add: acted_def)
  show "owner_acted (xs @ [x]) i (corrected_record c r (Human u) (lapse_plan (object r) p))"
    unfolding owner_acted_def
  proof (intro allI impI)
    fix w assume "payload_owner (object_payload (object (corrected_record c r (Human u) (lapse_plan (object r) p)))) = Some w"
    then have own: "payload_owner (object_payload (plan_object p)) = Some w"
      by (simp add: lapse_plan_facts)
    show "acted (xs @ [x]) w i"
    proof (cases "object_type (object r) = Commitment")
      case True
      then obtain v where v: "payload_owner (object_payload (object r)) = Some v"
        using commitment_owner by (auto simp: object_type_def)
      then have "attributions (object_payload (object r)) = [v]"
        using wf owner_attributed by (simp add: wf_object_def)
      then have "w = u \<or> w = v"
        using gate_attribution [OF gates] owner_attributed [OF ok own] by auto
      then show ?thesis
        using here IH v by (auto simp: owner_acted_def acted_mono)
    next
      case False
      with gate_takes_on [OF gates own] here show ?thesis by simp
    qed
  qed
qed

section \<open>A verified claim was vouched for by someone else\<close>

fun vouches :: "core_event \<Rightarrow> jstr \<Rightarrow> bool" where
  "vouches (ObjectAccepted i t ob) oid \<longleftrightarrow> object_id ob = oid \<and> verified_claim (object_payload ob)"
| "vouches (ObjectCorrected c) oid \<longleftrightarrow> corrected_objectId c = oid \<and>
     field (patch c) ''verification'' = Some (jstring ''verified'')"
| "vouches _ oid \<longleftrightarrow> False"

definition vouched :: "authored_event list \<Rightarrow> jstr \<Rightarrow> object_record \<Rightarrow> bool" where
  "vouched xs i r \<longleftrightarrow> (\<forall>c. verified_claim (object_payload (object r)) \<and>
     payload_claimant (object_payload (object r)) = Some c \<longrightarrow>
     (\<exists>x \<in> set xs. \<exists>u. actor x = Human u \<and> u \<noteq> c \<and> vouches (event x) i))"

lemma verified_enum: "enum_schema verifications j = Some Verified \<longleftrightarrow> j = jstring ''verified''"
  by (cases j) (auto simp: enum_schema_def verifications_def)

lemma schema_verified:
  assumes "objectPayloadByType ty fs = Some p" and "verified_claim p"
  shows "ty = Claim" and "field fs ''verification'' = Some (jstring ''verified'')"
proof -
  from assms show "ty = Claim"
    using payload_schema_ok [OF assms(1)] by (cases p) auto
  with assms show "field fs ''verification'' = Some (jstring ''verified'')"
    by (auto simp: ClaimPayload_schema_def bind_eq_Some_conv defaulted_def verified_enum split: option.splits)
qed

lemma carried_verification: "field (retypeCarryOver ob Claim) ''verification'' = None"
  by (cases "object_payload ob") (auto simp: retypeCarryOver_def Let_def object_type_def opt_json_def
      split: option.splits)

lemma payload_verification:
  "field (payload_fields p) ''verification'' = Some (jstring ''verified'') \<Longrightarrow> verified_claim p"
proof (cases p)
  case (ClaimPayload s c v)
  then show "field (payload_fields p) ''verification'' = Some (jstring ''verified'') \<Longrightarrow> verified_claim p"
    by (cases v) auto
qed auto

text \<open>A correction turns a claim verified only by saying so in its patch.\<close>

lemma plan_verifies:
  assumes plan: "planCorrection s c r = Planned p"
    and becomes: "becomes_verified (object_payload (object r)) (object_payload (plan_object p))"
  shows "field (patch c) ''verification'' = Some (jstring ''verified'')"
proof -
  from plan becomes consider
      (edit) ob where "applyPayloadPatch (object r) (patch c) = Some ob" "object_payload (plan_object p) = object_payload ob"
    | (retype) ty where "AcceptedObject (retyped_json (object r) ty (patch c @ retypeCarryOver (object r) ty) (corrected_at c))
        = Some (plan_object p)"
    by (auto simp: planCorrection_def planRetype_def planReopen_def planPayloadEdit_def edit_plan_def Let_def
        becomes_verified_def split: if_splits option.splits payload.splits)
  then show ?thesis
  proof cases
    case edit
    then have "objectPayloadByType (object_type (object r)) (patch c @ payload_fields (object_payload (object r)))
        = Some (object_payload (plan_object p))"
      by (auto simp: applyPayloadPatch_def)
    from schema_verified [OF this] becomes show ?thesis
      by (auto simp: becomes_verified_def field_append payload_verification split: option.splits)
  next
    case retype
    from retyped_parse(3) [OF this] have
      "objectPayloadByType ty (patch c @ retypeCarryOver (object r) ty) = Some (object_payload (plan_object p))" .
    from schema_verified [OF this] becomes show ?thesis
      by (auto simp: becomes_verified_def field_append carried_verification split: option.splits)
  qed
qed

text \<open>A verification that survives a correction is a verification of the same claimant's sentence.\<close>

lemma lapse_verified: "verified_claim (object_payload (plan_object (lapse_plan b p))) \<Longrightarrow>
    verified_claim (object_payload (plan_object p))"
  by (cases "object_payload (plan_object p)") (auto simp: lapse_plan_def Let_def split: if_splits)

lemma kept_claimant:
  assumes "verified_claim (object_payload (plan_object (lapse_plan b p)))"
    and "payload_claimant (object_payload (plan_object (lapse_plan b p))) = Some d"
    and "verified_claim (object_payload b)"
  shows "payload_claimant (object_payload b) = Some d"
  using assms
  by (cases "object_payload (plan_object p)"; cases "object_payload b")
     (auto simp: lapse_plan_def lapses_def Let_def split: if_splits)

interpretation vouching: content_invariant U vouched for U
proof unfold_locales
  fix xs i r and x :: authored_event
  show "vouched xs i r \<Longrightarrow> vouched (xs @ [x]) i r"
    by (auto simp: vouched_def)
next
  fix xs i r r'
  assume "vouched xs i r" and "bookkept r r'"
  then show "vouched xs i r'"
    by (simp add: vouched_def bookkept_facts [OF \<open>bookkept r r'\<close>])
next
  fix x :: authored_event and eid t ob i s and xs :: "authored_event list"
  assume e: "event x = ObjectAccepted eid t ob" "object_id ob = i"
    and acc: "acceptance_refusal U s ob (actor x) (messages x) = None"
  show "vouched (xs @ [x]) i (accepted_record t ob (actor x))"
    unfolding vouched_def
  proof (intro allI impI)
    fix c assume "verified_claim (object_payload (object (accepted_record t ob (actor x)))) \<and>
      payload_claimant (object_payload (object (accepted_record t ob (actor x)))) = Some c"
    then have v: "verified_claim (object_payload ob)" and cl: "payload_claimant (object_payload ob) = Some c"
      by (simp_all add: accepted_record_def)
    from acceptance_by_machine [OF acc] v obtain u where u: "actor x = Human u"
      by (auto simp: isHuman_iff)
    with acceptance_by_verifier [OF acc u v cl] e v
    show "\<exists>x \<in> set (xs @ [x]). \<exists>u. actor x = Human u \<and> u \<noteq> c \<and> vouches (event x) i"
      by auto
  qed
next
  fix x :: authored_event and c i u s r p and xs :: "authored_event list"
  assume e: "event x = ObjectCorrected c" "corrected_objectId c = i" "actor x = Human u"
    and plan: "planCorrection s c r = Planned p"
    and gates: "correction_gates s c (Human u) r p = None" and IH: "vouched xs i r"
  let ?q = "object_payload (plan_object (lapse_plan (object r) p))"
  show "vouched (xs @ [x]) i (corrected_record c r (Human u) (lapse_plan (object r) p))"
    unfolding vouched_def corrected_record_simps
  proof (intro allI impI, elim conjE)
    fix d assume v: "verified_claim ?q" and cl: "payload_claimant ?q = Some d"
    show "\<exists>x \<in> set (xs @ [x]). \<exists>u. actor x = Human u \<and> u \<noteq> d \<and> vouches (event x) i"
    proof (cases "verified_claim (object_payload (object r))")
      case True
      with v cl have "payload_claimant (object_payload (object r)) = Some d"
        by (rule kept_claimant)
      with True IH show ?thesis by (auto simp: vouched_def)
    next
      case False
      with v have becomes: "becomes_verified (object_payload (object r)) ?q"
        by (simp add: becomes_verified_def)
      with cl gate_verifies [OF gates becomes] have "u \<noteq> d" by (simp add: lapse_plan_facts)
      moreover from becomes False have "becomes_verified (object_payload (object r)) (object_payload (plan_object p))"
        by (auto simp: becomes_verified_def dest: lapse_verified)
      ultimately show ?thesis using plan_verifies [OF plan] e by auto
    qed
  qed
qed

section \<open>What a machine's word alone may stand for\<close>

definition machine_reading :: "authored_event list \<Rightarrow> jstr \<Rightarrow> object_record \<Rightarrow> bool" where
  "machine_reading xs i r \<longleftrightarrow> (epistemicStateOf r = Unconfirmed \<longrightarrow>
     (object_type (object r) = Claim \<or> object_type (object r) = OpenQuestion) \<and>
     \<not> verified_claim (object_payload (object r)) \<and>
     proposalId (object_provenance (object r)) \<noteq> None \<and> revision r = 0)"

interpretation machine: content_invariant U machine_reading for U
proof unfold_locales
  fix xs i r r'
  assume "machine_reading xs i r" and "bookkept r r'"
  then show "machine_reading xs i r'"
    by (simp add: machine_reading_def bookkept_facts [OF \<open>bookkept r r'\<close>])
next
  fix x :: authored_event and eid t ob i s and xs :: "authored_event list"
  assume acc: "acceptance_refusal U s ob (actor x) (messages x) = None"
  show "machine_reading (xs @ [x]) i (accepted_record t ob (actor x))"
    using acceptance_by_machine [OF acc]
    by (auto simp: machine_reading_def epistemicStateOf_def accepted_record_def split: if_splits)
qed (auto simp: machine_reading_def epistemicStateOf_def)

section \<open>A verified claim is never withdrawn\<close>

definition standing :: "authored_event list \<Rightarrow> jstr \<Rightarrow> object_record \<Rightarrow> bool" where
  "standing xs i r \<longleftrightarrow> (retractedAt r \<noteq> None \<longrightarrow> \<not> verified_claim (object_payload (object r)))"

lemma planned_retraction:
  assumes "planCorrection s c r = Planned p"
  shows "plan_retractedAt p = None \<Longrightarrow> retractedAt r = None"
    and "plan_retractedAt p \<noteq> None \<Longrightarrow> plan_object p = object r"
    and "plan_retractedAt p = Some (Some t) \<Longrightarrow> corrected_action c = Retract"
  using assms
  by (auto simp: planCorrection_def planRetype_def planReopen_def planPayloadEdit_def edit_plan_def Let_def
      split: if_splits option.splits payload.splits)

interpretation standing: content_invariant U standing for U
proof unfold_locales
  fix xs i r r'
  assume "standing xs i r" and "bookkept r r'"
  then show "standing xs i r'"
    by (simp add: standing_def bookkept_facts [OF \<open>bookkept r r'\<close>])
next
  fix x :: authored_event and c i u s r p and xs :: "authored_event list"
  assume plan: "planCorrection s c r = Planned p"
    and gates: "correction_gates s c (Human u) r p = None" and IH: "standing xs i r"
  show "standing (xs @ [x]) i (corrected_record c r (Human u) (lapse_plan (object r) p))"
  proof (cases "plan_retractedAt p")
    case None
    with planned_retraction(1) [OF plan] show ?thesis
      by (simp add: standing_def lapse_plan_facts)
  next
    case (Some v)
    with planned_retraction(2) [OF plan] have "plan_object p = object r" by simp
    with Some planned_retraction(3) [OF plan] gate_retract [OF gates] show ?thesis
      by (cases v) (auto simp: standing_def lapse_plan_facts dest: lapse_verified)
  qed
qed (auto simp: standing_def accepted_record_def)

end
