(* ===== verification/Structure.thy ===== *)
theory Structure
  imports Certification
begin

text \<open>
  The shape of a reachable state: who points at what.  Objective pointers name an objective of the
  same room, relations join objects of one room, live answers join a question to a decision or a
  claim, accepted proposals and the objects they became name each other, a superseded object has
  the edge that retired it, and the correction log accounts for every revision.
\<close>

section \<open>What one event changes outside the objects\<close>

lemma relations_change:
  "relations (fst (dispatch U s x)) = relations s \<or>
   (\<exists>eid t r. event x = RelationAdded eid t r \<and> relation_refusal s r (actor x) = None \<and>
      relations (fst (dispatch U s x)) = relations s @ [r])"
proof (cases "event x")
  case (ObjectCorrected c)
  show ?thesis
    by (rule applyObjectCorrected_cases [of s c "actor x"])
       (auto simp: ObjectCorrected dispatch_def refuse_def commitPlan_frame)
qed (auto simp: dispatch_def refuse_def applyProposalRecorded_def applyProposalRejected_def
      applyProposalSuperseded_def applyObjectAccepted_def applyRelationAdded_def mark_accepted_frame
      effects_frame Let_def split: option.splits)

lemma issues_change: "\<exists>new. issues (fst (dispatch U s x)) = issues s @ new"
proof (cases "event x")
  case (ObjectCorrected c)
  show ?thesis
    by (rule applyObjectCorrected_cases [of s c "actor x"])
       (auto simp: ObjectCorrected dispatch_def refuse_def commitPlan_frame)
qed (auto simp: dispatch_def refuse_def applyProposalRecorded_def applyProposalRejected_def
      applyProposalSuperseded_def applyObjectAccepted_def applyRelationAdded_def mark_accepted_frame
      effects_frame Let_def split: option.splits)

lemma consume_issues: "\<exists>new. issues (fst (consume U s x)) = issues s @ new"
proof -
  obtain new where "issues (fst (dispatch U s x)) = issues s @ new" using issues_change by blast
  then show ?thesis by (auto simp: consume_def record_consumed_def fail_def Let_def case_prod_beta)
qed

lemma corrections_change:
  "corrections (fst (dispatch U s x)) = corrections s \<or>
   (\<exists>c r p. event x = ObjectCorrected c \<and> get (objects s) (corrected_objectId c) = Some r \<and>
      isHuman (actor x) \<and> planCorrection s c r = Planned p \<and> correction_gates s c (actor x) r p = None \<and>
      corrections (fst (dispatch U s x)) = corrections s @ [correction_entry c r (actor x) (lapse_plan (object r) p)] \<and>
      store_bookkept (put (corrected_objectId c) (corrected_record c r (actor x) (lapse_plan (object r) p)) (objects s))
        (objects (fst (dispatch U s x))))"
proof (cases "event x")
  case (ObjectCorrected c)
  show ?thesis
    by (rule applyObjectCorrected_cases [of s c "actor x"])
       (auto simp: ObjectCorrected dispatch_def refuse_def commitPlan_frame commitPlan_bookkept)
qed (auto simp: dispatch_def refuse_def applyProposalRecorded_def applyProposalRejected_def
      applyProposalSuperseded_def applyObjectAccepted_def applyRelationAdded_def mark_accepted_frame
      effects_frame Let_def split: option.splits)

definition fresh_proposal :: "proposal \<Rightarrow> actor \<Rightarrow> proposal_record" where
  "fresh_proposal p a = \<lparr>proposal = storeProposal p, stagedBy = a, status = Proposed, acceptedObjectId = None,
     rejectedReason = None, supersededByProposalId = None, supersededReason = None\<rparr>"

definition closes :: "proposal_record \<Rightarrow> proposal_record \<Rightarrow> bool" where
  "closes q q' \<longleftrightarrow> status q = Proposed \<and> (status q' = Rejected \<or> status q' = SupersededReading) \<and>
     proposal q' = proposal q \<and> stagedBy q' = stagedBy q \<and> acceptedObjectId q' = acceptedObjectId q"

lemma not_proposed: "st \<noteq> Accepted \<Longrightarrow> st \<noteq> Rejected \<Longrightarrow> st \<noteq> SupersededReading \<Longrightarrow> st = Proposed"
  by (cases st) auto

lemma acceptance_cites:
  assumes "acceptance_refusal U s ob a ms = None" and "proposalId (object_provenance ob) = Some pid"
  shows "\<exists>q. get (proposals s) pid = Some q \<and> status q = Proposed \<and> acceptedObjectId q = None \<and>
    proposal_type (proposal q) = object_type ob \<and> proposal_roomId (proposal q) = object_roomId ob \<and>
    actorMatchesProposer a (proposer (proposal q))"
proof -
  from assms have "citation_refusal s ob a = None" by (simp add: acceptance_refusal_def)
  with assms(2) show ?thesis
    by (auto simp: citation_refusal_def split: option.splits intro: not_proposed)
qed

lemma proposals_change:
  assumes "get (proposals (fst (dispatch U s x))) pid = Some q'"
  shows "get (proposals s) pid = Some q' \<or>
    (\<exists>eid t p. event x = ProposalRecorded eid t p \<and> proposal_id p = pid \<and> get (proposals s) pid = None \<and>
       q' = fresh_proposal p (actor x)) \<or>
    (\<exists>q. get (proposals s) pid = Some q \<and> closes q q' \<and> (\<nexists>eid t ob. event x = ObjectAccepted eid t ob)) \<or>
    (\<exists>q eid t ob. get (proposals s) pid = Some q \<and> event x = ObjectAccepted eid t ob \<and>
       acceptance_refusal U s ob (actor x) (messages x) = None \<and>
       proposalId (object_provenance ob) = Some pid \<and>
       q' = q\<lparr>status := Accepted, acceptedObjectId := Some (object_id ob)\<rparr>)"
proof (cases "event x")
  case (ProposalRecorded eid t p)
  with assms show ?thesis
    by (auto simp: dispatch_def applyProposalRecorded_def refuse_def Let_def fresh_proposal_def split: if_splits)
next
  case (ProposalRejected eid t i why)
  with assms show ?thesis
    by (auto simp: dispatch_def applyProposalRejected_def refuse_def closes_def intro: not_proposed
        split: option.splits if_splits)
next
  case (ProposalSuperseded eid t i b why)
  with assms show ?thesis
    by (auto simp: dispatch_def applyProposalSuperseded_def refuse_def closes_def split: option.splits if_splits)
next
  case (ObjectAccepted eid t ob)
  with assms show ?thesis
    by (auto simp: dispatch_def applyObjectAccepted_def refuse_def mark_accepted_def cited_proposal_def
        split: option.splits if_splits)
next
  case (ObjectCorrected c)
  with assms show ?thesis
    by (auto simp: dispatch_def refuse_def commitPlan_frame intro: applyObjectCorrected_cases [of s c "actor x"])
next
  case (RelationAdded eid t r)
  with assms show ?thesis
    by (auto simp: dispatch_def applyRelationAdded_def refuse_def effects_frame split: option.splits)
qed

lemma consume_get:
  "get (objects (fst (consume U s x))) = get (objects (fst (dispatch U s x)))"
  "get (proposals (fst (consume U s x))) = get (proposals (fst (dispatch U s x)))"
  by (simp_all add: consume_simps fun_eq_iff)

lemma object_survives:
  assumes "get (objects s) i = Some r"
  obtains r' where "get (objects (fst (dispatch U s x))) i = Some r'"
proof -
  have "i \<in> set (keys (objects (fst (dispatch U s x))))"
    using assms dispatch_keeps_objects [of s U x] keys_get [of i "objects s"] by auto
  with that show ?thesis by (auto simp: keys_get)
qed

text \<open>What one event keeps of an object that was already there.\<close>

lemma object_kept:
  assumes "get (objects s) i = Some r" and "get (objects (fst (dispatch U s x))) i = Some r'"
  shows "object_id (object r') = object_id (object r) \<and> object_roomId (object r') = object_roomId (object r) \<and>
    object_objectiveId (object r') = object_objectiveId (object r) \<and>
    object_provenance (object r') = object_provenance (object r)"
  using object_change [OF assms(2)] assms(1)
proof (elim disjE exE conjE)
  fix q assume "corrects s x i q r'"
  then obtain c p where "planCorrection s c q = Planned p" "get (objects s) i = Some q"
    "bookkept (corrected_record c q (actor x) (lapse_plan (object q) p)) r'"
    by (auto simp: corrects_def)
  with assms(1) planned_envelope [of s c q p] lapse_envelope [of "object q" "object q" p] show ?thesis
    by (auto simp: bookkept_def same_envelope_def)
qed (use assms(1) in \<open>auto simp: bookkept_def accepts_def\<close>)

lemma planned_type:
  assumes "planCorrection s c r = Planned p" and "object_type (plan_object p) \<noteq> object_type (object r)"
  shows "retypeStructuralRefusal s (object r) (object_type (plan_object p)) = None"
  using assms
  by (auto simp: planCorrection_def planRetype_def planReopen_def planPayloadEdit_def edit_plan_def
      object_type_def applyPayloadPatch_def Let_def
      split: if_splits option.splits payload.splits dest: retyped_parse(2) payload_schema_ok)

text \<open>When an event changes the type of a stored object, it is a retype the structure allows.\<close>

lemma type_change:
  assumes "get (objects s) i = Some r" and "get (objects (fst (dispatch U s x))) i = Some r'"
    and "object_type (object r') \<noteq> object_type (object r)"
  shows "retypeStructuralRefusal s (object r) (object_type (object r')) = None"
  using object_change [OF assms(2)] assms(1,3)
proof (elim disjE exE conjE)
  fix q assume "corrects s x i q r'"
  then obtain c p where cp: "planCorrection s c q = Planned p" "get (objects s) i = Some q"
    "bookkept (corrected_record c q (actor x) (lapse_plan (object q) p)) r'"
    by (auto simp: corrects_def)
  then have "object_type (object r') = object_type (plan_object p)"
    using bookkept_facts(1) [OF cp(3)] by (simp add: lapse_plan_facts)
  with assms cp planned_type [OF cp(1)] show ?thesis by simp
qed (auto simp: bookkept_facts(1) accepts_def)

section \<open>Objective pointers\<close>

definition objectives_ok :: "core_state \<Rightarrow> bool" where
  "objectives_ok s \<longleftrightarrow> (\<forall>i r oid. get (objects s) i = Some r \<and> object_objectiveId (object r) = Some oid \<longrightarrow>
     (\<exists>q. get (objects s) oid = Some q \<and> object_type (object q) = Objective \<and>
        object_roomId (object q) = object_roomId (object r)))"

lemma filed_under_nonempty:
  "get (objects s) i = Some r \<Longrightarrow> object_objectiveId (object r) = Some oid \<Longrightarrow> filed_under s oid \<noteq> []"
  using keys_get [of i "objects s"] by (auto simp: filed_under_def filter_empty_conv intro!: bexI [of _ i])

lemma objective_stays:
  assumes id: "object_id (object q) = oid" and r: "get (objects s) i = Some r"
    and ptr: "object_objectiveId (object r) = Some oid" and q: "get (objects s) oid = Some q"
    and obj: "object_type (object q) = Objective" and q': "get (objects (fst (dispatch U s x))) oid = Some q'"
  shows "object_type (object q') = Objective"
proof (rule ccontr)
  assume ne: "object_type (object q') \<noteq> Objective"
  with obj have "retypeStructuralRefusal s (object q) (object_type (object q')) = None"
    by (intro type_change [OF q q']) simp
  with ne obj id filed_under_nonempty [OF r ptr] show False
    by (simp add: retypeStructuralRefusal_def)
qed

lemma objectives_ok_step:
  assumes IH: "objectives_ok s" and ids: "\<And>i r. get (objects s) i = Some r \<Longrightarrow> object_id (object r) = i"
  shows "objectives_ok (fst (dispatch U s x))"
  unfolding objectives_ok_def
proof (intro allI impI, elim conjE)
  fix i r' oid
  assume r': "get (objects (fst (dispatch U s x))) i = Some r'" and ptr: "object_objectiveId (object r') = Some oid"
  show "\<exists>q. get (objects (fst (dispatch U s x))) oid = Some q \<and> object_type (object q) = Objective \<and>
      object_roomId (object q) = object_roomId (object r')"
  proof (cases "get (objects s) i")
    case (Some r)
    from object_kept [OF Some r'] ptr have p: "object_objectiveId (object r) = Some oid"
      and room: "object_roomId (object r') = object_roomId (object r)" by simp_all
    from IH Some p obtain q where q: "get (objects s) oid = Some q" "object_type (object q) = Objective"
      "object_roomId (object q) = object_roomId (object r)"
      unfolding objectives_ok_def by blast
    obtain q' where q': "get (objects (fst (dispatch U s x))) oid = Some q'"
      using object_survives [OF q(1)] .
    from objective_stays [OF ids [OF q(1)] Some p q(1,2) q'] object_kept [OF q(1) q'] q(3) room q'
    show ?thesis by auto
  next
    case None
    with object_change [OF r'] obtain eid t ob where e: "event x = ObjectAccepted eid t ob" "object_id ob = i"
      "acceptance_refusal U s ob (actor x) (messages x) = None" "r' = accepted_record t ob (actor x)"
      by (auto simp: accepts_def corrects_def)
    then have "objective_refusal s ob = None" and p: "object_objectiveId ob = Some oid"
      using ptr by (auto simp: acceptance_refusal_def accepted_record_def)
    then obtain q where q: "get (objects s) oid = Some q" "object_type (object q) = Objective"
      "object_roomId (object q) = object_roomId ob"
      by (auto simp: objective_refusal_def split: option.splits if_splits)
    moreover have "get (objects (fst (dispatch U s x))) oid = Some q"
      using e q None by (auto simp: dispatch_def applyObjectAccepted_objects)
    ultimately show ?thesis using e by (auto simp: accepted_record_def)
  qed
qed

lemma objectives_ok_consume: "objectives_ok (fst (consume U s x)) = objectives_ok (fst (dispatch U s x))"
  by (simp add: objectives_ok_def consume_get)

lemma objectives_ok_reachable: "folds U xs s \<Longrightarrow> objectives_ok s"
proof (induction rule: folds.induct)
  case start
  then show ?case by (simp add: objectives_ok_def emptyState_def)
next
  case (step xs s x)
  then show ?case
    using wf.holds [OF step.hyps(1)]
    by (simp add: objectives_ok_consume wf_object_def objectives_ok_step)
qed

section \<open>Relations\<close>

definition relation_ok :: "core_state \<Rightarrow> relation \<Rightarrow> bool" where
  "relation_ok s r \<longleftrightarrow> relationShapeError r = None \<and>
     (\<exists>f. get (objects s) (fromObjectId r) = Some f \<and> object_roomId (object f) = relation_roomId r) \<and>
     (\<forall>i. relation_to r = ToObject i \<longrightarrow>
        (\<exists>q. get (objects s) i = Some q \<and> object_roomId (object q) = relation_roomId r))"

lemma relation_ok_step: "relation_ok s r \<Longrightarrow> relation_ok (fst (dispatch U s x)) r"
proof -
  have keep: "\<exists>f'. get (objects (fst (dispatch U s x))) i = Some f' \<and> object_roomId (object f') = room"
    if "get (objects s) i = Some f" "object_roomId (object f) = room" for i f room
    using that object_survives [OF that(1), of U x] object_kept [OF that(1), of U x] by (metis (full_types))
  show "relation_ok s r \<Longrightarrow> ?thesis"
    unfolding relation_ok_def using keep by blast
qed

lemma endpoints_ok: "relation_refusal s r a = None \<Longrightarrow> relation_ok s r \<and> relation_id r \<notin> relation_id ` set (relations s)"
  by (auto simp: relation_refusal_def endpoint_refusal_def relation_ok_def relation_target_record_def list_ex_iff
      split: option.splits relation_target.splits)

definition relations_ok :: "core_state \<Rightarrow> bool" where
  "relations_ok s \<longleftrightarrow> distinct (map relation_id (relations s)) \<and> (\<forall>r \<in> set (relations s). relation_ok s r)"

lemma relations_ok_reachable: "folds U xs s \<Longrightarrow> relations_ok s"
proof (induction rule: folds.induct)
  case start
  then show ?case by (simp add: relations_ok_def emptyState_def)
next
  case (step xs s x)
  let ?s = "fst (dispatch U s x)"
  have old: "\<forall>r \<in> set (relations s). relation_ok ?s r"
    using step.IH by (auto simp: relations_ok_def relation_ok_step)
  have "relations_ok ?s"
    using relations_change [of U s x]
  proof (elim disjE exE conjE)
    fix eid t r
    assume "relation_refusal s r (actor x) = None" and eq: "relations ?s = relations s @ [r]"
    with endpoints_ok have r: "relation_ok s r" "relation_id r \<notin> relation_id ` set (relations s)"
      by blast+
    from step.IH have "distinct (map relation_id (relations s))" by (simp add: relations_ok_def)
    with old r show ?thesis by (auto simp: relations_ok_def eq relation_ok_step)
  qed (use step.IH old in \<open>auto simp: relations_ok_def\<close>)
  then show ?case by (simp add: relations_ok_def relation_ok_def consume_simps)
qed

section \<open>Proposals and the objects they became\<close>

definition proposals_linked :: "core_state \<Rightarrow> bool" where
  "proposals_linked s \<longleftrightarrow>
     (\<forall>pid q. get (proposals s) pid = Some q \<longrightarrow> (status q = Accepted \<longleftrightarrow> acceptedObjectId q \<noteq> None) \<and>
        (\<forall>i. acceptedObjectId q = Some i \<longrightarrow>
           (\<exists>r. get (objects s) i = Some r \<and> proposalId (object_provenance (object r)) = Some pid))) \<and>
     (\<forall>i r pid. get (objects s) i = Some r \<and> proposalId (object_provenance (object r)) = Some pid \<longrightarrow>
        (\<exists>q. get (proposals s) pid = Some q \<and> acceptedObjectId q = Some i \<and>
           proposal_roomId (proposal q) = object_roomId (object r)))"

text \<open>A proposal never disappears, and once accepted it is closed.\<close>

lemma proposal_stays:
  assumes "get (proposals s) pid = Some q"
  shows "\<exists>q'. get (proposals (fst (dispatch U s x))) pid = Some q' \<and> proposal q' = proposal q \<and>
    (acceptedObjectId q \<noteq> None \<and> status q = Accepted \<longrightarrow> q' = q)"
proof (cases "event x")
  case (ProposalRecorded eid t p)
  with assms show ?thesis by (auto simp: dispatch_def applyProposalRecorded_def refuse_def Let_def)
next
  case (ProposalRejected eid t i why)
  with assms show ?thesis
    by (auto simp: dispatch_def applyProposalRejected_def refuse_def split: option.splits)
next
  case (ProposalSuperseded eid t i b why)
  with assms show ?thesis
    by (auto simp: dispatch_def applyProposalSuperseded_def refuse_def split: option.splits)
next
  case (ObjectAccepted eid t ob)
  with assms show ?thesis
    using acceptance_cites [of U s ob "actor x" "messages x"]
    by (auto simp: dispatch_def applyObjectAccepted_def refuse_def mark_accepted_def cited_proposal_def
        split: option.splits)
next
  case (ObjectCorrected c)
  show ?thesis
    by (rule applyObjectCorrected_cases [of s c "actor x"])
       (use assms ObjectCorrected in \<open>auto simp: dispatch_def refuse_def commitPlan_frame\<close>)
next
  case (RelationAdded eid t r)
  with assms show ?thesis
    by (auto simp: dispatch_def applyRelationAdded_def refuse_def effects_frame split: option.splits)
qed

lemma proposals_linked_step:
  assumes IH: "proposals_linked s"
  shows "proposals_linked (fst (dispatch U s x))"
proof -
  let ?s = "fst (dispatch U s x)"
  have fwd: "(status q' = Accepted \<longleftrightarrow> acceptedObjectId q' \<noteq> None) \<and>
      (\<forall>i. acceptedObjectId q' = Some i \<longrightarrow>
        (\<exists>r. get (objects ?s) i = Some r \<and> proposalId (object_provenance (object r)) = Some pid))"
    if q': "get (proposals ?s) pid = Some q'" for pid q'
  proof -
    have old: "(status q = Accepted \<longleftrightarrow> acceptedObjectId q \<noteq> None) \<and>
        (\<forall>i. acceptedObjectId q = Some i \<longrightarrow>
          (\<exists>r. get (objects ?s) i = Some r \<and> proposalId (object_provenance (object r)) = Some pid))"
      if q: "get (proposals s) pid = Some q" for q
    proof (intro conjI allI impI)
      from IH q show "status q = Accepted \<longleftrightarrow> acceptedObjectId q \<noteq> None"
        unfolding proposals_linked_def by blast
      fix i assume "acceptedObjectId q = Some i"
      with IH q obtain r where r: "get (objects s) i = Some r" "proposalId (object_provenance (object r)) = Some pid"
        unfolding proposals_linked_def by blast
      obtain r' where "get (objects ?s) i = Some r'" using object_survives [OF r(1)] .
      with object_kept [OF r(1)] r(2)
      show "\<exists>r. get (objects ?s) i = Some r \<and> proposalId (object_provenance (object r)) = Some pid" by auto
    qed
    show ?thesis using proposals_change [OF q']
    proof (elim disjE exE conjE)
      fix q eid t ob
      assume a: "event x = ObjectAccepted eid t ob" "acceptance_refusal U s ob (actor x) (messages x) = None"
        "proposalId (object_provenance ob) = Some pid" "q' = q\<lparr>status := Accepted, acceptedObjectId := Some (object_id ob)\<rparr>"
      then have "get (objects ?s) (object_id ob) = Some (accepted_record t ob (actor x))"
        by (simp add: dispatch_def applyObjectAccepted_objects)
      with a show ?thesis by (simp add: accepted_record_def)
    qed (use old in \<open>auto simp: fresh_proposal_def closes_def\<close>)
  qed
  have bwd: "\<exists>q. get (proposals ?s) pid = Some q \<and> acceptedObjectId q = Some i \<and>
      proposal_roomId (proposal q) = object_roomId (object r')"
    if r': "get (objects ?s) i = Some r'" and cites: "proposalId (object_provenance (object r')) = Some pid" for i r' pid
  proof (cases "get (objects s) i")
    case (Some r)
    from object_kept [OF Some r'] cites IH Some obtain q where q: "get (proposals s) pid = Some q"
      "acceptedObjectId q = Some i" "proposal_roomId (proposal q) = object_roomId (object r')" "status q = Accepted"
      unfolding proposals_linked_def by (metis option.distinct(1))
    with proposal_stays [OF q(1), of U x] show ?thesis by auto
  next
    case None
    with object_change [OF r'] obtain eid t ob where e: "event x = ObjectAccepted eid t ob" "object_id ob = i"
      "acceptance_refusal U s ob (actor x) (messages x) = None" "r' = accepted_record t ob (actor x)"
      by (auto simp: accepts_def corrects_def)
    with cites have pid: "proposalId (object_provenance ob) = Some pid" by (simp add: accepted_record_def)
    from acceptance_cites [OF e(3) pid] e pid show ?thesis
      by (auto simp: dispatch_def applyObjectAccepted_def mark_accepted_def cited_proposal_def accepted_record_def)
  qed
  show ?thesis unfolding proposals_linked_def using fwd bwd by blast
qed

lemma proposals_linked_reachable: "folds U xs s \<Longrightarrow> proposals_linked s"
proof (induction rule: folds.induct)
  case start
  then show ?case by (simp add: proposals_linked_def emptyState_def)
next
  case (step xs s x)
  from proposals_linked_step [OF step.IH, of U x] show ?case
    by (simp add: proposals_linked_def consume_get)
qed

section \<open>Live answers\<close>

definition answers_ok :: "core_state \<Rightarrow> bool" where
  "answers_ok s \<longleftrightarrow> (\<forall>r \<in> set (liveAnswers s). \<forall>f. get (objects s) (fromObjectId r) = Some f \<longrightarrow>
     object_type (object f) = OpenQuestion \<and>
     (\<forall>i q. relation_to r = ToObject i \<and> get (objects s) i = Some q \<longrightarrow>
        object_type (object q) = Decision \<or> object_type (object q) = Claim))"

lemma reopened_mono:
  assumes "get (objects s) i = Some r" and "get (objects (fst (dispatch U s x))) i = Some r'"
  shows "set (reopenedFromAnswers r) \<subseteq> set (reopenedFromAnswers r')"
proof -
  have add: "set ys \<subseteq> set (add_missing ys zs)" for ys zs
  proof (induction zs arbitrary: ys)
    case (Cons z zs)
    show ?case
      using Cons [of ys] Cons [of "ys @ [z]"] by (auto simp: add_missing_def)
  qed (simp add: add_missing_def)
  have rec: "set (reopenedFromAnswers q) \<subseteq> set (reopenedFromAnswers (corrected_record c q a p))" for c q a p
    using add by (cases "afterCommit p") (auto simp: corrected_record_def)
  from object_change [OF assms(2)] assms(1) show ?thesis
  proof (elim disjE exE conjE)
    fix q assume "corrects s x i q r'"
    with assms(1) obtain c p where "bookkept (corrected_record c r (actor x) (lapse_plan (object r) p)) r'"
      by (auto simp: corrects_def)
    then show ?thesis using rec by (simp add: bookkept_def)
  qed (auto simp: bookkept_def accepts_def)
qed

lemma liveAnswers_old:
  assumes "r \<in> set (liveAnswers (fst (dispatch U s x)))" and "r \<in> set (relations s)"
    and "get (objects s) (fromObjectId r) = Some f"
  shows "r \<in> set (liveAnswers s)"
proof -
  obtain f' where f': "get (objects (fst (dispatch U s x))) (fromObjectId r) = Some f'"
    using object_survives [OF assms(3)] .
  with reopened_mono [OF assms(3) f'] assms show ?thesis
    by (auto simp: liveAnswers_def)
qed

lemma answer_source_stays:
  assumes live: "r \<in> set (liveAnswers s)" and f: "get (objects s) (fromObjectId r) = Some f"
    and id: "object_id (object f) = fromObjectId r" and q: "object_type (object f) = OpenQuestion"
    and f': "get (objects (fst (dispatch U s x))) (fromObjectId r) = Some f'"
  shows "object_type (object f') = OpenQuestion"
proof (rule ccontr)
  assume ne: "object_type (object f') \<noteq> OpenQuestion"
  with q have "retypeStructuralRefusal s (object f) (object_type (object f')) = None"
    by (intro type_change [OF f f']) simp
  with ne id live show False by (auto simp: retypeStructuralRefusal_def filter_empty_conv)
qed

lemma answer_target_stays:
  assumes live: "r \<in> set (liveAnswers s)" and to: "relation_to r = ToObject i"
    and q: "get (objects s) i = Some q" and id: "object_id (object q) = i"
    and ty: "object_type (object q) = Decision \<or> object_type (object q) = Claim"
    and q': "get (objects (fst (dispatch U s x))) i = Some q'"
  shows "object_type (object q') = Decision \<or> object_type (object q') = Claim"
proof (rule ccontr)
  assume ne: "\<not> ?thesis"
  with ty have "retypeStructuralRefusal s (object q) (object_type (object q')) = None"
    by (intro type_change [OF q q']) auto
  with ne id live to show False by (auto simp: retypeStructuralRefusal_def filter_empty_conv)
qed

lemma new_answer_ok:
  assumes "relation_refusal s r a = None" and "relation_kind r = Answers"
    and "get (objects s) (fromObjectId r) = Some f"
  shows "object_type (object f) = OpenQuestion"
    and "relation_to r = ToObject i \<Longrightarrow> get (objects s) i = Some q \<Longrightarrow>
      object_type (object q) = Decision \<or> object_type (object q) = Claim"
  using assms by (auto simp: relation_refusal_def answers_refusal_def relation_target_record_def)

lemma answers_ok_step:
  assumes IH: "answers_ok s" and rels: "relations_ok s"
    and ids: "\<And>i r. get (objects s) i = Some r \<Longrightarrow> object_id (object r) = i"
  shows "answers_ok (fst (dispatch U s x))"
  unfolding answers_ok_def
proof (intro ballI allI impI)
  let ?s = "fst (dispatch U s x)"
  fix r f'
  assume live: "r \<in> set (liveAnswers ?s)" and f': "get (objects ?s) (fromObjectId r) = Some f'"
  show "object_type (object f') = OpenQuestion \<and>
     (\<forall>i q. relation_to r = ToObject i \<and> get (objects ?s) i = Some q \<longrightarrow>
        object_type (object q) = Decision \<or> object_type (object q) = Claim)"
  proof (cases "r \<in> set (relations s)")
    case True
    with rels have rok: "relation_ok s r" by (simp add: relations_ok_def)
    then obtain f where f: "get (objects s) (fromObjectId r) = Some f" by (auto simp: relation_ok_def)
    from liveAnswers_old [OF live True f] have old: "r \<in> set (liveAnswers s)" .
    with IH f have ty: "object_type (object f) = OpenQuestion"
      and tgt: "\<And>i q. relation_to r = ToObject i \<Longrightarrow> get (objects s) i = Some q \<Longrightarrow>
        object_type (object q) = Decision \<or> object_type (object q) = Claim"
      by (auto simp: answers_ok_def)
    have "object_type (object q') = Decision \<or> object_type (object q') = Claim"
      if "relation_to r = ToObject i" "get (objects ?s) i = Some q'" for i q'
    proof -
      from rok that(1) obtain q where q: "get (objects s) i = Some q" by (auto simp: relation_ok_def)
      from answer_target_stays [OF old that(1) q ids [OF q] tgt [OF that(1) q] that(2)] show ?thesis .
    qed
    with answer_source_stays [OF old f ids [OF f] ty f'] show ?thesis by blast
  next
    case False
    with live relations_change [of U s x] obtain eid t where e: "event x = RelationAdded eid t r"
      "relation_refusal s r (actor x) = None"
      by (auto simp: liveAnswers_def)
    have kind: "relation_kind r = Answers" using live by (simp add: liveAnswers_def)
    have same: "\<exists>g. get (objects s) i = Some g \<and> object_type (object g') = object_type (object g)"
      if g': "get (objects ?s) i = Some g'" for i g'
    proof -
      have "store_bookkept (objects s) (objects ?s)"
        using applyRelationAdded_objects [of s eid t r "actor x"] e by (simp add: dispatch_def)
      with g' obtain g where "get (objects s) i = Some g" "bookkept g g'"
        unfolding store_bookkept_def by blast
      with bookkept_facts(1) show ?thesis by blast
    qed
    from same [OF f'] new_answer_ok [OF e(2) kind] same show ?thesis by metis
  qed
qed

lemma answers_ok_reachable: "folds U xs s \<Longrightarrow> answers_ok s"
proof (induction rule: folds.induct)
  case start
  then show ?case by (simp add: answers_ok_def liveAnswers_def emptyState_def)
next
  case (step xs s x)
  have "answers_ok (fst (dispatch U s x))"
    using wf.holds [OF step.hyps(1)] relations_ok_reachable [OF step.hyps(1)]
    by (intro answers_ok_step step.IH) (auto simp: wf_object_def)
  then show ?case by (simp only: answers_ok_def liveAnswers_def consume_simps)
qed

section \<open>The correction log accounts for every revision\<close>

lemma corrected_logs:
  assumes "corrects s x i r r'" and "corrections (fst (dispatch U s x)) = corrections s"
  shows False
proof -
  from assms(1) obtain c p where "event x = ObjectCorrected c" "get (objects s) (corrected_objectId c) = Some r"
    "isHuman (actor x)" "planCorrection s c r = Planned p" "correction_gates s c (actor x) r p = None"
    by (auto simp: corrects_def)
  then have "corrections (fst (dispatch U s x)) \<noteq> corrections s"
    by (simp add: dispatch_def applyObjectCorrected_def correction_human_gate_def Let_def refuse_if_def commitPlan_frame)
  with assms(2) show False by simp
qed

definition chain_length :: "core_state \<Rightarrow> jstr \<Rightarrow> nat" where
  "chain_length s i = length (filter (\<lambda>c. correction_objectId c = i) (corrections s))"

definition corrections_ok :: "core_state \<Rightarrow> bool" where
  "corrections_ok s \<longleftrightarrow>
     (\<forall>c \<in> set (corrections s). isHuman (correction_actor c) \<and> get (objects s) (correction_objectId c) \<noteq> None) \<and>
     (\<forall>i r. get (objects s) i = Some r \<longrightarrow> revision r = chain_length s i)"

lemma corrections_ok_step:
  assumes IH: "corrections_ok s" and ids: "\<And>i r. get (objects s) i = Some r \<Longrightarrow> object_id (object r) = i"
  shows "corrections_ok (fst (dispatch U s x))"
proof -
  let ?s = "fst (dispatch U s x)"
  have keep: "get (objects ?s) i \<noteq> None" if "get (objects s) i \<noteq> None" for i
    using that object_survives [of s i _ U x] by auto
  show ?thesis
    using corrections_change [of U s x]
  proof (elim disjE exE conjE)
    assume same: "corrections ?s = corrections s"
    have "revision r' = chain_length ?s i" if r': "get (objects ?s) i = Some r'" for i r'
      using object_change [OF r']
    proof (elim disjE exE conjE)
      fix r assume "get (objects s) i = Some r" "bookkept r r'"
      with IH same show ?thesis
        by (auto simp: corrections_ok_def chain_length_def bookkept_facts(9))
    next
      assume a: "accepts U s x i r'"
      then have "chain_length s i = 0"
        using IH by (auto simp: accepts_def chain_length_def corrections_ok_def filter_empty_conv)
      with a same show ?thesis by (auto simp: accepts_def accepted_record_def chain_length_def)
    next
      fix r assume "corrects s x i r r'"
      then show ?thesis using same corrected_logs by blast
    qed
    with IH same keep show ?thesis by (auto simp: corrections_ok_def)
  next
    fix c r p
    let ?e = "correction_entry c r (actor x) (lapse_plan (object r) p)"
    assume r: "get (objects s) (corrected_objectId c) = Some r" and h: "isHuman (actor x)"
      and log: "corrections ?s = corrections s @ [?e]"
      and book: "store_bookkept (put (corrected_objectId c) (corrected_record c r (actor x) (lapse_plan (object r) p))
        (objects s)) (objects ?s)"
    have "revision r' = chain_length ?s i" if r': "get (objects ?s) i = Some r'" for i r'
    proof -
      from book r' obtain q where q: "get (put (corrected_objectId c)
          (corrected_record c r (actor x) (lapse_plan (object r) p)) (objects s)) i = Some q" "bookkept q r'"
        by (auto simp: store_bookkept_def)
      with IH r ids [OF r] log bookkept_facts(9) [OF q(2)] show ?thesis
        by (auto simp: corrections_ok_def chain_length_def correction_entry_def split: if_splits)
    qed
    with IH keep h log r ids [OF r] show ?thesis
      by (auto simp: corrections_ok_def correction_entry_def)
  qed
qed

lemma corrections_ok_reachable: "folds U xs s \<Longrightarrow> corrections_ok s"
proof (induction rule: folds.induct)
  case start
  then show ?case by (simp add: corrections_ok_def emptyState_def)
next
  case (step xs s x)
  have "corrections_ok (fst (dispatch U s x))"
    using wf.holds [OF step.hyps(1)] by (intro corrections_ok_step step.IH) (auto simp: wf_object_def)
  then show ?case by (simp only: corrections_ok_def chain_length_def consume_simps)
qed

text \<open>The log itself only grows.\<close>

lemma corrections_append_only: "\<exists>new. corrections (fst (append_authored U s x)) = corrections s @ new"
  using corrections_change [of U s x]
  by (auto simp: append_authored_def consume_simps split: option.splits)

section \<open>Consumed events\<close>

lemma consumed_ids_reachable:
  "folds U xs s \<Longrightarrow> consumedEventIds s = map (\<lambda>x. event_id (event x)) xs \<and> distinct (consumedEventIds s)"
proof (induction rule: folds.induct)
  case (step xs s x)
  then show ?case by (auto simp: consume_simps rejectionFor_None)
qed (simp add: emptyState_def)

section \<open>The instant of the last change\<close>

text \<open>Whatever an event changes in an object, the object carries the instant of some event, which is a timestamp.\<close>

definition stamped :: "object_record store \<Rightarrow> bool" where
  "stamped os \<longleftrightarrow> (\<forall>i r. get os i = Some r \<longrightarrow> Timestamp (object_updatedAt (object r)))"

lemma stamped_put: "stamped os \<Longrightarrow> Timestamp (object_updatedAt (object r)) \<Longrightarrow> stamped (put i r os)"
  by (auto simp: stamped_def)

lemma stamped_superseded:
  "stamped os \<Longrightarrow> get os i = Some r \<Longrightarrow> Timestamp t \<Longrightarrow> stamped (put i (setSuperseded r b t) os)"
  by (rule stamped_put) (auto simp: stamped_def setSuperseded_def Let_def split: payload.split)

lemma stamped_edges:
  assumes "Timestamp t"
  shows "stamped (objects s) \<Longrightarrow> stamped (objects (release_edges i t es s))"
    and "stamped (objects s) \<Longrightarrow> stamped (objects (reapply_edges i t es s))"
proof -
  show "stamped (objects s) \<Longrightarrow> stamped (objects (release_edges i t es s))"
    using assms by (induction i t es s rule: release_edges.induct) (auto simp: stamped_superseded split: relation_target.split option.split)
  show "stamped (objects s) \<Longrightarrow> stamped (objects (reapply_edges i t es s))"
    using assms by (induction i t es s rule: reapply_edges.induct) (auto simp: stamped_superseded split: relation_target.split option.split)
qed

lemma planned_stamp:
  assumes "planCorrection s c r = Planned p" "Timestamp (object_updatedAt (object r))" "Timestamp (corrected_at c)"
  shows "Timestamp (object_updatedAt (plan_object (lapse_plan ob p)))"
proof -
  have "object_updatedAt (plan_object p) = object_updatedAt (object r) \<or> object_updatedAt (plan_object p) = corrected_at c"
    using assms(1) by (auto simp: planCorrection_def planRetype_def planReopen_def planPayloadEdit_def edit_plan_def Let_def
        split: if_splits option.splits payload.splits dest!: retyped_parse(4))
  with assms(2,3) show ?thesis by (auto simp: lapse_plan_def Let_def)
qed

lemma stamped_dispatch:
  assumes "stamped (objects s)" "event_ok (event x)"
  shows "stamped (objects (fst (dispatch U s x)))"
proof (cases "event x")
  case (ObjectAccepted i t ob)
  with assms show ?thesis by (auto simp: dispatch_def applyObjectAccepted_objects accepted_record_def object_ok_def intro!: stamped_put)
next
  case (ObjectCorrected c)
  show ?thesis
  proof (rule applyObjectCorrected_cases [of s c "actor x"])
    fix r p
    assume r: "get (objects s) (corrected_objectId c) = Some r" "planCorrection s c r = Planned p"
      and res: "applyObjectCorrected s c (actor x) = (commitPlan s c r (actor x) (lapse_plan (object r) p), True)"
    have t: "Timestamp (corrected_at c)" using assms(2) ObjectCorrected by simp
    have "Timestamp (object_updatedAt (plan_object (lapse_plan (object r) p)))"
      using r assms(1) t by (intro planned_stamp) (auto simp: stamped_def)
    then have "stamped (put (corrected_objectId c) (corrected_record c r (actor x) (lapse_plan (object r) p)) (objects s))"
      using assms(1) by (intro stamped_put) simp_all
    then show ?thesis
      by (simp add: ObjectCorrected dispatch_def res commitPlan_def releaseSupersessions_def reapplySupersessions_def Let_def
          stamped_edges [OF t] split: after_commit.split)
  qed (use assms(1) in \<open>auto simp: ObjectCorrected dispatch_def refuse_def\<close>)
next
  case (RelationAdded i t r)
  with assms(2) have t: "Timestamp t" by simp
  have s: "stamped (objects (supersedes_effect r t s'))" if "stamped (objects s')" for s'
    using that t by (auto simp: supersedes_effect_def intro: stamped_superseded split: relation_kind.split relation_target.split option.split)
  have "stamped (objects (answers_effect r t s'))" if "stamped (objects s')" for s'
    using that t by (auto simp: answers_effect_def intro!: stamped_put split: option.split payload.split)
  with s assms(1) show ?thesis by (auto simp: RelationAdded dispatch_def applyRelationAdded_def refuse_def split: option.split)
qed (use assms(1) in \<open>auto simp: dispatch_def proposal_handlers_objects\<close>)

lemma stamped_reachable: "folds U xs s \<Longrightarrow> stamped (objects s)"
proof (induction rule: folds.induct)
  case start
  then show ?case by (simp add: stamped_def emptyState_def)
next
  case (step xs s x)
  from stamped_dispatch [OF step.IH parsed_event_ok [OF step.hyps(2)], of U] show ?case by (simp add: stamped_def consume_simps)
qed

end
