(* ===== verification/Supersession.thy ===== *)
theory Supersession
  imports Structure
begin

text \<open>
  The supersession graph: an object points at the one that superseded it.  The walk of
  \<open>supersessionWouldCycle\<close> decides reachability in it, and the graph stays acyclic as long as no
  withdrawn object is restored.  (Restoring one can close a loop; see the root theory.)
\<close>

section \<open>The graph and the walk\<close>

definition superseded_by :: "object_record store \<Rightarrow> (jstr \<times> jstr) set" where
  "superseded_by os = {(i, b). \<exists>r. get os i = Some r \<and> supersededById r = Some b}"

lemma superseded_by_functional: "(i, b) \<in> superseded_by os \<Longrightarrow> (i, c) \<in> superseded_by os \<Longrightarrow> b = c"
  by (auto simp: superseded_by_def)

lemma superseded_by_iff: "(i, b) \<in> superseded_by os \<longleftrightarrow> Option.bind (get os i) supersededById = Some b"
  by (auto simp: superseded_by_def bind_eq_Some_conv)

lemma walk_sound:
  "(c, target) \<in> (superseded_by os)\<^sup>* \<Longrightarrow> supersession_walk os target seen c"
proof (induction os target seen c rule: supersession_walk.induct)
  case (1 os target seen c)
  show ?case
  proof (cases "c = target \<or> c \<in> set seen")
    case True
    then show ?thesis by (auto simp: supersession_walk.simps [of os target seen c])
  next
    case False
    with "1.prems" obtain d where d: "(c, d) \<in> superseded_by os" "(d, target) \<in> (superseded_by os)\<^sup>*"
      by (auto elim: converse_rtranclE)
    with False "1.IH" [of d] show ?thesis
      by (simp add: supersession_walk.simps [of os target seen c] superseded_by_iff)
  qed
qed

lemma walk_complete:
  assumes "acyclic (superseded_by os)"
  shows "supersession_walk os target seen c \<Longrightarrow> (\<forall>d \<in> set seen. (d, c) \<in> (superseded_by os)\<^sup>+) \<Longrightarrow>
    (c, target) \<in> (superseded_by os)\<^sup>*"
  using assms
proof (induction os target seen c rule: supersession_walk.induct)
  case (1 os target seen c)
  have fresh: "c \<notin> set seen"
    using "1.prems"(2,3) by (auto simp: acyclic_def)
  show ?case
  proof (cases "c = target")
    case False
    with "1.prems"(1) fresh obtain d where d: "Option.bind (get os c) supersededById = Some d"
      and w: "supersession_walk os target (c # seen) d"
      by (auto simp: supersession_walk.simps [of os target seen c] split: option.splits)
    then have cd: "(c, d) \<in> superseded_by os" by (simp add: superseded_by_iff)
    have "(d, target) \<in> (superseded_by os)\<^sup>*"
      using "1.IH" [OF False _ d w] fresh "1.prems"(2,3) cd by (auto intro: trancl_into_trancl)
    with cd show ?thesis by (rule converse_rtrancl_into_rtrancl)
  qed simp
qed

lemma walk_reachable:
  "acyclic (superseded_by os) \<Longrightarrow> supersession_walk os target [] c \<longleftrightarrow> (c, target) \<in> (superseded_by os)\<^sup>*"
  using walk_sound walk_complete by (metis empty_iff list.set(1))

section \<open>Edges behind the pointers\<close>

definition edge :: "core_state \<Rightarrow> jstr \<Rightarrow> jstr \<Rightarrow> bool" where
  "edge s b i \<longleftrightarrow> (\<exists>e \<in> set (relations s). relation_kind e = Supersedes \<and> fromObjectId e = b \<and>
     relation_to e = ToObject i)"

text \<open>
  Without a restore, an edge is either in force or its source is withdrawn: \<open>settled\<close>.
\<close>

definition settled :: "core_state \<Rightarrow> bool" where
  "settled s \<longleftrightarrow> (\<forall>b i r. edge s b i \<and> get (objects s) i = Some r \<longrightarrow>
     supersededById r = Some b \<or> (\<exists>q. get (objects s) b = Some q \<and> retractedAt q \<noteq> None))"

lemma setSuperseded_simps [simp]:
  "supersededById (setSuperseded r b t) = b" "retractedAt (setSuperseded r b t) = retractedAt r"
  "object_id (object (setSuperseded r b t)) = object_id (object r)"
  by (auto simp: setSuperseded_def Let_def split: payload.splits)

lemma find_None_all: "\<forall>x \<in> set xs. \<not> P x \<Longrightarrow> List.find P xs = None"
  by (simp add: find_None_iff)

text \<open>Retracting the superseder releases what it held, and nothing else moves.\<close>

definition released :: "jstr \<Rightarrow> object_record store \<Rightarrow> object_record store \<Rightarrow> bool" where
  "released b os os' \<longleftrightarrow> (\<forall>i r'. get os' i = Some r' \<longrightarrow> (\<exists>r. get os i = Some r \<and> retractedAt r' = retractedAt r \<and>
     object_id (object r') = object_id (object r) \<and>
     (supersededById r' = supersededById r \<or> supersededById r = Some b \<and> supersededById r' = None)))"

lemma released_refl [simp]: "released b os os"
  by (auto simp: released_def)

lemma released_trans:
  assumes "released b x y" and "released b y z"
  shows "released b x z"
  unfolding released_def
proof (intro allI impI)
  fix i r3 assume "get z i = Some r3"
  with assms(2) obtain r2 where r2: "get y i = Some r2" "retractedAt r3 = retractedAt r2"
    "object_id (object r3) = object_id (object r2)"
    "supersededById r3 = supersededById r2 \<or> supersededById r2 = Some b \<and> supersededById r3 = None"
    unfolding released_def by blast
  with assms(1) obtain r1 where "get x i = Some r1" "retractedAt r2 = retractedAt r1"
    "object_id (object r2) = object_id (object r1)"
    "supersededById r2 = supersededById r1 \<or> supersededById r1 = Some b \<and> supersededById r2 = None"
    unfolding released_def by blast
  with r2 show "\<exists>r. get x i = Some r \<and> retractedAt r3 = retractedAt r \<and> object_id (object r3) = object_id (object r) \<and>
     (supersededById r3 = supersededById r \<or> supersededById r = Some b \<and> supersededById r3 = None)"
    by auto
qed

lemma released_subset: "released b os os' \<Longrightarrow> superseded_by os' \<subseteq> superseded_by os"
  unfolding released_def superseded_by_def by fastforce

lemma no_live_superseder:
  assumes "settled s" and "get (objects s) i = Some r" and "supersededById r = Some b" and "object_id (object r) = i"
  shows "List.find (live_superseder s b) (supersedersOf s (object_id (object r))) = None"
proof (rule find_None_all, rule ballI)
  fix y assume "y \<in> set (supersedersOf s (object_id (object r)))"
  then have "edge s y i" using assms(4) by (auto simp: supersedersOf_def edge_def)
  with assms have "y = b \<or> (\<exists>q. get (objects s) y = Some q \<and> retractedAt q \<noteq> None)"
    unfolding settled_def by fastforce
  then show "\<not> live_superseder s b y"
    by (auto simp: live_superseder_def)
qed

lemma settled_released:
  assumes "settled s" and "released b (objects s) (objects s')" and "relations s' = relations s"
    and "\<And>q. get (objects s) b = Some q \<Longrightarrow> retractedAt q \<noteq> None"
    and "set (keys (objects s)) \<subseteq> set (keys (objects s'))"
    and "get (objects s) b \<noteq> None"
  shows "settled s'"
  unfolding settled_def
proof (intro allI impI, elim conjE)
  fix c i r' assume e: "edge s' c i" and r': "get (objects s') i = Some r'"
  from assms(2) r' obtain r where r: "get (objects s) i = Some r"
    "supersededById r' = supersededById r \<or> supersededById r = Some b \<and> supersededById r' = None"
    unfolding released_def by blast
  from e assms(3) have "edge s c i" by (simp add: edge_def)
  with assms(1) r consider "supersededById r = Some c" | q where "get (objects s) c = Some q" "retractedAt q \<noteq> None"
    unfolding settled_def by blast
  then obtain q where "supersededById r' = Some c \<or> get (objects s) c = Some q \<and> retractedAt q \<noteq> None"
    using r(2) assms(4,6) by (cases; fastforce)
  moreover have "\<exists>q'. get (objects s') c = Some q' \<and> retractedAt q' \<noteq> None"
    if "get (objects s) c = Some q" "retractedAt q \<noteq> None"
  proof -
    have "c \<in> set (keys (objects s'))" using that(1) assms(5) keys_get [of c "objects s"] by auto
    then obtain q' where q': "get (objects s') c = Some q'" by (auto simp: keys_get)
    with assms(2) that show ?thesis unfolding released_def by fastforce
  qed
  ultimately show "supersededById r' = Some c \<or> (\<exists>q. get (objects s') c = Some q \<and> retractedAt q \<noteq> None)"
    by blast
qed

lemma release_edges_released:
  "settled s \<Longrightarrow> (\<And>i r. get (objects s) i = Some r \<Longrightarrow> object_id (object r) = i) \<Longrightarrow>
   (\<And>q. get (objects s) b = Some q \<Longrightarrow> retractedAt q \<noteq> None) \<Longrightarrow> get (objects s) b \<noteq> None \<Longrightarrow>
   released b (objects s) (objects (release_edges b t es s)) \<and> settled (release_edges b t es s)"
proof (induction b t es s rule: release_edges.induct)
  case (2 b t e es s)
  define s1 where "s1 = (case relation_to e of
        ToObject tid \<Rightarrow> (case get (objects s) tid of
          Some target \<Rightarrow>
            if supersededById target \<noteq> Some b then s
            else s\<lparr>objects := put tid (setSuperseded target
                    (List.find (live_superseder s b) (supersedersOf s (object_id (object target)))) t)
                    (objects s)\<rparr>
        | None \<Rightarrow> s)
      | _ \<Rightarrow> s)"
  have rel: "released b (objects s) (objects s1)"
    using "2.prems"(2) no_live_superseder [OF "2.prems"(1)]
    by (auto simp: s1_def released_def split: relation_target.splits option.splits)
  have frame: "relations s1 = relations s" "set (keys (objects s)) \<subseteq> set (keys (objects s1))"
    by (auto simp: s1_def keys_put split: relation_target.splits option.splits)
  have st1: "settled s1"
    using settled_released [OF "2.prems"(1) rel frame(1) "2.prems"(3) frame(2) "2.prems"(4)] .
  have ids: "object_id (object r) = i" if "get (objects s1) i = Some r" for i r
    using rel that "2.prems"(2) unfolding released_def by fastforce
  have ret: "retractedAt q \<noteq> None" if "get (objects s1) b = Some q" for q
    using rel that "2.prems"(3) unfolding released_def by fastforce
  have dom: "get (objects s1) b \<noteq> None"
    using frame(2) "2.prems"(4) by (metis keys_get subsetD)
  from "2.IH" [folded s1_def, OF st1 ids ret dom] rel show ?case
    by (simp add: s1_def [symmetric]) (blast intro: released_trans)
qed simp

section \<open>One event\<close>

text \<open>The part of the objects the graph depends on.\<close>

definition pointers :: "object_record store \<Rightarrow> jstr \<Rightarrow> (jstr option \<times> jstr option) option" where
  "pointers os i = map_option (\<lambda>r. (supersededById r, retractedAt r)) (get os i)"

lemma superseded_by_pointers: "superseded_by os = {(i, b). \<exists>d. pointers os i = Some (Some b, d)}"
  by (auto simp: superseded_by_def pointers_def)

lemma settled_pointers:
  "settled s \<longleftrightarrow> (\<forall>b i sb d. edge s b i \<and> pointers (objects s) i = Some (sb, d) \<longrightarrow>
     sb = Some b \<or> (\<exists>sb' d'. pointers (objects s) b = Some (sb', Some d')))"
  unfolding settled_def pointers_def by fastforce

lemma settledD:
  "settled s \<Longrightarrow> edge s b i \<Longrightarrow> pointers (objects s) i = Some (sb, d) \<Longrightarrow>
     sb = Some b \<or> (\<exists>sb' d'. pointers (objects s) b = Some (sb', Some d'))"
  unfolding settled_pointers by blast

lemma settled_cong:
  "pointers (objects s') = pointers (objects s) \<Longrightarrow> (\<And>b i. edge s' b i = edge s b i) \<Longrightarrow> settled s' = settled s"
  by (simp add: settled_pointers)

lemma pointers_put: "pointers (put i r os) = (pointers os)(i := Some (supersededById r, retractedAt r))"
  by (auto simp: pointers_def)

fun no_restore :: "core_event \<Rightarrow> bool" where
  "no_restore (ObjectCorrected c) = (corrected_action c \<noteq> Restore)"
| "no_restore e = True"

lemma planned_effects:
  assumes "planCorrection s c r = Planned p" and "corrected_action c \<noteq> Restore"
  shows "afterCommit p \<noteq> ReapplySupersessions"
    and "afterCommit p = ReleaseSupersessions \<longleftrightarrow> plan_retractedAt p = Some (Some (corrected_at c))"
    and "afterCommit p \<noteq> ReleaseSupersessions \<Longrightarrow> plan_retractedAt p = None"
  using assms
  by (auto simp: planCorrection_def planRetype_def planReopen_def planPayloadEdit_def edit_plan_def Let_def
      split: if_splits option.splits payload.splits)

lemma correct_keeps_acyclic:
  assumes st: "settled s" and ac: "acyclic (superseded_by (objects s))"
    and ids: "\<And>i r. get (objects s) i = Some r \<Longrightarrow> object_id (object r) = i"
    and c: "corrected_action c \<noteq> Restore" and r: "get (objects s) (corrected_objectId c) = Some r"
    and plan: "planCorrection s c r = Planned p"
  defines "p' \<equiv> lapse_plan (object r) p"
  shows "settled (commitPlan s c r a p') \<and> acyclic (superseded_by (objects (commitPlan s c r a p')))"
proof -
  let ?i = "corrected_objectId c"
  let ?s = "s\<lparr>corrections := corrections s @ [correction_entry c r a p'],
    objects := put ?i (corrected_record c r a p') (objects s)\<rparr>"
  note eff = planned_effects [OF plan c]
  have edges: "edge ?s b i = edge s b i" for b i by (simp add: edge_def)
  have sup: "superseded_by (objects ?s) = superseded_by (objects s)"
    using r by (auto simp: superseded_by_def split: if_splits)
  show ?thesis
  proof (cases "afterCommit p = ReleaseSupersessions")
    case True
    with eff(2) have ret: "retractedAt (corrected_record c r a p') = Some (corrected_at c)"
      by (simp add: p'_def lapse_plan_facts)
    have ids': "object_id (object q) = i" if "get (objects ?s) i = Some q" for i q
      using that ids [OF r] ids planned_envelope [OF plan] lapse_envelope [of "object r" "object r" p]
      by (auto simp: p'_def same_envelope_def split: if_splits)
    have ptr: "pointers (objects ?s) = (pointers (objects s))(?i := Some (supersededById r, Some (corrected_at c)))"
      using ret by (simp add: pointers_put)
    have st': "settled ?s"
      unfolding settled_pointers edges
    proof (intro allI impI, elim conjE)
      fix b i sb d assume e: "edge s b i" and q: "pointers (objects ?s) i = Some (sb, d)"
      have "\<exists>d'. pointers (objects s) i = Some (sb, d')"
        using q r unfolding ptr by (auto simp: pointers_def split: if_splits)
      with settledD [OF st e] show "sb = Some b \<or> (\<exists>sb' d'. pointers (objects ?s) b = Some (sb', Some d'))"
        unfolding ptr by auto
    qed
    have name: "object_id (plan_object p') = ?i"
      using ids [OF r] planned_envelope [OF plan] lapse_envelope [of "object r" "object r" p]
      by (simp add: p'_def same_envelope_def)
    have gone: "retractedAt q \<noteq> None" if "get (objects ?s) ?i = Some q" for q
      using that ret by auto
    have dom: "get (objects ?s) ?i \<noteq> None" by simp
    have eq: "commitPlan s c r a p' = release_edges ?i (corrected_at c) (supersessionEdges ?s ?i) ?s"
    proof -
      have "afterCommit p' = ReleaseSupersessions" using True by (simp add: p'_def lapse_plan_facts)
      then show ?thesis by (simp add: commitPlan_def Let_def releaseSupersessions_def name)
    qed
    note rel = release_edges_released [OF st' ids' gone dom, of "corrected_at c" "supersessionEdges ?s ?i"]
    have "superseded_by (objects (commitPlan s c r a p')) \<subseteq> superseded_by (objects s)"
      using released_subset [OF conjunct1 [OF rel]] unfolding eq sup .
    with acyclic_subset [OF ac] conjunct2 [OF rel] show ?thesis
      unfolding eq by blast
  next
    case False
    with eff have none: "plan_retractedAt p' = None" "afterCommit p' \<noteq> ReleaseSupersessions"
      "afterCommit p' \<noteq> ReapplySupersessions"
      by (simp_all add: p'_def lapse_plan_facts)
    then have eq: "commitPlan s c r a p' = ?s"
      by (auto simp: commitPlan_def Let_def split: after_commit.splits)
    have "pointers (objects ?s) = pointers (objects s)"
      using r none(1) by (auto simp: pointers_put) (auto simp: pointers_def)
    with st edges have "settled ?s" by (subst settled_cong [of ?s s]) auto
    with sup ac eq show ?thesis by simp
  qed
qed

lemma accept_keeps_acyclic:
  assumes st: "settled s" and ac: "acyclic (superseded_by (objects s))" and rels: "relations_ok s"
    and fresh: "get (objects s) i = None"
  shows "settled (s\<lparr>objects := put i (accepted_record t ob a) (objects s)\<rparr>) \<and>
    acyclic (superseded_by (put i (accepted_record t ob a) (objects s)))"
proof -
  have "superseded_by (put i (accepted_record t ob a) (objects s)) = superseded_by (objects s)"
    using fresh by (auto simp: superseded_by_def accepted_record_def split: if_splits)
  moreover have "\<not> edge s b i" and "\<not> edge s i j" for b j
    using rels fresh by (auto simp: edge_def relations_ok_def relation_ok_def)
  then have "settled (s\<lparr>objects := put i (accepted_record t ob a) (objects s)\<rparr>)"
    using st fresh by (fastforce simp: settled_def edge_def split: if_splits)
  ultimately show ?thesis using ac by simp
qed

lemma answers_effect_pointers: "pointers (objects (answers_effect r t s)) = pointers (objects s)"
  by (auto simp: answers_effect_def pointers_put split: option.splits payload.splits)
     (auto simp: pointers_def)

lemma supersedes_gates:
  assumes "relation_refusal s r a = None" and "relation_kind r = Supersedes" and "relation_to r = ToObject i"
    and "get (objects s) i = Some target" and "object_id (object target) = i"
  shows "supersededById target = None" and "\<not> supersession_walk (objects s) i [] (fromObjectId r)"
  using assms
  by (auto simp: relation_refusal_def supersedes_refusal_def relation_target_record_def
      supersessionWouldCycle_def split: option.splits)

lemma relate_keeps_acyclic:
  fixes t :: jstr
  assumes st: "settled s" and ac: "acyclic (superseded_by (objects s))"
    and ids: "\<And>i r. get (objects s) i = Some r \<Longrightarrow> object_id (object r) = i"
    and ok: "relation_refusal s r a = None"
  defines "s' \<equiv> answers_effect r t (supersedes_effect r t (s\<lparr>relations := relations s @ [r]\<rparr>))"
  shows "settled s' \<and> acyclic (superseded_by (objects s'))"
proof -
  have rels: "relations s' = relations s @ [r]" by (simp add: s'_def effects_frame)
  show ?thesis
  proof (cases "relation_kind r = Supersedes")
    case False
    then have "pointers (objects s') = pointers (objects s)"
      by (simp add: s'_def answers_effect_pointers supersedes_effect_def split: relation_kind.splits)
    moreover have "edge s' b i = edge s b i" for b i
      using False by (auto simp: edge_def rels)
    ultimately show ?thesis
      using st ac by (simp add: superseded_by_pointers settled_cong [of s' s])
  next
    case True
    from endpoints_ok [OF ok] have rok: "relation_ok s r" by blast
    with True obtain i where to: "relation_to r = ToObject i"
      by (cases "relation_to r") (auto simp: relation_ok_def relationShapeError_def objectToObjectKinds_def Let_def)
    from rok to obtain target where tgt: "get (objects s) i = Some target" by (auto simp: relation_ok_def)
    note gates = supersedes_gates [OF ok True to tgt ids [OF tgt]]
    let ?b = "fromObjectId r"
    have ptr: "pointers (objects s') = (pointers (objects s))(i := Some (Some ?b, retractedAt target))"
      using True to tgt by (simp add: s'_def answers_effect_pointers supersedes_effect_def pointers_put)
    have old: "pointers (objects s) i = Some (None, retractedAt target)"
      using tgt gates(1) by (simp add: pointers_def)
    have "superseded_by (objects s') = insert (i, ?b) (superseded_by (objects s))"
      using old by (auto simp: superseded_by_pointers ptr split: if_splits)
    moreover have "(?b, i) \<notin> (superseded_by (objects s))\<^sup>*"
      using gates(2) walk_sound by blast
    ultimately have "acyclic (superseded_by (objects s'))"
      using ac by (simp add: acyclic_insert)
    moreover have "settled s'"
      unfolding settled_pointers
    proof (intro allI impI, elim conjE)
      fix b j sb d assume e: "edge s' b j" and p: "pointers (objects s') j = Some (sb, d)"
      have "(b = ?b \<and> j = i) \<or> edge s b j"
        using e True to by (auto simp: edge_def rels)
      then show "sb = Some b \<or> (\<exists>sb' d'. pointers (objects s') b = Some (sb', Some d'))"
      proof
        assume "b = ?b \<and> j = i"
        with p show ?thesis by (simp add: ptr)
      next
        assume e: "edge s b j"
        have "\<exists>sb' d'. pointers (objects s) j = Some (sb', d') \<and> (sb' = sb \<or> sb' = None)"
          using p old by (auto simp: ptr split: if_splits)
        with settledD [OF st e] have "sb = Some b \<or> (\<exists>sb' d'. pointers (objects s) b = Some (sb', Some d'))"
          by fastforce
        with old show ?thesis by (cases "b = i") (auto simp: ptr)
      qed
    qed
    ultimately show ?thesis by blast
  qed
qed

lemma dispatch_keeps_acyclic:
  assumes st: "settled s" and ac: "acyclic (superseded_by (objects s))" and rels: "relations_ok s"
    and ids: "\<And>i r. get (objects s) i = Some r \<Longrightarrow> object_id (object r) = i" and nr: "no_restore (event x)"
  shows "settled (fst (dispatch U s x)) \<and> acyclic (superseded_by (objects (fst (dispatch U s x))))"
proof (cases "event x")
  case (ObjectAccepted eid t ob)
  show ?thesis
  proof (cases "acceptance_refusal U s ob (actor x) (messages x)")
    case None
    let ?s = "s\<lparr>objects := put (object_id ob) (accepted_record t ob (actor x)) (objects s)\<rparr>"
    have "settled (mark_accepted ?s ob) = settled ?s"
      by (rule settled_cong) (simp_all add: mark_accepted_frame edge_def)
    with accept_keeps_acyclic [OF st ac rels acceptance_fresh [OF None]] None ObjectAccepted show ?thesis
      by (simp add: dispatch_def applyObjectAccepted_def mark_accepted_frame)
  next
    case (Some why)
    with st ac ObjectAccepted show ?thesis
      by (simp add: dispatch_def applyObjectAccepted_def refuse_def settled_def edge_def)
  qed
next
  case (ObjectCorrected c)
  then have c: "corrected_action c \<noteq> Restore" using nr by simp
  show ?thesis
  proof (rule applyObjectCorrected_cases [of s c "actor x"])
    fix r p
    assume r: "get (objects s) (corrected_objectId c) = Some r" and p: "planCorrection s c r = Planned p"
      and eq: "applyObjectCorrected s c (actor x) = (commitPlan s c r (actor x) (lapse_plan (object r) p), True)"
    from correct_keeps_acyclic [OF st ac ids c r p] eq show ?thesis
      by (simp add: dispatch_def ObjectCorrected)
  qed (use st ac in \<open>simp_all add: dispatch_def ObjectCorrected refuse_def settled_def edge_def\<close>)
next
  case (RelationAdded eid t r)
  show ?thesis
  proof (cases "relation_refusal s r (actor x)")
    case None
    from relate_keeps_acyclic [OF st ac ids None] None RelationAdded show ?thesis
      by (simp add: dispatch_def applyRelationAdded_def)
  next
    case (Some why)
    with st ac RelationAdded show ?thesis
      by (simp add: dispatch_def applyRelationAdded_def refuse_def settled_def edge_def)
  qed
qed (use st ac in \<open>auto simp: dispatch_def applyProposalRecorded_def applyProposalRejected_def
      applyProposalSuperseded_def refuse_def Let_def settled_def edge_def split: option.splits\<close>)

lemma acyclic_reachable:
  "folds U xs s \<Longrightarrow> \<forall>x \<in> set xs. no_restore (event x) \<Longrightarrow> settled s \<and> acyclic (superseded_by (objects s))"
proof (induction rule: folds.induct)
  case start
  then show ?case by (simp add: settled_def edge_def emptyState_def superseded_by_def acyclic_def)
next
  case (step xs s x)
  have "settled (fst (dispatch U s x)) \<and> acyclic (superseded_by (objects (fst (dispatch U s x))))"
    using step wf.holds [OF step.hyps(1)] relations_ok_reachable [OF step.hyps(1)]
    by (intro dispatch_keeps_acyclic) (auto simp: wf_object_def)
  then show ?case by (simp add: consume_simps settled_def edge_def)
qed

section \<open>What a restore does to the graph\<close>

lemma superseded_put:
  assumes "get os i = Some q" "supersededById q = None"
  shows "superseded_by (put i (setSuperseded q (Some b) t) os) = insert (i, b) (superseded_by os)"
  using assms by (auto simp: superseded_by_def setSuperseded_def Let_def split: if_splits payload.splits)

text \<open>What an edge takes back when its source is restored: a target that nothing supersedes.\<close>

definition free_target :: "core_state \<Rightarrow> relation \<Rightarrow> jstr \<Rightarrow> bool" where
  "free_target s e t \<longleftrightarrow> relation_to e = ToObject t \<and> (\<exists>q. get (objects s) t = Some q \<and> supersededById q = None)"

lemma unchanged_gates:
  assumes "plan_object p = object r" "isHuman a" "corrected_action c \<noteq> Retract"
  shows "correction_gates s c a r p = None"
proof -
  have "\<not> lapses q q" for q by (auto simp: lapses_def split: payload.split)
  then have "plan_object (lapse_plan (object r) p) = object r" by (simp add: lapse_plan_def assms(1))
  moreover have "object_type (object r) = Commitment" if "payload_owner (object_payload (object r)) = Some w" for w
    using that by (cases "object_payload (object r)") (auto simp: object_type_def)
  ultimately show ?thesis using assms
    by (auto simp: correction_gates_def correctionAttributionRefusal_def takes_on_refusal_def verification_refusal_def
        becomes_verified_def filter_empty_conv Let_def split: option.split)
qed

lemma restore_goes_through:
  assumes "get (objects s) (corrected_objectId c) = Some r" "retractedAt r \<noteq> None" "corrected_action c = Restore" "isHuman a"
  shows "snd (applyObjectCorrected s c a)"
  using assms by (auto simp: applyObjectCorrected_def correction_human_gate_def refuse_if_def planCorrection_def unchanged_gates Let_def)

lemma reapply_graph:
  "superseded_by (objects (reapply_edges i tm es s)) =
     superseded_by (objects s) \<union> {(t, i) | t. \<exists>e \<in> set es. free_target s e t}"
proof (induction es arbitrary: s)
  case (Cons e es)
  show ?case
  proof (cases "\<exists>t. free_target s e t")
    case False
    then have "reapply_edges i tm (e # es) s = reapply_edges i tm es s"
      by (auto simp: free_target_def split: relation_target.split option.split)
    with False Cons.IH [of s] show ?thesis by auto
  next
    case True
    then obtain t q where t: "relation_to e = ToObject t" "get (objects s) t = Some q" "supersededById q = None" by (auto simp: free_target_def)
    let ?s = "s\<lparr>objects := put t (setSuperseded q (Some i) tm) (objects s)\<rparr>"
    have R: "superseded_by (objects ?s) = insert (t, i) (superseded_by (objects s))" using superseded_put [OF t(2,3)] by simp
    have same: "free_target ?s e' t' \<longleftrightarrow> free_target s e' t' \<and> t' \<noteq> t" for e' t'
      by (auto simp: free_target_def setSuperseded_def Let_def split: payload.split)
    have "free_target s e t' \<longleftrightarrow> t' = t" for t' using t by (auto simp: free_target_def)
    moreover have "reapply_edges i tm (e # es) s = reapply_edges i tm es ?s" using t by simp
    ultimately show ?thesis using Cons.IH [of ?s] unfolding R same by auto
  qed
qed simp

lemma restore_graph:
  assumes "get (objects s) (corrected_objectId c) = Some r" "corrected_action c = Restore" "applyObjectCorrected s c a = (s', True)"
    and "object_id (object r) = corrected_objectId c"
  shows "superseded_by (objects s') = superseded_by (objects s) \<union>
    {(t, corrected_objectId c) | t. \<exists>e \<in> set (supersessionEdges s (corrected_objectId c)). free_target s e t}"
proof -
  let ?i = "corrected_objectId c"
  obtain p where p: "planCorrection s c r = Planned p" "s' = commitPlan s c r a (lapse_plan (object r) p)"
    using assms(1-3) by (auto simp: applyObjectCorrected_def refuse_def planCorrection_def Let_def split: option.splits if_splits)
  from p(1) assms(2) have after: "afterCommit p = ReapplySupersessions" "plan_object p = object r"
    by (auto simp: planCorrection_def Let_def split: if_splits)
  let ?q = "corrected_record c r a (lapse_plan (object r) p)"
  let ?s = "s\<lparr>corrections := corrections s @ [correction_entry c r a (lapse_plan (object r) p)], objects := put ?i ?q (objects s)\<rparr>"
  have "object_id (plan_object (lapse_plan (object r) p)) = ?i" using assms(4) after(2) by (simp add: lapse_plan_def Let_def)
  then have s': "s' = reapply_edges ?i (corrected_at c) (supersessionEdges ?s ?i) ?s"
    using after by (simp add: p(2) commitPlan_def lapse_plan_facts reapplySupersessions_def Let_def)
  have "superseded_by (objects ?s) = superseded_by (objects s)" using assms(1) by (auto simp: superseded_by_def split: if_splits)
  moreover have "free_target ?s e t = free_target s e t" for e t using assms(1) by (auto simp: free_target_def)
  moreover have "supersessionEdges ?s ?i = supersessionEdges s ?i" by (simp add: supersessionEdges_def)
  ultimately show ?thesis unfolding s' reapply_graph by simp
qed

text \<open>Edges that all lead into one node close a cycle exactly when that node already reaches one of their sources.\<close>

lemma rtrancl_insert_into: "(i, y) \<in> (R \<union> {(t, i) | t. P t})\<^sup>* \<longleftrightarrow> (i, y) \<in> R\<^sup>*"
proof
  assume "(i, y) \<in> (R \<union> {(t, i) | t. P t})\<^sup>*"
  then show "(i, y) \<in> R\<^sup>*" by (induction rule: rtrancl_induct) (auto intro: rtrancl_into_rtrancl)
qed (auto intro: rtrancl_mono [THEN subsetD])

lemma acyclic_into:
  "acyclic (R \<union> {(t, i) | t. P t}) \<longleftrightarrow> acyclic R \<and> (\<forall>t. P t \<longrightarrow> (i, t) \<notin> R\<^sup>*)"
proof (intro iffI conjI allI impI notI)
  let ?G = "R \<union> {(t, i) | t. P t}"
  assume a: "acyclic ?G"
  show "acyclic R" using a by (rule acyclic_subset) blast
  fix t assume "P t" "(i, t) \<in> R\<^sup>*"
  then have "(i, i) \<in> ?G\<^sup>+" using rtrancl_insert_into [of i t R P] by (intro rtrancl_into_trancl1 [of i t]) auto
  with a show False by (simp add: acyclic_def)
next
  let ?G = "R \<union> {(t, i) | t. P t}"
  assume a: "acyclic R \<and> (\<forall>t. P t \<longrightarrow> (i, t) \<notin> R\<^sup>*)"
  show "acyclic ?G" unfolding acyclic_def
  proof (intro allI notI)
    fix x assume c: "(x, x) \<in> ?G\<^sup>+"
    have "(x, y) \<in> ?G\<^sup>+ \<Longrightarrow> (x, y) \<in> R\<^sup>+ \<or> (\<exists>t. P t \<and> (x, t) \<in> R\<^sup>* \<and> (i, y) \<in> R\<^sup>*)" for y
    proof (induction rule: trancl_induct)
      case (base y)
      then show ?case by auto
    next
      case (step y z)
      then show ?case by (auto intro: trancl_into_trancl rtrancl_into_rtrancl trancl_into_rtrancl)
    qed
    from this [OF c] a show False by (meson acyclic_def rtrancl_trans)
  qed
qed

end
