(* ===== verification/Samples.thy ===== *)
theory Samples
  imports Supersession
begin

text \<open>
  Concrete logs the properties are evaluated on: short rooms with two people and a model, written
  with the constructors of the model and printed to the wire format by \<open>event_json\<close>.
\<close>

definition sample_time :: "string \<Rightarrow> jstr" where
  "sample_time sec = asc (''2026-01-01T00:00:'' @ sec @ ''.000Z'')"

definition by_human :: "string \<Rightarrow> trusted_context" where
  "by_human u = \<lparr>actor = Human (asc u), messages = None\<rparr>"

definition sample_object :: "string \<Rightarrow> payload \<Rightarrow> accepted_object" where
  "sample_object i p = \<lparr>object_id = asc i, object_roomId = asc ''room'', object_objectiveId = None,
     object_provenance = emptyProvenance, object_payload = p,
     object_createdAt = sample_time ''00'', object_updatedAt = sample_time ''00''\<rparr>"

definition accept_row :: "string \<Rightarrow> string \<Rightarrow> string \<Rightarrow> payload \<Rightarrow> raw_row" where
  "accept_row u sec i p =
     (event_json (ObjectAccepted (asc (''e'' @ sec)) (sample_time sec) (sample_object i p)), by_human u)"

definition correct_row :: "string \<Rightarrow> string \<Rightarrow> string \<Rightarrow> correction_action \<Rightarrow> fields \<Rightarrow> raw_row" where
  "correct_row u sec i act fs =
     (event_json (ObjectCorrected \<lparr>corrected_id = asc (''e'' @ sec), corrected_at = sample_time sec,
        corrected_objectId = asc i, corrected_action = act, patch = fs, toType = None,
        corrected_provenance = emptyProvenance, corrected_note = None\<rparr>), by_human u)"

definition relate_row :: "string \<Rightarrow> string \<Rightarrow> relation_kind \<Rightarrow> string \<Rightarrow> string \<Rightarrow> raw_row" where
  "relate_row u sec k i j =
     (event_json (RelationAdded (asc (''e'' @ sec)) (sample_time sec)
        \<lparr>relation_id = asc (''r'' @ sec), relation_roomId = asc ''room'', relation_kind = k,
         fromObjectId = asc i, relation_to = ToObject (asc j), relation_note = None,
         relation_createdAt = sample_time sec\<rparr>), by_human u)"

definition decision :: "string \<Rightarrow> payload" where
  "decision t = DecisionPayload (asc t) None Active"

text \<open>A commitment, a claim verified by a second person, two decisions of which one supersedes the other.\<close>

definition sample_log :: "raw_row list" where
  "sample_log =
     [accept_row ''ann'' ''01'' ''c1'' (CommitmentPayload (asc ''ship it'') (asc ''ann'') None CommitmentOpen),
      accept_row ''ann'' ''02'' ''k1'' (ClaimPayload (asc ''it is fast'') (asc ''ann'') Unverified),
      correct_row ''bob'' ''03'' ''k1'' Amend [(asc ''verification'', jstring ''verified'')],
      accept_row ''ann'' ''04'' ''d1'' (decision ''use x''),
      accept_row ''bob'' ''05'' ''d2'' (decision ''use y''),
      relate_row ''bob'' ''06'' Supersedes ''d2'' ''d1'',
      accept_row ''bob'' ''07'' ''q1'' (OpenQuestionPayload (asc ''which one?'') QuestionOpen),
      relate_row ''ann'' ''08'' Answers ''q1'' ''d2'',
      accept_row ''ann'' ''09'' ''k2'' (ClaimPayload (asc ''it is small'') (asc ''ann'') Unverified),
      correct_row ''ann'' ''10'' ''k2'' Retract []]"

text \<open>A model's reading: it is staged with its quote and accepted on the receipt of the window it cites.\<close>

definition sample_window :: "provenance_message list" where
  "sample_window =
     [\<lparr>message_id = asc ''m1'', authorId = asc ''ann'', body = asc ''Which database do we move first?''\<rparr>,
      \<lparr>message_id = asc ''m2'', authorId = asc ''bob'', body = asc ''Good point.''\<rparr>]"

definition by_model :: "trusted_context" where
  "by_model = \<lparr>actor = Model (asc ''m''), messages = Some sample_window\<rparr>"

definition propose_row :: "string \<Rightarrow> string \<Rightarrow> payload \<Rightarrow> string \<Rightarrow> raw_row" where
  "propose_row sec i p q = (event_json (ProposalRecorded (asc (''e'' @ sec)) (sample_time sec)
     \<lparr>proposal_id = asc i, proposal_roomId = asc ''room'', confidence = 9/10, proposer = ByModel (asc ''m''),
      cites = [asc ''m1''], quote = Some (asc q), proposal_interpretationId = None, proposal_payload = p,
      proposal_createdAt = sample_time ''00'', wire_status = Proposed\<rparr>), by_model)"

definition model_accept_row :: "string \<Rightarrow> string \<Rightarrow> string \<Rightarrow> payload \<Rightarrow> raw_row" where
  "model_accept_row sec i pid p = (event_json (ObjectAccepted (asc (''e'' @ sec)) (sample_time sec)
     ((sample_object i p)\<lparr>object_provenance := \<lparr>messageIds = [asc ''m1''], proposalId = Some (asc pid), interpretationId = None\<rparr>\<rparr>)), by_model)"

definition reading :: payload where
  "reading = OpenQuestionPayload (asc ''Which database do we move first?'') QuestionOpen"

definition model_rows :: "raw_row list" where
  "model_rows = [propose_row ''01'' ''p1'' reading ''Which database do we move first?'',
     model_accept_row ''02'' ''q1'' ''p1'' reading]"

section \<open>Evaluating a log as the room does\<close>

lemma reduce_live:
  "snd (live_session U emptyState rows) = rows \<Longrightarrow> reduce U rows = fst (live_session U emptyState rows)"
proof -
  assume "snd (live_session U emptyState rows) = rows"
  then have "mset (parse_rows U rows) =
      mset (event_log.kept U emptyState (parse_rows U rows))"
    using live_session_kept [of U emptyState rows] by simp
  from event_log.replay [OF this] show ?thesis
    by (simp add: reduce_run orderEvents_sort live_session_run)
qed

text \<open>The record the live session keeps under an id (for evaluating samples).\<close>

definition live_record :: "raw_row list \<Rightarrow> string \<Rightarrow> object_record option" where
  "live_record rows i = get (objects (fst (live_session ascii emptyState rows))) (asc i)"

lemma reduced_live:
  assumes "length (snd (live_session ascii emptyState rows)) = length rows"
  shows "reduce ascii rows = fst (live_session ascii emptyState rows)"
proof -
  have "length (snd (live_session U s rs)) \<le> length rs" for U s rs
    by (induction rs arbitrary: s) (auto simp: Let_def case_prod_beta le_SucI)
  moreover have "length (snd (live_session U s rs)) = length rs \<Longrightarrow> snd (live_session U s rs) = rs" for U s rs
  proof (induction rs arbitrary: s)
    case (Cons row rs)
    obtain j c where row: "row = (j, c)" by fastforce
    have "length (snd (live_session U (fst (appendEvent U s j c)) rs)) \<le> length rs"
      by (rule calculation)
    with Cons.prems Cons.IH [of "fst (appendEvent U s j c)"] show ?case
      by (auto simp: row Let_def case_prod_beta split: if_splits)
  qed simp
  ultimately show ?thesis using assms by (intro reduce_live) blast
qed

lemma reduced_record:
  assumes "length (snd (live_session ascii emptyState rows)) = length rows"
  shows "get (objects (reduce ascii rows)) (asc i) = live_record rows i"
  using reduced_live [OF assms] by (simp add: live_record_def)

end
