(* ===== verification/Receipt.thy ===== *)
theory Receipt
  imports Certification
begin

text \<open>
  What a clean receipt is worth.  The first part is about text: tokens reassemble the text they come
  from, so two texts bear each other exactly when they normalise alike, and the alignment names a
  difference whenever there is one.  The second part follows a clean receipt back to the message
  that carries the words, and from there to every object of the record no person has touched.
\<close>

section \<open>Tokens and alignment\<close>

lemma concat_token_list: "concat (token_list U s) = s"
  by (induction U s rule: token_list.induct) (auto simp: word_end_append)

lemma orderedTokens_eq_iff: "orderedTokens U q = orderedTokens U t \<longleftrightarrow> normalizeForReceipt q = normalizeForReceipt t"
  unfolding orderedTokens_def by (metis concat_token_list)

lemma align_refl: "align ts ts = ([], [], False)"
  by (induction ts) auto

lemma align_empty: "align qs ss = ([], [], False) \<Longrightarrow> qs = ss"
  by (induction qs ss rule: align.induct)
     (auto simp: spacing_def extra_quote_def extra_statement_def split: if_splits)

lemma alignTokens_verdict:
  assumes "undecidable (alignTokens P qs ss) = None"
  shows "borne (alignTokens P qs ss) \<longleftrightarrow> qs = ss"
    and "borne (alignTokens P qs ss) \<longleftrightarrow> unmatchedInStatement (alignTokens P qs ss) = [] \<and>
      unmatchedInQuote (alignTokens P qs ss) = [] \<and> \<not> whitespaceDiffers (alignTokens P qs ss)"
proof -
  obtain uq us ws where a: "align qs ss = (uq, us, ws)" by (metis prod_cases3)
  with align_empty align_refl have "qs = ss \<longleftrightarrow> uq = [] \<and> us = [] \<and> \<not> ws"
    by (metis (full_types) prod.inject)
  with assms a show "borne (alignTokens P qs ss) \<longleftrightarrow> qs = ss"
    and "borne (alignTokens P qs ss) \<longleftrightarrow> unmatchedInStatement (alignTokens P qs ss) = [] \<and>
      unmatchedInQuote (alignTokens P qs ss) = [] \<and> \<not> whitespaceDiffers (alignTokens P qs ss)"
    by (auto simp: alignTokens_def declined_def split: if_splits)
qed

lemma statementBearing_decided:
  assumes "undecidable (statementBearing U P q t) = None"
  shows "statementBearing U P q t = alignTokens P (orderedTokens U q) (orderedTokens U t)"
  using assms by (auto simp: statementBearing_def declined_def split: if_splits)

lemma significant_cong: "normalizeForReceipt q = normalizeForReceipt t \<Longrightarrow> significant U q = significant U t"
  by (simp add: significant_def orderedTokens_def)

section \<open>A clean receipt\<close>

lemma finding_if_empty [simp]: "finding_if b k s m = [] \<longleftrightarrow> \<not> b"
  by (simp add: finding_if_def)

lemma message_by_id_Some: "message_by_id ms i = Some m \<Longrightarrow> m \<in> set ms \<and> message_id m = i"
  by (auto simp: message_by_id_def find_Some_iff in_set_conv_nth rev_nth)
     (metis diff_less length_greater_0_conv less_nat_zero_code list.size(3) zero_less_Suc)

lemma cited_messages_set:
  "m \<in> set (cited_messages s ms) \<Longrightarrow> m \<in> set ms \<and> message_id m \<in> set (subject_provenance s)"
  by (auto simp: cited_messages_def dest: message_by_id_Some [OF sym] split: option.splits)

text \<open>Only the attribution check can end in a reclassification.\<close>

lemma finding_if_severity: "x \<in> set (finding_if b k s m) \<Longrightarrow> fst x = k \<and> fst (snd x) = s"
  by (simp add: finding_if_def split: if_splits)

lemma blocking_findings:
  "x \<in> set (location_findings q cited) \<Longrightarrow> fst (snd x) \<noteq> Reclassify"
  "x \<in> set (span_findings U P q bearing) \<Longrightarrow> fst (snd x) \<noteq> Reclassify"
  "x \<in> set (revision_findings U P s ms) \<Longrightarrow> fst (snd x) \<noteq> Reclassify"
  "x \<in> set (mood_findings s i) \<Longrightarrow> fst (snd x) \<noteq> Reclassify"
  "x \<in> set (structure_findings authored_text st i) \<Longrightarrow> fst (snd x) \<noteq> Reclassify"
  "x \<in> set (bearing_findings v i) \<Longrightarrow> fst (snd x) \<noteq> Reclassify"
  by (auto simp: location_findings_def Let_def dest!: finding_if_severity split: list.splits)
     (auto simp: span_findings_def revision_findings_def mood_findings_def structure_findings_def bearing_findings_def
      Let_def dest!: finding_if_severity split: if_splits option.splits later_revision.splits)

lemma reclassification_source:
  assumes "x \<in> set (provenance_findings U P s ms)" and "fst (snd x) = Reclassify"
  shows "x \<in> set (attribution_findings U (proposerIsMachine (subject_proposer s)) s (cited_messages s ms))"
  using assms
  by (auto simp: provenance_findings_def quote_findings_def Let_def dest: blocking_findings dest!: finding_if_severity
      split: if_splits)

lemma attribution_severity:
  assumes "x \<in> set (attribution_findings U b s cited)"
  shows "fst x = AttributedPersonNotAuthor"
    and "fst (snd x) = (if subject_type s = Commitment \<or> subject_type s = Decision then Reclassify else Reject)"
  using assms
  by (auto simp: attribution_findings_def Let_def dest!: finding_if_severity split: option.splits if_splits)

lemma severities:
  "x \<in> set (provenance_findings U P s ms) \<Longrightarrow> fst (snd x) = Reclassify \<Longrightarrow> fst x = AttributedPersonNotAuthor"
  by (rule attribution_severity(1) [OF reclassification_source])

lemma receipt_clean:
  assumes "acceptanceReceiptRefusal U a pid p ob window = None"
  obtains w where "window = Some w" and "provenance_findings U RECEIPT_POLICY (receipt_subject p ob) w = []"
proof -
  from assms obtain w where w: "window = Some w" by (cases window) (auto simp: acceptanceReceiptRefusal_def
      window_has_content_def split: if_splits)
  let ?ps = "validateProposalProvenance U RECEIPT_POLICY (receipt_subject p ob) w"
  from assms w have none: "rejectingProblems ?ps = []" "referringProblems ?ps = []"
      "\<not> list_ex (\<lambda>q. problem_kind q = AttributedPersonNotAuthor) ?ps"
    by (auto simp: acceptanceReceiptRefusal_def Let_def split: if_splits)
  have "False" if x: "(k, sev, m) \<in> set (provenance_findings U RECEIPT_POLICY (receipt_subject p ob) w)" for k sev m
  proof -
    from x have "\<exists>q \<in> set ?ps. problem_kind q = k \<and> severity q = sev"
      by (force simp: validateProposalProvenance_def Let_def)
    with none severities [OF x] show False
      by (cases sev) (auto simp: rejectingProblems_def referringProblems_def filter_empty_conv list_ex_iff)
  qed
  then have "provenance_findings U RECEIPT_POLICY (receipt_subject p ob) w = []"
    by (metis list.set_intros(1) neq_Nil_conv prod_cases3)
  with w that show thesis by blast
qed

text \<open>From no finding to the message that carries the words.\<close>

lemma location_clean:
  assumes "location_findings q cited = []"
  obtains m where "bearing_of q cited = Some m" and "m \<in> set cited"
    and "contains_text (normalizeForReceipt (stripReplyBlockquotes (body m))) (normalizeForReceipt q)"
proof -
  from assms obtain m rest where m: "bearingMessages q cited = m # rest"
    by (cases "bearingMessages q cited")
       (auto simp: location_findings_def finding_if_def Let_def split: list.splits if_splits)
  with assms have "bearing_of q cited = Some m"
    by (auto simp: location_findings_def finding_if_def bearing_of_def Let_def split: list.splits if_splits)
  moreover from m have "m \<in> set (bearingMessages q cited)" by simp
  then have "m \<in> set cited"
    and "contains_text (normalizeForReceipt (stripReplyBlockquotes (body m))) (normalizeForReceipt q)"
    by (auto simp: bearingMessages_def Let_def split: if_splits)
  ultimately show thesis by (rule that)
qed

lemma bearing_clean:
  assumes "bearing_findings (statementBearing U P q t) m = []"
  shows "normalizeForReceipt q = normalizeForReceipt t" and "hasContent U (Some t)"
proof -
  from assms have dec: "undecidable (statementBearing U P q t) = None" and b: "borne (statementBearing U P q t)"
    by (auto simp: bearing_findings_def split: option.splits if_splits)
  from statementBearing_decided [OF dec] alignTokens_verdict(1) b dec
  show "normalizeForReceipt q = normalizeForReceipt t"
    by (metis orderedTokens_eq_iff)
  from dec show "hasContent U (Some t)"
    by (auto simp: statementBearing_def isBlank_def declined_def split: if_splits)
qed

text \<open>
  A message of the window carries a text: it is one of those cited, its own words (reply quotations
  stripped) contain the text, and the text is all it says, up to spacing.
\<close>

definition carries :: "unicode \<Rightarrow> provenance_message list \<Rightarrow> jstr set \<Rightarrow> jstr \<Rightarrow> provenance_message \<Rightarrow> bool" where
  "carries U w ids t m \<longleftrightarrow> m \<in> set w \<and> message_id m \<in> ids \<and>
     contains_text (normalizeForReceipt (stripReplyBlockquotes (body m))) (normalizeForReceipt t) \<and>
     significant U (body m) = significant U t"

definition unrevised :: "unicode \<Rightarrow> receipt_policy \<Rightarrow> jstr \<Rightarrow> jstr list \<Rightarrow> provenance_message list \<Rightarrow> bool" where
  "unrevised U P t ids w \<longleftrightarrow> (\<exists>n. laterRevision U P t ids w = NoRevision n)"

lemma findings_clean:
  assumes clean: "provenance_findings U P s ms = []" and machine: "proposerIsMachine (subject_proposer s)"
    and st: "statement s = Some t"
  shows "normalizeForReceipt (subject_quote_text U s) = normalizeForReceipt t \<and>
    unrevised U P t (subject_provenance s) ms \<and>
    (\<exists>m. carries U ms (set (subject_provenance s)) t m \<and>
      (\<forall>w. attributedTo s = Some w \<and> w \<noteq> [] \<and> ATTRIBUTION_FIELDS (subject_type s) \<noteq> [] \<longrightarrow> authorId m = w))"
proof -
  define q where "q = subject_quote_text U s"
  define cited where "cited = cited_messages s ms"
  from clean machine have prov: "subject_provenance s \<noteq> []"
    by (auto simp: provenance_findings_def Let_def finding_if_def split: if_splits)
  with clean machine have q: "normalizeForReceipt q \<noteq> []"
    and known: "\<forall>i \<in> set (subject_provenance s). message_by_id ms i \<noteq> None"
    and quote: "quote_findings U P True s cited ms = []" and attr: "attribution_findings U True s cited = []"
    by (auto simp: provenance_findings_def Let_def q_def cited_def)
  from prov known have cited: "cited \<noteq> []"
    by (cases "subject_provenance s") (auto simp: cited_def cited_messages_def split: option.splits)
  with quote q have loc: "location_findings q cited = []"
    by (simp add: quote_findings_def Let_def q_def)
  from loc obtain m where bear: "bearing_of q cited = Some m" and m: "m \<in> set cited"
    and own: "contains_text (normalizeForReceipt (stripReplyBlockquotes (body m))) (normalizeForReceipt q)"
    by (rule location_clean)
  from quote q cited bear st have span: "span_findings U P q (Some m) = []"
    and rev: "revision_findings U P s ms = []"
    and "bearing_findings (statementBearing U P q t) (Some (message_id m)) = []"
    by (simp_all add: quote_findings_def Let_def q_def or_empty_def)
  with bearing_clean have same: "normalizeForReceipt q = normalizeForReceipt t" and "hasContent U (Some t)"
    by blast+
  with rev st have "unrevised U P t (subject_provenance s) ms"
    by (auto simp: unrevised_def revision_findings_def or_empty_def split: later_revision.splits)
  moreover from span significant_cong [OF same, of U] have "significant U (body m) = significant U t"
    by (auto simp: span_findings_def quoteCoversOwnText_def Let_def split: if_splits)
  with own same m have "carries U ms (set (subject_provenance s)) t m"
    by (auto simp: carries_def cited_def dest: cited_messages_set)
  moreover have "authorId m = w" if "attributedTo s = Some w" "w \<noteq> []" "ATTRIBUTION_FIELDS (subject_type s) \<noteq> []" for w
    using attr that cited q bear by (auto simp: attribution_findings_def Let_def q_def finding_if_def split: if_splits)
  ultimately show ?thesis using same q_def by blast
qed

section \<open>A machine's acceptance\<close>

lemma machine_proposer: "\<not> isHuman a \<Longrightarrow> actorMatchesProposer a p \<Longrightarrow> proposerIsMachine p"
  by (cases a) auto

text \<open>What the gates of a machine's acceptance establish about the window it was given.\<close>

lemma machine_acceptance:
  assumes acc: "acceptance_refusal U s ob a ms = None" and machine: "\<not> isHuman a"
  shows "\<exists>r w m. cited_proposal s ob = Some r \<and> ms = Some w \<and>
    carries U w (set (messageIds (object_provenance ob))) (objectStatement ob) m \<and>
    (\<forall>c. payload_claimant (object_payload ob) = Some c \<and> c \<noteq> [] \<longrightarrow> authorId m = c) \<and>
    unrevised U RECEIPT_POLICY (objectStatement ob) (cites (proposal r)) w \<and>
    \<not> below_floor (confidence (proposal r)) (MODEL_ACCEPTANCE_FLOOR (object_type ob)) \<and>
    canonicalJson (payload_json (object_payload ob)) = canonicalJson (payload_json (proposal_payload (proposal r)))"
proof -
  from acceptance_by_machine [OF acc machine] obtain pid where pid: "proposalId (object_provenance ob) = Some pid"
    by auto
  from acc have cit: "citation_refusal s ob a = None" and mach: "machine_refusal U s ob a ms = None"
    by (simp_all add: acceptance_refusal_def)
  from cit pid obtain r where r: "cited_proposal s ob = Some r" "proposal_type (proposal r) = object_type ob"
    and "actorMatchesProposer a (proposer (proposal r))"
    by (auto simp: citation_refusal_def cited_proposal_def split: option.splits)
  with machine machine_proposer have pm: "proposerIsMachine (proposer (proposal r))" by blast
  from mach pid r(1) machine have rec: "acceptanceReceiptRefusal U a pid (proposal r) ob ms = None"
    and floor: "\<not> below_floor (confidence (proposal r)) (MODEL_ACCEPTANCE_FLOOR (object_type ob))"
    by (auto simp: machine_refusal_def split: option.splits if_splits)
  from rec have same: "canonicalJson (payload_json (object_payload ob)) = canonicalJson (payload_json (proposal_payload (proposal r)))"
    and "sort (messageIds (object_provenance ob)) = sort (cites (proposal r))"
    by (auto simp: acceptanceReceiptRefusal_def split: if_splits)
  then have ids: "set (messageIds (object_provenance ob)) = set (cites (proposal r))"
    by (metis set_sort)
  from rec obtain w where w: "ms = Some w"
    and clean: "provenance_findings U RECEIPT_POLICY (receipt_subject (proposal r) ob) w = []"
    by (rule receipt_clean)
  have sub: "statement (receipt_subject (proposal r) ob) = Some (objectStatement ob)"
    "subject_proposer (receipt_subject (proposal r) ob) = proposer (proposal r)"
    "subject_provenance (receipt_subject (proposal r) ob) = cites (proposal r)"
    "subject_type (receipt_subject (proposal r) ob) = object_type ob"
    "attributedTo (receipt_subject (proposal r) ob) = receipt_attributedTo (object_payload ob)"
    using r(2) by (simp_all add: receipt_subject_def)
  from findings_clean [OF clean _ sub(1)] pm sub obtain m where
      m: "carries U w (set (cites (proposal r))) (objectStatement ob) m"
    and rev: "unrevised U RECEIPT_POLICY (objectStatement ob) (cites (proposal r)) w"
    and attr: "\<forall>c. receipt_attributedTo (object_payload ob) = Some c \<and> c \<noteq> [] \<and>
      ATTRIBUTION_FIELDS (object_type ob) \<noteq> [] \<longrightarrow> authorId m = c"
    by auto
  have "authorId m = c" if "payload_claimant (object_payload ob) = Some c" "c \<noteq> []" for c
    using that attr by (cases "object_payload ob") (auto simp: object_type_def ATTRIBUTION_FIELDS_def
        fieldsWithRole_def)
  with r(1) w m rev floor same ids show ?thesis by auto
qed

section \<open>The words of an unconfirmed object were written\<close>

definition written :: "unicode \<Rightarrow> authored_event list \<Rightarrow> jstr \<Rightarrow> object_record \<Rightarrow> bool" where
  "written U xs i r \<longleftrightarrow> (epistemicStateOf r = Unconfirmed \<longrightarrow>
     (\<exists>x \<in> set xs. \<exists>w m. acts_on (event x) = Some i \<and> messages x = Some w \<and>
        carries U w (set (messageIds (object_provenance (object r)))) (objectStatement (object r)) m \<and>
        (\<forall>c. payload_claimant (object_payload (object r)) = Some c \<longrightarrow> authorId m = c)))"

interpretation words: content_invariant U "written U" for U
proof unfold_locales
  fix xs i r r'
  assume "written U xs i r" and "bookkept r r'"
  then show "written U xs i r'"
    by (simp add: written_def bookkept_facts [OF \<open>bookkept r r'\<close>])
next
  fix x :: authored_event and eid t ob i s and xs :: "authored_event list"
  assume x: "event x = ObjectAccepted eid t ob" "object_id ob = i" and ok: "object_ok ob"
    and acc: "acceptance_refusal U s ob (actor x) (messages x) = None"
  show "written U (xs @ [x]) i (accepted_record t ob (actor x))"
  proof (cases "isHuman (actor x)")
    case True
    then show ?thesis by (simp add: written_def epistemicStateOf_def accepted_record_def)
  next
    case False
    have claimant: "c \<noteq> []" if "payload_claimant (object_payload ob) = Some c" for c
      using ok that by (cases "object_payload ob") (auto simp: object_ok_def dest: Id_nonempty)
    from machine_acceptance [OF acc False] obtain w m where "messages x = Some w"
      "carries U w (set (messageIds (object_provenance ob))) (objectStatement ob) m"
      "\<forall>c. payload_claimant (object_payload ob) = Some c \<and> c \<noteq> [] \<longrightarrow> authorId m = c" by blast
    moreover have "acts_on (event x) = Some i" using x by simp
    ultimately show ?thesis
      using claimant unfolding written_def accepted_record_def by auto
  qed
next
  fix x :: authored_event and c i u s r p and xs :: "authored_event list"
  show "written U (xs @ [x]) i (corrected_record c r (Human u) (lapse_plan (object r) p))"
  proof -
    have "epistemicStateOf (corrected_record c r (Human u) (lapse_plan (object r) p)) = Confirmed"
      by (auto simp: epistemicStateOf_def)
    then show ?thesis by (simp add: written_def)
  qed
qed (auto simp: written_def)

section \<open>Properties\<close>

text \<open>
  C6. A statement is borne by its quote exactly when the two normalise to the same text: wherever the
  bearing check gives a verdict at all, it is equality of the normalised texts, and when it refuses
  it names a difference, so the contradiction branch of the receipt check is unreachable.
\<close>

theorem borne_is_same_text:
  assumes "undecidable (statementBearing U P q t) = None"
  shows "(borne (statementBearing U P q t) \<longleftrightarrow> normalizeForReceipt q = normalizeForReceipt t) \<and>
    (\<not> borne (statementBearing U P q t) \<longrightarrow> unmatchedInStatement (statementBearing U P q t) \<noteq> [] \<or>
       unmatchedInQuote (statementBearing U P q t) \<noteq> [] \<or> whitespaceDiffers (statementBearing U P q t))"
  using alignTokens_verdict [of P "orderedTokens U q" "orderedTokens U t"] assms orderedTokens_eq_iff
  unfolding statementBearing_decided [OF assms] by blast

theorem borne_is_same_text_witness:
  "borne (statementBearing ascii RECEIPT_POLICY (asc ''we  ship'') (asc ''we ship'')) \<and>
   \<not> borne (statementBearing ascii RECEIPT_POLICY (asc ''we ship'') (asc ''we do not ship''))"
proof -
  have "undecidable (statementBearing ascii RECEIPT_POLICY (asc ''we  ship'') (asc ''we ship'')) = None"
    "undecidable (statementBearing ascii RECEIPT_POLICY (asc ''we ship'') (asc ''we do not ship'')) = None"
    by code_simp+
  moreover have "normalizeForReceipt (asc ''we  ship'') = normalizeForReceipt (asc ''we ship'')"
    "normalizeForReceipt (asc ''we ship'') \<noteq> normalizeForReceipt (asc ''we do not ship'')"
    by code_simp+
  ultimately show ?thesis by (simp add: borne_is_same_text)
qed

end
