(* ===== verification/Wire.thy ===== *)
theory Wire
  imports State
begin

text \<open>
  The wire format: what the schema of an event admits, as a predicate on events, and that an event it admits is
  read back unchanged from its printed form, whether the fields that have a default are written out or left out.
\<close>

section \<open>What the schemas of the records admit\<close>

fun proposer_fits :: "proposer \<Rightarrow> bool" where
  "proposer_fits (ByModel m) = (m \<noteq> [])"
| "proposer_fits (ByHuman u) = Id u"
| "proposer_fits (ByAgent u) = Id u"

definition proposal_fits :: "unicode \<Rightarrow> proposal \<Rightarrow> bool" where
  "proposal_fits U p \<longleftrightarrow> Id (proposal_id p) \<and> Id (proposal_roomId p) \<and>
     0 \<le> confidence p \<and> confidence p \<le> 1 \<and> proposer_fits (proposer p) \<and> list_all Id (cites p) \<and>
     pred_option Id (proposal_interpretationId p) \<and> payload_ok (proposal_payload p) \<and>
     Timestamp (proposal_createdAt p) \<and>
     ((\<exists>u. proposer p = ByHuman u) \<or> cites p \<noteq> [] \<and> \<not> isBlank U (quote p))"

lemma machine_refinement: "Proposal_refinement U p \<longleftrightarrow> (\<exists>u. proposer p = ByHuman u) \<or> cites p \<noteq> [] \<and> \<not> isBlank U (quote p)"
  by (cases "proposer p") (simp_all add: Proposal_refinement_def)

fun target_fits :: "unicode \<Rightarrow> relation_target \<Rightarrow> bool" where
  "target_fits U (ToObject i) = Id i"
| "target_fits U (ToMessage i) = Id i"
| "target_fits U (ToUrl u) = is_url U u"
| "target_fits U (ToFile f) = (f \<noteq> [])"

definition relation_fits :: "unicode \<Rightarrow> relation \<Rightarrow> bool" where
  "relation_fits U r \<longleftrightarrow> Id (relation_id r) \<and> Id (relation_roomId r) \<and> Id (fromObjectId r) \<and>
     target_fits U (relation_to r) \<and> Timestamp (relation_createdAt r)"

definition correction_fits :: "correction_event \<Rightarrow> bool" where
  "correction_fits c \<longleftrightarrow> Id (corrected_id c) \<and> Timestamp (corrected_at c) \<and> Id (corrected_objectId c) \<and>
     provenance_ok (corrected_provenance c)"

fun event_fits :: "unicode \<Rightarrow> core_event \<Rightarrow> bool" where
  "event_fits U (ProposalRecorded i t p) \<longleftrightarrow> Id i \<and> Timestamp t \<and> proposal_fits U p"
| "event_fits U (ProposalRejected i t p r) \<longleftrightarrow> Id i \<and> Timestamp t \<and> Id p"
| "event_fits U (ProposalSuperseded i t p b r) \<longleftrightarrow> Id i \<and> Timestamp t \<and> Id p \<and> pred_option Id b"
| "event_fits U (ObjectAccepted i t ob) \<longleftrightarrow> Id i \<and> Timestamp t \<and> object_ok ob"
| "event_fits U (ObjectCorrected c) \<longleftrightarrow> correction_fits c"
| "event_fits U (RelationAdded i t r) \<longleftrightarrow> Id i \<and> Timestamp t \<and> relation_fits U r"

section \<open>Printing without defaults\<close>

text \<open>A field that has its default value is left out.\<close>

definition unless :: "'a \<Rightarrow> 'a \<Rightarrow> string \<Rightarrow> json \<Rightarrow> fields" where
  "unless d x k j = (if x = d then [] else [(asc k, j)])"

definition terse_provenance :: "provenance \<Rightarrow> json" where
  "terse_provenance p = JObj (unless [] (messageIds p) ''messageIds'' (JArr (map JStr (messageIds p))) @
     unless None (proposalId p) ''proposalId'' (opt_json JStr (proposalId p)) @
     unless None (interpretationId p) ''interpretationId'' (opt_json JStr (interpretationId p)))"

fun terse_payload :: "payload \<Rightarrow> fields" where
  "terse_payload (DecisionPayload s d st) = (asc ''statement'', JStr s) # unless None d ''decidedBy'' (opt_json JStr d) @
     unless Active st ''status'' (jstring (decision_status_name st))"
| "terse_payload (CommitmentPayload s w d st) = (asc ''statement'', JStr s) # (asc ''owner'', JStr w) #
     unless None d ''due'' (opt_json JStr d) @ unless CommitmentOpen st ''status'' (jstring (commitment_status_name st))"
| "terse_payload (OpenQuestionPayload q st) = (asc ''question'', JStr q) #
     unless QuestionOpen st ''status'' (jstring (question_status_name st))"
| "terse_payload (ClaimPayload s c v) = (asc ''statement'', JStr s) # (asc ''claimant'', JStr c) #
     unless Unverified v ''verification'' (jstring (verification_name v))"
| "terse_payload (ObjectivePayload t st) = (asc ''title'', JStr t) #
     unless ObjectiveOpen st ''status'' (jstring (objective_status_name st))"

definition terse_object :: "accepted_object \<Rightarrow> json" where
  "terse_object ob = JObj
     ([(asc ''id'', JStr (object_id ob)), (asc ''roomId'', JStr (object_roomId ob)),
       (asc ''type'', jstring (type_name (object_type ob))), (asc ''payload'', JObj (terse_payload (object_payload ob))),
       (asc ''createdAt'', JStr (object_createdAt ob)), (asc ''updatedAt'', JStr (object_updatedAt ob))] @
      unless None (object_objectiveId ob) ''objectiveId'' (opt_json JStr (object_objectiveId ob)) @
      unless emptyProvenance (object_provenance ob) ''provenance'' (terse_provenance (object_provenance ob)))"

definition terse_proposal :: "proposal \<Rightarrow> json" where
  "terse_proposal p = JObj
     ([(asc ''id'', JStr (proposal_id p)), (asc ''roomId'', JStr (proposal_roomId p)),
       (asc ''confidence'', JNum (confidence p)), (asc ''proposer'', proposer_json (proposer p)),
       (asc ''createdAt'', JStr (proposal_createdAt p)), (asc ''type'', jstring (type_name (proposal_type p))),
       (asc ''payload'', JObj (terse_payload (proposal_payload p)))] @
      unless [] (cites p) ''provenance'' (JArr (map JStr (cites p))) @
      unless None (quote p) ''quote'' (opt_json JStr (quote p)) @
      unless None (proposal_interpretationId p) ''interpretationId'' (opt_json JStr (proposal_interpretationId p)) @
      unless Proposed (wire_status p) ''status'' (jstring (proposal_status_name (wire_status p))))"

definition terse_relation :: "relation \<Rightarrow> json" where
  "terse_relation r = JObj
     ([(asc ''id'', JStr (relation_id r)), (asc ''roomId'', JStr (relation_roomId r)),
       (asc ''kind'', jstring (relation_kind_name (relation_kind r))), (asc ''fromObjectId'', JStr (fromObjectId r)),
       (asc ''to'', target_json (relation_to r)), (asc ''createdAt'', JStr (relation_createdAt r))] @
      unless None (relation_note r) ''note'' (opt_json JStr (relation_note r)))"

definition event_head :: "jstr \<Rightarrow> jstr \<Rightarrow> string \<Rightarrow> fields" where
  "event_head i t ty = [(asc ''id'', JStr i), (asc ''at'', JStr t), (asc ''type'', jstring ty)]"

fun terse_json :: "core_event \<Rightarrow> json" where
  "terse_json (ProposalRecorded i t p) = JObj (event_head i t ''proposal_recorded'' @ [(asc ''proposal'', terse_proposal p)])"
| "terse_json (ProposalRejected i t p r) = JObj (event_head i t ''proposal_rejected'' @ (asc ''proposalId'', JStr p) #
     unless None r ''reason'' (opt_json JStr r))"
| "terse_json (ProposalSuperseded i t p b r) = JObj (event_head i t ''proposal_superseded'' @ (asc ''proposalId'', JStr p) #
     unless None b ''supersededByProposalId'' (opt_json JStr b) @ unless None r ''reason'' (opt_json JStr r))"
| "terse_json (ObjectAccepted i t ob) = JObj (event_head i t ''object_accepted'' @ [(asc ''object'', terse_object ob)])"
| "terse_json (ObjectCorrected c) = JObj (event_head (corrected_id c) (corrected_at c) ''object_corrected'' @
     (asc ''objectId'', JStr (corrected_objectId c)) # (asc ''action'', jstring (action_name (corrected_action c))) #
     unless [] (patch c) ''patch'' (JObj (patch c)) @
     unless None (toType c) ''toType'' (opt_json (\<lambda>ty. jstring (type_name ty)) (toType c)) @
     unless emptyProvenance (corrected_provenance c) ''provenance'' (terse_provenance (corrected_provenance c)) @
     unless None (corrected_note c) ''note'' (opt_json JStr (corrected_note c)))"
| "terse_json (RelationAdded i t r) = JObj (event_head i t ''relation_added'' @ [(asc ''relation'', terse_relation r)])"

section \<open>Printing what fits and reading it back\<close>

lemma string_schema_Some [simp]: "string_schema j = Some s \<longleftrightarrow> j = JStr s"
  by (auto simp: string_schema_def split: json.splits)

lemma string_schema_JStr [simp]: "string_schema (JStr s) = Some s"
  by simp

lemma nullable_string [simp]: "nullable string_schema (opt_json JStr x) = Some x"
  by (rule nullable_opt_json) simp

lemma nullable_type [simp]: "nullable AcceptedObjectType (opt_json (\<lambda>ty. jstring (type_name ty)) x) = Some x"
  by (rule nullable_opt_json) simp

lemma status_name [simp]: "enum_schema proposal_statuses (jstring (proposal_status_name st)) = Some st"
  by (cases st) (simp_all add: enum_schema_def proposal_statuses_def)

lemma kind_name [simp]: "enum_schema relation_kinds (jstring (relation_kind_name k)) = Some k"
  by (cases k) (simp_all add: enum_schema_def relation_kinds_def)

lemma action_name_read [simp]: "enum_schema correction_actions (jstring (action_name a)) = Some a"
  by (cases a) (simp_all add: enum_schema_def correction_actions_def)

lemma proposer_print: "proposer_fits p \<Longrightarrow> Proposer_schema (proposer_json p) = Some p"
  by (cases p) (simp_all add: Proposer_schema_def object_schema_def required_def)

lemma target_print: "target_fits U t \<Longrightarrow> RelationTarget U (target_json t) = Some t"
  by (cases t) (simp_all add: RelationTarget_def object_schema_def required_def)

lemma proposal_print:
  assumes "proposal_fits U p"
  shows "Proposal U (proposal_json p) = Some p"
proof -
  from assms have "ProposalShape (proposal_json p) = Some p"
    by (simp add: proposal_fits_def ProposalShape_def proposal_json_def object_schema_def required_def defaulted_def
        proposer_print confidence_schema_def payload_json_def payload_roundtrip_aux proposal_type_def)
  with assms show ?thesis by (simp add: Proposal_def proposal_fits_def machine_refinement)
qed

lemma relation_print: "relation_fits U r \<Longrightarrow> Relation U (relation_json r) = Some r"
  by (simp add: relation_fits_def Relation_def relation_json_def object_schema_def required_def defaulted_def target_print)

lemma event_print: "event_fits U e \<Longrightarrow> CoreEvent U (event_json e) = Some e"
  by (cases e) (simp_all add: CoreEvent_def object_schema_def CoreEventVariants_def required_def defaulted_def
      proposal_print object_roundtrip_aux relation_print ObjectCorrected_schema_def correction_fits_def
      record_schema_def provenance_roundtrip)

text \<open>Whatever comes after it, a field left out at its default is read as its default, and one written out as its value.\<close>

lemma field_unless [simp]: "field (unless d x k j @ fs) k' = (if x \<noteq> d \<and> k = k' then Some j else field fs k')"
  by (simp add: unless_def)

lemma field_unless_last [simp]: "field (unless d x k j) k' = (if x \<noteq> d \<and> k = k' then Some j else None)"
  by (simp add: unless_def)

lemmas terse_reads = object_schema_def required_def defaulted_def

lemma provenance_terse: "provenance_ok p \<Longrightarrow> Provenance (terse_provenance p) = Some p"
  by (cases p) (auto simp: provenance_ok_def Provenance_def terse_provenance_def terse_reads)

lemma payload_terse: "payload_ok p \<Longrightarrow> objectPayloadByType (payload_type p) (terse_payload p) = Some p"
  by (cases p) (auto simp: DecisionPayload_schema_def CommitmentPayload_schema_def OpenQuestionPayload_schema_def
      ClaimPayload_schema_def ObjectivePayload_schema_def terse_reads)

lemma object_terse: "object_ok ob \<Longrightarrow> AcceptedObject (terse_object ob) = Some ob"
  by (cases ob) (auto simp: object_ok_def AcceptedObject_def terse_object_def terse_reads provenance_terse object_type_def payload_terse)

lemma proposal_terse: "proposal_fits U p \<Longrightarrow> Proposal U (terse_proposal p) = Some p"
proof -
  assume f: "proposal_fits U p"
  then have "ProposalShape (terse_proposal p) = Some p"
    by (cases p) (auto simp: proposal_fits_def ProposalShape_def terse_proposal_def terse_reads
        proposer_print confidence_schema_def payload_terse proposal_type_def)
  with f show ?thesis by (simp add: Proposal_def proposal_fits_def machine_refinement)
qed

lemma relation_terse: "relation_fits U r \<Longrightarrow> Relation U (terse_relation r) = Some r"
  by (cases r) (auto simp: relation_fits_def Relation_def terse_relation_def terse_reads target_print)

lemma event_terse: "event_fits U e \<Longrightarrow> CoreEvent U (terse_json e) = Some e"
proof (cases e)
  case (ObjectCorrected c)
  assume "event_fits U e"
  with ObjectCorrected show ?thesis
    by (cases c) (auto simp: CoreEvent_def CoreEventVariants_def event_head_def terse_reads ObjectCorrected_schema_def correction_fits_def
        record_schema_def provenance_terse)
qed (auto simp: CoreEvent_def CoreEventVariants_def event_head_def terse_reads proposal_terse object_terse relation_terse)

section \<open>What is read fits\<close>

lemma proposer_read: "Proposer_schema j = Some p \<Longrightarrow> proposer_fits p"
  by (auto simp: Proposer_schema_def object_schema_Some required_def bind_eq_Some_conv split: if_splits)

lemma target_read: "RelationTarget U j = Some t \<Longrightarrow> target_fits U t"
  by (auto simp: RelationTarget_def object_schema_Some required_def bind_eq_Some_conv split: if_splits)

lemma confidence_read: "confidence_schema j = Some x \<Longrightarrow> 0 \<le> x \<and> x \<le> 1"
  by (auto simp: confidence_schema_def split: json.splits if_splits)

lemma proposal_read: "Proposal U j = Some p \<Longrightarrow> proposal_fits U p"
  by (auto simp: Proposal_def ProposalShape_def object_schema_Some required_def bind_eq_Some_conv proposal_fits_def machine_refinement
      split: if_splits
      elim!: defaulted_ok [where Q = "pred_option Id"] defaulted_ok [where Q = "list_all Id"]
      dest: proposer_read confidence_read payload_schema_ok nullable_refined_Some array_of_ids_Some)

lemma relation_read: "Relation U j = Some r \<Longrightarrow> relation_fits U r"
  by (auto simp: Relation_def object_schema_Some required_def bind_eq_Some_conv relation_fits_def dest: target_read)

lemma correction_read: "ObjectCorrected_schema i t fs = Some e \<Longrightarrow> Id i \<Longrightarrow> Timestamp t \<Longrightarrow> event_fits U e"
  by (auto simp: ObjectCorrected_schema_def required_def bind_eq_Some_conv correction_fits_def
      elim!: defaulted_ok [where Q = provenance_ok] dest: provenance_schema_ok)

lemma event_read: "CoreEvent U j = Some e \<Longrightarrow> event_fits U e"
  by (auto simp: CoreEvent_def object_schema_Some CoreEventVariants_def required_def bind_eq_Some_conv
      split: if_splits elim!: defaulted_ok [where Q = "pred_option Id"]
      dest: proposal_read relation_read object_schema_sound correction_read nullable_refined_Some)

section \<open>A printed value reads back as itself or not at all\<close>

lemma nullable_print: "nullable (refined P) (opt_json JStr x) = Some y \<Longrightarrow> y = x"
  by (cases x) (auto simp: nullable_def opt_json_def split: if_splits)

lemma array_print: "array_of (refined P) (JArr (map JStr xs)) = Some ys \<Longrightarrow> ys = xs"
proof -
  have "array_schema (refined P) (map JStr xs) = Some ys \<Longrightarrow> ys = xs" for ys
    by (induction xs arbitrary: ys) (auto simp: bind_eq_Some_conv split: if_splits)
  then show "array_of (refined P) (JArr (map JStr xs)) = Some ys \<Longrightarrow> ?thesis" by (simp add: array_of_def)
qed

lemma payload_print_read: "objectPayloadByType (payload_type p) (payload_fields p) = Some p' \<Longrightarrow> p' = p"
  by (cases p) (auto simp: DecisionPayload_schema_def CommitmentPayload_schema_def OpenQuestionPayload_schema_def
      ClaimPayload_schema_def ObjectivePayload_schema_def required_def defaulted_def bind_eq_Some_conv
      dest: nullable_print split: if_splits)

lemma provenance_print_read: "Provenance (provenance_json p) = Some p' \<Longrightarrow> p' = p"
  by (auto simp: Provenance_def provenance_json_def object_schema_def defaulted_def bind_eq_Some_conv
      dest!: nullable_print array_print)

lemma object_print_read: "AcceptedObject (object_json ob) = Some ob' \<Longrightarrow> ob' = ob"
  by (auto simp: AcceptedObject_def object_json_def object_schema_def required_def defaulted_def bind_eq_Some_conv
      payload_json_def object_type_def
      dest!: nullable_print provenance_print_read payload_print_read split: if_splits)

lemma target_print_read: "RelationTarget U (target_json t) = Some t' \<Longrightarrow> t' = t"
  by (cases t) (auto simp: RelationTarget_def object_schema_def required_def split: if_splits)

lemma relation_print_read: "Relation U (relation_json r) = Some r' \<Longrightarrow> r' = r"
  by (auto simp: Relation_def relation_json_def object_schema_def required_def defaulted_def bind_eq_Some_conv
      dest!: target_print_read split: if_splits)

lemma event_print_read:
  "CoreEvent U (event_json (ObjectAccepted i t ob)) = Some e \<Longrightarrow> e = ObjectAccepted i t ob"
  "CoreEvent U (event_json (RelationAdded i t r)) = Some e \<Longrightarrow> e = RelationAdded i t r"
  by (auto simp: CoreEvent_def object_schema_def CoreEventVariants_def required_def bind_eq_Some_conv
      dest!: object_print_read relation_print_read split: if_splits)

section \<open>Properties\<close>

text \<open>
  C17. What the event schema admits, and that it loses nothing.  An event can be read from some JSON value exactly when
  it fits: its ids and timestamps are ids and timestamps, its confidence is between zero and one, its payload,
  provenance, proposer and target are in range, and a machine's proposal cites messages and quotes them.  Such an event
  is read back unchanged from its printed form, and from the form that leaves out every field at its default.  A payload
  that names its own actor is not read at all.
\<close>

theorem event_roundtrip:
  "((\<exists>j. CoreEvent U j = Some e) \<longleftrightarrow> event_fits U e) \<and>
   (event_fits U e \<longrightarrow> CoreEvent U (event_json e) = Some e \<and> CoreEvent U (terse_json e) = Some e) \<and>
   (field fs ''actor'' \<noteq> None \<longrightarrow> CoreEvent U (JObj fs) = None)"
proof -
  have "field fs ''actor'' \<noteq> None \<Longrightarrow> CoreEvent U (JObj fs) = None" by (simp add: CoreEvent_def object_schema_def)
  then show ?thesis using event_read event_print event_terse by blast
qed

definition wire_stamp :: jstr where
  "wire_stamp = asc ''2026-01-01T00:00:00.000Z''"

definition wire_proposal :: proposal where
  "wire_proposal = \<lparr>proposal_id = asc ''p1'', proposal_roomId = asc ''r1'', confidence = 1 / 2, proposer = ByModel (asc ''m''),
     cites = [asc ''m1''], quote = Some (asc ''we ship''), proposal_interpretationId = None,
     proposal_payload = ClaimPayload (asc ''we ship'') (asc ''ann'') Unverified, proposal_createdAt = wire_stamp, wire_status = Proposed\<rparr>"

theorem event_roundtrip_witness:
  "CoreEvent ascii (event_json (ProposalRecorded (asc ''e1'') wire_stamp wire_proposal)) =
     Some (ProposalRecorded (asc ''e1'') wire_stamp wire_proposal) \<and>
   CoreEvent ascii (terse_json (ProposalRecorded (asc ''e1'') wire_stamp wire_proposal)) =
     Some (ProposalRecorded (asc ''e1'') wire_stamp wire_proposal) \<and>
   (\<nexists>j. CoreEvent ascii j = Some (ProposalRecorded (asc ''e1'') wire_stamp (wire_proposal\<lparr>cites := []\<rparr>)))"
proof -
  let ?e = "ProposalRecorded (asc ''e1'') wire_stamp wire_proposal"
  let ?f = "ProposalRecorded (asc ''e1'') wire_stamp (wire_proposal\<lparr>cites := []\<rparr>)"
  have "event_fits ascii ?e"
  proof -
    have "Id (asc ''e1'')" "Id (asc ''p1'')" "Id (asc ''r1'')" "Id (asc ''m1'')" "Id (asc ''ann'')" "Timestamp wire_stamp"
      "\<not> isBlank ascii (Some (asc ''we ship''))" "asc ''m'' \<noteq> []" "asc ''we ship'' \<noteq> []" by code_simp+
    then show ?thesis by (simp add: proposal_fits_def wire_proposal_def)
  qed
  moreover have "\<not> event_fits ascii ?f" by (simp add: proposal_fits_def wire_proposal_def)
  ultimately show ?thesis using event_roundtrip [of ascii ?e "[]"] event_roundtrip [of ascii ?f "[]"] by blast
qed

text \<open>Accepted objects round-trip in the same way, payload, provenance and envelope.\<close>

theorem object_roundtrip: "(\<exists>j. AcceptedObject j = Some ob) \<longleftrightarrow> AcceptedObject (object_json ob) = Some ob"
  using object_schema_sound object_roundtrip_aux by blast

end
