(* ===== verification/Calendar.thy ===== *)
theory Calendar
  imports Instant
begin

text \<open>
  The \<open>Timestamp\<close> schema against the calendar: the digit-by-digit regular expression admits exactly
  the printed instants of the proleptic Gregorian calendar in the years 0 to 9999, and the sort key
  of the canonical order compares such instants as their strings compare.
\<close>

section \<open>Digits\<close>

definition digit :: "int \<Rightarrow> int" where
  "digit n = 48 + n mod 10"

definition two_digits :: "int \<Rightarrow> jstr" where
  "two_digits n = [digit (n div 10), digit n]"

definition three_digits :: "int \<Rightarrow> jstr" where
  "three_digits n = digit (n div 100) # two_digits n"

definition four_digits :: "int \<Rightarrow> jstr" where
  "four_digits n = digit (n div 1000) # three_digits n"

lemma is_digit_iff: "is_digit c \<longleftrightarrow> (\<exists>n. 0 \<le> n \<and> n \<le> 9 \<and> c = 48 + n)"
  unfolding is_digit_def by presburger

section \<open>The reference calendar\<close>

definition month_length :: "int \<Rightarrow> int \<Rightarrow> int" where
  "month_length y m = (if m = 2 then if leap_year y then 29 else 28
     else if m \<in> {4, 6, 9, 11} then 30 else 31)"

record instant =
  year :: int
  month :: int
  day :: int
  hour :: int
  minute :: int
  sec :: int
  millis :: int

definition real_instant :: "instant \<Rightarrow> bool" where
  "real_instant t \<longleftrightarrow> 0 \<le> year t \<and> year t \<le> 9999 \<and> 1 \<le> month t \<and> month t \<le> 12 \<and>
     1 \<le> day t \<and> day t \<le> month_length (year t) (month t) \<and> 0 \<le> hour t \<and> hour t \<le> 23 \<and>
     0 \<le> minute t \<and> minute t \<le> 59 \<and> 0 \<le> sec t \<and> sec t \<le> 59 \<and> 0 \<le> millis t \<and> millis t \<le> 999"

definition iso_string :: "instant \<Rightarrow> jstr" where
  "iso_string t = four_digits (year t) @ 45 # two_digits (month t) @ 45 # two_digits (day t) @
     84 # two_digits (hour t) @ 58 # two_digits (minute t) @ 58 # two_digits (sec t) @
     46 # three_digits (millis t) @ [90]"

section \<open>The date alternatives are the calendar\<close>

lemma one_of_digits:
  "0 \<le> n \<Longrightarrow> n \<le> 9 \<Longrightarrow> one_of ''0'' (48 + n) \<longleftrightarrow> n = 0"
  "0 \<le> n \<Longrightarrow> n \<le> 9 \<Longrightarrow> one_of ''1'' (48 + n) \<longleftrightarrow> n = 1"
  "0 \<le> n \<Longrightarrow> n \<le> 9 \<Longrightarrow> one_of ''2'' (48 + n) \<longleftrightarrow> n = 2"
  "one_of ''3'' (48 + n) \<longleftrightarrow> n = 3" "one_of ''9'' (48 + n) \<longleftrightarrow> n = 9"
  "one_of ''01'' (48 + n) \<longleftrightarrow> n = 0 \<or> n = 1" "one_of ''02'' (48 + n) \<longleftrightarrow> n = 0 \<or> n = 2"
  "one_of ''12'' (48 + n) \<longleftrightarrow> n = 1 \<or> n = 2" "one_of ''26'' (48 + n) \<longleftrightarrow> n = 2 \<or> n = 6"
  "one_of ''48'' (48 + n) \<longleftrightarrow> n = 4 \<or> n = 8" "one_of ''048'' (48 + n) \<longleftrightarrow> n = 0 \<or> n = 4 \<or> n = 8"
  "one_of ''469'' (48 + n) \<longleftrightarrow> n = 4 \<or> n = 6 \<or> n = 9"
  "one_of ''13578'' (48 + n) \<longleftrightarrow> n = 1 \<or> n = 3 \<or> n = 5 \<or> n = 7 \<or> n = 8"
  "one_of ''13579'' (48 + n) \<longleftrightarrow> n = 1 \<or> n = 3 \<or> n = 5 \<or> n = 7 \<or> n = 9"
  "one_of ''2468'' (48 + n) \<longleftrightarrow> n = 2 \<or> n = 4 \<or> n = 6 \<or> n = 8"
  "one_of ''02468'' (48 + n) \<longleftrightarrow> n = 0 \<or> n = 2 \<or> n = 4 \<or> n = 6 \<or> n = 8"
  "one_of ''0123'' (48 + n) \<longleftrightarrow> 0 \<le> n \<and> n \<le> 3"
  "one_of ''012345'' (48 + n) \<longleftrightarrow> 0 \<le> n \<and> n \<le> 5"
  "one_of ''123456789'' (48 + n) \<longleftrightarrow> 1 \<le> n \<and> n \<le> 9"
  "one_of ''012345678'' (48 + n) \<longleftrightarrow> 0 \<le> n \<and> n \<le> 8"
  by (auto simp: one_of_def asc_def)

lemma digit_classes:
  "one_of ''0'' c \<Longrightarrow> is_digit c"
  "one_of ''1'' c \<Longrightarrow> is_digit c"
  "one_of ''2'' c \<Longrightarrow> is_digit c"
  "one_of ''3'' c \<Longrightarrow> is_digit c"
  "one_of ''9'' c \<Longrightarrow> is_digit c"
  "one_of ''01'' c \<Longrightarrow> is_digit c"
  "one_of ''02'' c \<Longrightarrow> is_digit c"
  "one_of ''12'' c \<Longrightarrow> is_digit c"
  "one_of ''26'' c \<Longrightarrow> is_digit c"
  "one_of ''48'' c \<Longrightarrow> is_digit c"
  "one_of ''048'' c \<Longrightarrow> is_digit c"
  "one_of ''469'' c \<Longrightarrow> is_digit c"
  "one_of ''13578'' c \<Longrightarrow> is_digit c"
  "one_of ''13579'' c \<Longrightarrow> is_digit c"
  "one_of ''2468'' c \<Longrightarrow> is_digit c"
  "one_of ''02468'' c \<Longrightarrow> is_digit c"
  "one_of ''0123'' c \<Longrightarrow> is_digit c"
  "one_of ''012345'' c \<Longrightarrow> is_digit c"
  "one_of ''123456789'' c \<Longrightarrow> is_digit c"
  "one_of ''012345678'' c \<Longrightarrow> is_digit c"
  by (auto simp: one_of_def asc_def is_digit_def)

lemma leap_year_century:
  assumes "0 \<le> d" "d < 100"
  shows "leap_year (100 * c + d) \<longleftrightarrow> d mod 4 = 0 \<and> (d \<noteq> 0 \<or> c mod 4 = 0)"
proof -
  have "(100 * c + d) mod 4 = (d + 25 * c * 4) mod 4" by (simp add: add.commute)
  then have "(100 * c + d) mod 4 = d mod 4" by (simp only: mod_mult_self1)
  moreover have "(100 * c + d) mod 100 = d" using assms by simp
  moreover have "(100 * c + d) mod 400 = 0 \<longleftrightarrow> c mod 4 = 0" if "d = 0"
    using that mult_mod_right [of 100 c 4] by auto
  moreover have "(100 * c + d) mod 400 \<noteq> 0" if "d \<noteq> 0"
  proof
    assume "(100 * c + d) mod 400 = 0"
    then have "(100 * c + d) mod 400 mod 100 = 0" by simp
    then have "(100 * c + d) mod 100 = 0" by (simp add: mod_mod_cancel)
    with assms that show False by simp
  qed
  ultimately show ?thesis unfolding leap_year_def by auto
qed

lemma digit_cases:
  "0 \<le> a \<Longrightarrow> a \<le> (9::int) \<Longrightarrow>
    a = 0 \<or> a = 1 \<or> a = 2 \<or> a = 3 \<or> a = 4 \<or> a = 5 \<or> a = 6 \<or> a = 7 \<or> a = 8 \<or> a = 9"
  by presburger

lemma multiple_of_four:
  assumes "0 \<le> a" "a \<le> 9" "0 \<le> b" "b \<le> (9::int)"
  shows "(10 * a + b) mod 4 = 0 \<longleftrightarrow>
    (a = 0 \<or> a = 2 \<or> a = 4 \<or> a = 6 \<or> a = 8) \<and> (b = 0 \<or> b = 4 \<or> b = 8) \<or>
    (a = 1 \<or> a = 3 \<or> a = 5 \<or> a = 7 \<or> a = 9) \<and> (b = 2 \<or> b = 6)"
  using digit_cases [OF assms(1,2)] digit_cases [OF assms(3,4)] by (elim disjE) simp_all

text \<open>The five ways the expression spells a leap year.\<close>

lemma leap_year_spelled:
  assumes "0 \<le> a" "a \<le> 9" "0 \<le> b" "b \<le> 9" "0 \<le> c" "c \<le> 9" "0 \<le> d" "d \<le> 9"
  shows "leap_year (1000 * a + 100 * b + 10 * c + d) \<longleftrightarrow>
    (one_of ''2468'' (48 + c) \<and> one_of ''048'' (48 + d)) \<or> (one_of ''13579'' (48 + c) \<and> one_of ''26'' (48 + d)) \<or>
    (one_of ''0'' (48 + c) \<and> one_of ''48'' (48 + d)) \<or>
    (one_of ''02468'' (48 + a) \<and> one_of ''048'' (48 + b) \<and> one_of ''0'' (48 + c) \<and> one_of ''0'' (48 + d)) \<or>
    (one_of ''13579'' (48 + a) \<and> one_of ''26'' (48 + b) \<and> one_of ''0'' (48 + c) \<and> one_of ''0'' (48 + d))"
proof -
  have "leap_year (1000 * a + 100 * b + 10 * c + d) = leap_year (100 * (10 * a + b) + (10 * c + d))"
    by (simp add: algebra_simps)
  also have "\<dots> \<longleftrightarrow> (10 * c + d) mod 4 = 0 \<and> (10 * c + d \<noteq> 0 \<or> (10 * a + b) mod 4 = 0)"
    using assms by (intro leap_year_century) auto
  also have "10 * c + d \<noteq> 0 \<longleftrightarrow> \<not> (c = 0 \<and> d = 0)" using assms by presburger
  finally have *: "leap_year (1000 * a + 100 * b + 10 * c + d) \<longleftrightarrow>
      (10 * c + d) mod 4 = 0 \<and> (c = 0 \<and> d = 0 \<longrightarrow> (10 * a + b) mod 4 = 0)"
    by auto
  note spelled = multiple_of_four [OF assms(1-4)] multiple_of_four [OF assms(5-8)]
    one_of_digits(1) [OF assms(5,6)] one_of_digits(1) [OF assms(7,8)] one_of_digits(4-)
  show ?thesis
  proof (cases "c = 0")
    case c: True
    show ?thesis
    proof (cases "d = 0")
      case True
      with c show ?thesis unfolding * spelled by simp
    next
      case False
      with c show ?thesis unfolding * spelled by simp
    qed
  next
    case False
    then show ?thesis unfolding * spelled by simp
  qed
qed

lemma date_spelled:
  assumes y: "0 \<le> a" "a \<le> 9" "0 \<le> b" "b \<le> 9" "0 \<le> c" "c \<le> 9" "0 \<le> d" "d \<le> 9"
    and md: "0 \<le> m1" "m1 \<le> 9" "0 \<le> m2" "m2 \<le> 9" "0 \<le> d1" "d1 \<le> 9" "0 \<le> d2" "d2 \<le> 9"
  defines "y \<equiv> 1000 * a + 100 * b + 10 * c + d"
  shows "leap_day_date (48 + a) (48 + b) (48 + c) (48 + d) (48 + m1) (48 + m2) (48 + d1) (48 + d2) \<or>
      plain_date (48 + a) (48 + b) (48 + c) (48 + d) (48 + m1) (48 + m2) (48 + d1) (48 + d2) \<longleftrightarrow>
    1 \<le> 10 * m1 + m2 \<and> 10 * m1 + m2 \<le> 12 \<and> 1 \<le> 10 * d1 + d2 \<and> 10 * d1 + d2 \<le> month_length y (10 * m1 + m2)"
proof -
  have digits: "is_digit (48 + a)" "is_digit (48 + b)" "is_digit (48 + c)" "is_digit (48 + d)"
      "is_digit (48 + m2)" "is_digit (48 + d2)"
    using y md by (simp_all add: is_digit_def)
  have leap: "leap_day_date (48 + a) (48 + b) (48 + c) (48 + d) (48 + m1) (48 + m2) (48 + d1) (48 + d2) \<longleftrightarrow>
      leap_year y \<and> m1 = 0 \<and> m2 = 2 \<and> d1 = 2 \<and> d2 = 9"
    unfolding y_def leap_year_spelled [OF y] leap_day_date_def using digits md
    by (simp add: one_of_digits)
  have day31: "one_of ''0'' (48 + d1) \<and> one_of ''123456789'' (48 + d2) \<or> one_of ''12'' (48 + d1) \<and> is_digit (48 + d2) \<or>
      one_of ''3'' (48 + d1) \<and> one_of ''01'' (48 + d2) \<longleftrightarrow> 1 \<le> 10 * d1 + d2 \<and> 10 * d1 + d2 \<le> 31"
    using md digits by (simp add: one_of_digits) presburger
  have day30: "one_of ''0'' (48 + d1) \<and> one_of ''123456789'' (48 + d2) \<or> one_of ''12'' (48 + d1) \<and> is_digit (48 + d2) \<or>
      one_of ''3'' (48 + d1) \<and> one_of ''0'' (48 + d2) \<longleftrightarrow> 1 \<le> 10 * d1 + d2 \<and> 10 * d1 + d2 \<le> 30"
    using md digits by (simp add: one_of_digits) presburger
  have day28: "one_of ''0'' (48 + d1) \<and> one_of ''123456789'' (48 + d2) \<or> one_of ''1'' (48 + d1) \<and> is_digit (48 + d2) \<or>
      one_of ''2'' (48 + d1) \<and> one_of ''012345678'' (48 + d2) \<longleftrightarrow> 1 \<le> 10 * d1 + d2 \<and> 10 * d1 + d2 \<le> 28"
    using md digits by (simp add: one_of_digits) presburger
  have month: "m1 = 0 \<and> m2 = k \<longleftrightarrow> 10 * m1 + m2 = k" "m1 = 1 \<and> m2 = l \<longleftrightarrow> 10 * m1 + m2 = 10 + l"
    if "0 \<le> k" "k \<le> 9" "0 \<le> l" "l \<le> 9" for k l
    using md that by presburger+
  have months31: "(one_of ''0'' (48 + m1) \<and> one_of ''13578'' (48 + m2) \<or> one_of ''1'' (48 + m1) \<and> one_of ''02'' (48 + m2)) \<longleftrightarrow>
      10 * m1 + m2 \<in> {1, 3, 5, 7, 8, 10, 12}"
    using md by (simp add: one_of_digits) presburger
  have months30: "(one_of ''0'' (48 + m1) \<and> one_of ''469'' (48 + m2) \<or> one_of ''1'' (48 + m1) \<and> one_of ''1'' (48 + m2)) \<longleftrightarrow>
      10 * m1 + m2 \<in> {4, 6, 9, 11}"
    using md by (simp add: one_of_digits) presburger
  have february: "one_of ''0'' (48 + m1) \<and> one_of ''2'' (48 + m2) \<longleftrightarrow> 10 * m1 + m2 = 2"
    using md by (simp add: one_of_digits) presburger
  have last: "m1 = 0 \<and> m2 = 2 \<and> d1 = 2 \<and> d2 = 9 \<longleftrightarrow> 10 * m1 + m2 = 2 \<and> 10 * d1 + d2 = 29"
    using md by presburger
  define m where "m = 10 * m1 + m2"
  define dd where "dd = 10 * d1 + d2"
  have plain: "plain_date (48 + a) (48 + b) (48 + c) (48 + d) (48 + m1) (48 + m2) (48 + d1) (48 + d2) \<longleftrightarrow>
      (m \<in> {1, 3, 5, 7, 8, 10, 12} \<and> 1 \<le> dd \<and> dd \<le> 31) \<or> (m \<in> {4, 6, 9, 11} \<and> 1 \<le> dd \<and> dd \<le> 30) \<or>
      (m = 2 \<and> 1 \<le> dd \<and> dd \<le> 28)"
    unfolding plain_date_def day31 day30 day28 months31 months30 february conj_assoc [symmetric] m_def dd_def
    using digits february day28 by auto
  show ?thesis
    unfolding leap last plain m_def [symmetric] dd_def [symmetric] month_length_def by (auto; presburger)
qed

section \<open>Numbers and their digits\<close>

lemma split_digit: "0 \<le> n \<Longrightarrow> n \<le> 10 * k + 9 \<Longrightarrow> \<exists>q r. n = 10 * q + r \<and> 0 \<le> q \<and> q \<le> k \<and> 0 \<le> r \<and> r \<le> (9::int)"
  by (intro exI [of _ "n div 10"] exI [of _ "n mod 10"]) auto

lemma split_two:
  assumes "0 \<le> n" "n \<le> (99::int)"
  obtains a b where "n = 10 * a + b" "0 \<le> a" "a \<le> 9" "0 \<le> b" "b \<le> 9"
  using split_digit [of n 9] assms by auto

lemma split_three:
  assumes "0 \<le> n" "n \<le> (999::int)"
  obtains a b c where "n = 100 * a + 10 * b + c" "0 \<le> a" "a \<le> 9" "0 \<le> b" "b \<le> 9" "0 \<le> c" "c \<le> 9"
proof -
  from split_digit [of n 99] assms obtain q c where "n = 10 * q + c" "0 \<le> q" "q \<le> 99" "0 \<le> c" "c \<le> 9" by auto
  moreover from split_two [of q] calculation obtain a b where "q = 10 * a + b" "0 \<le> a" "a \<le> 9" "0 \<le> b" "b \<le> 9" by auto
  ultimately show thesis using that by simp
qed

lemma split_four:
  assumes "0 \<le> n" "n \<le> (9999::int)"
  obtains a b c d where "n = 1000 * a + 100 * b + 10 * c + d" "0 \<le> a" "a \<le> 9" "0 \<le> b" "b \<le> 9" "0 \<le> c" "c \<le> 9" "0 \<le> d" "d \<le> 9"
proof -
  from split_digit [of n 999] assms obtain q d where "n = 10 * q + d" "0 \<le> q" "q \<le> 999" "0 \<le> d" "d \<le> 9" by auto
  moreover from split_three [of q] calculation obtain a b c where
    "q = 100 * a + 10 * b + c" "0 \<le> a" "a \<le> 9" "0 \<le> b" "b \<le> 9" "0 \<le> c" "c \<le> 9" by auto
  ultimately show thesis using that by simp
qed

lemma quotient: "0 \<le> r \<Longrightarrow> r < k \<Longrightarrow> (k * x + r) div k = (x :: int)"
  by simp

lemma digit_of:
  "0 \<le> b \<Longrightarrow> b \<le> 9 \<Longrightarrow> digit (10 * k + b) = 48 + b"
  "0 \<le> b \<Longrightarrow> b \<le> 9 \<Longrightarrow> (10 * k + b) div 10 = k"
  by (auto simp: digit_def)

lemma two_digits_of:
  assumes "0 \<le> a" "a \<le> 9" "0 \<le> b" "b \<le> 9"
  shows "two_digits (10 * k * 10 + (10 * a + b)) = [48 + a, 48 + b]"
proof -
  have "10 * k * 10 + (10 * a + b) = 10 * (10 * k + a) + b" by simp
  with assms show ?thesis unfolding two_digits_def by (metis digit_of)
qed

lemma digits_of:
  assumes "0 \<le> a" "a \<le> 9" "0 \<le> b" "b \<le> 9" "0 \<le> c" "c \<le> 9" "0 \<le> d" "d \<le> 9"
  shows "two_digits (10 * a + b) = [48 + a, 48 + b]"
    and "three_digits (100 * a + 10 * b + c) = [48 + a, 48 + b, 48 + c]"
    and "four_digits (1000 * a + 100 * b + 10 * c + d) = [48 + a, 48 + b, 48 + c, 48 + d]"
proof -
  show "two_digits (10 * a + b) = [48 + a, 48 + b]" using two_digits_of [of a b 0] assms by simp
  have "digit ((100 * x + 10 * b + c) div 100) = digit x" for x :: int
    using assms quotient [of "10 * b + c" 100 x] by (simp add: add.assoc)
  moreover have "100 * x + 10 * b + c = 10 * x * 10 + (10 * b + c)" for x :: int by simp
  ultimately have three: "three_digits (100 * x + 10 * b + c) = [digit x, 48 + b, 48 + c]" for x
    using two_digits_of [of b c x] assms unfolding three_digits_def by metis
  then show "three_digits (100 * a + 10 * b + c) = [48 + a, 48 + b, 48 + c]"
    using assms by (simp add: digit_def)
  have "(1000 * a + 100 * b + 10 * c + d) div 1000 = a"
    using assms quotient [of "100 * b + 10 * c + d" 1000 a] by (simp add: add.assoc)
  moreover have "(1000 * a + 100 * b + 10 * c + d) div 100 = 10 * a + b"
    using assms quotient [of "10 * c + d" 100 "10 * a + b"] by (simp add: add.assoc)
  moreover have "1000 * a + 100 * b + 10 * c + d = 10 * (10 * a + b) * 10 + (10 * c + d)" by simp
  ultimately show "four_digits (1000 * a + 100 * b + 10 * c + d) = [48 + a, 48 + b, 48 + c, 48 + d]"
    using two_digits_of [of c d "10 * a + b"] digit_of(1) [of b a] assms
    unfolding four_digits_def three_digits_def by (metis (no_types) digit_of(1) mult_zero_right add_0)
qed

section \<open>The schema is the calendar\<close>

lemma time_spelled:
  assumes "0 \<le> h1" "h1 \<le> 9" "0 \<le> h2" "h2 \<le> 9" "0 \<le> i1" "i1 \<le> 9" "0 \<le> i2" "i2 \<le> 9"
    "0 \<le> s1" "s1 \<le> 9" "0 \<le> s2" "s2 \<le> 9"
  shows "time_of_day (48 + h1) (48 + h2) (48 + i1) (48 + i2) (48 + s1) (48 + s2) \<longleftrightarrow>
    10 * h1 + h2 \<le> 23 \<and> 10 * i1 + i2 \<le> 59 \<and> 10 * s1 + s2 \<le> 59"
proof -
  have "h1 = 0 \<or> h1 = 1 \<or> h1 = 2 \<and> h2 \<le> 3 \<longleftrightarrow> 10 * h1 + h2 \<le> 23"
    "i1 \<le> 5 \<longleftrightarrow> 10 * i1 + i2 \<le> 59" "s1 \<le> 5 \<longleftrightarrow> 10 * s1 + s2 \<le> 59"
    using assms by presburger+
  moreover have "is_digit (48 + h2)" "is_digit (48 + i2)" "is_digit (48 + s2)"
    using assms by (simp_all add: is_digit_def)
  ultimately show ?thesis
    unfolding time_of_day_def using assms by (simp add: one_of_digits conj_ac)
qed

lemma punctuation: "one_of [c] k \<longleftrightarrow> k = of_char c"
  by (simp add: one_of_def asc_def)

lemma Timestamp_printed: "real_instant t \<Longrightarrow> Timestamp (iso_string t)"
proof -
  assume t: "real_instant t"
  have lim: "month_length (year t) (month t) \<le> 31" by (simp add: month_length_def)
  from t lim have r: "0 \<le> year t" "year t \<le> 9999" "0 \<le> month t" "month t \<le> 99" "0 \<le> day t" "day t \<le> 99"
    "0 \<le> hour t" "hour t \<le> 99" "0 \<le> minute t" "minute t \<le> 99" "0 \<le> sec t" "sec t \<le> 99"
    "0 \<le> millis t" "millis t \<le> 999" by (simp_all add: real_instant_def)
  obtain a b c d where y: "year t = 1000 * a + 100 * b + 10 * c + d"
      and yd: "0 \<le> a" "a \<le> 9" "0 \<le> b" "b \<le> 9" "0 \<le> c" "c \<le> 9" "0 \<le> d" "d \<le> 9"
    by (rule split_four [OF r(1,2)])
  obtain m1 m2 where m: "month t = 10 * m1 + m2" and md: "0 \<le> m1" "m1 \<le> 9" "0 \<le> m2" "m2 \<le> 9"
    by (rule split_two [OF r(3,4)])
  obtain d1 d2 where dy: "day t = 10 * d1 + d2" and dd: "0 \<le> d1" "d1 \<le> 9" "0 \<le> d2" "d2 \<le> 9"
    by (rule split_two [OF r(5,6)])
  obtain h1 h2 where h: "hour t = 10 * h1 + h2" and hd: "0 \<le> h1" "h1 \<le> 9" "0 \<le> h2" "h2 \<le> 9"
    by (rule split_two [OF r(7,8)])
  obtain i1 i2 where i: "minute t = 10 * i1 + i2" and id: "0 \<le> i1" "i1 \<le> 9" "0 \<le> i2" "i2 \<le> 9"
    by (rule split_two [OF r(9,10)])
  obtain s1 s2 where s: "sec t = 10 * s1 + s2" and sd: "0 \<le> s1" "s1 \<le> 9" "0 \<le> s2" "s2 \<le> 9"
    by (rule split_two [OF r(11,12)])
  obtain f1 f2 f3 where f: "millis t = 100 * f1 + 10 * f2 + f3"
      and fd: "0 \<le> f1" "f1 \<le> 9" "0 \<le> f2" "f2 \<le> 9" "0 \<le> f3" "f3 \<le> 9"
    by (rule split_three [OF r(13,14)])
  have "iso_string t = [48 + a, 48 + b, 48 + c, 48 + d, 45, 48 + m1, 48 + m2, 45, 48 + d1, 48 + d2, 84,
      48 + h1, 48 + h2, 58, 48 + i1, 48 + i2, 58, 48 + s1, 48 + s2, 46, 48 + f1, 48 + f2, 48 + f3, 90]"
    using yd md dd hd id sd fd by (simp add: iso_string_def y m dy h i s f digits_of)
  moreover have "is_digit (48 + f1)" "is_digit (48 + f2)" "is_digit (48 + f3)"
    using fd by (simp_all add: is_digit_def)
  moreover have "leap_day_date (48 + a) (48 + b) (48 + c) (48 + d) (48 + m1) (48 + m2) (48 + d1) (48 + d2) \<or>
      plain_date (48 + a) (48 + b) (48 + c) (48 + d) (48 + m1) (48 + m2) (48 + d1) (48 + d2)"
    using t unfolding date_spelled [OF yd md dd] by (simp add: real_instant_def y m dy)
  moreover have "time_of_day (48 + h1) (48 + h2) (48 + i1) (48 + i2) (48 + s1) (48 + s2)"
    using t unfolding time_spelled [OF hd id sd] by (simp add: real_instant_def h i s)
  ultimately show ?thesis by (simp add: Timestamp_def punctuation)
qed

lemma Timestamp_shape:
  assumes "Timestamp s"
  obtains y1 y2 y3 y4 m1 m2 d1 d2 h1 h2 i1 i2 s1 s2 f1 f2 f3 where
    "s = [y1, y2, y3, y4, 45, m1, m2, 45, d1, d2, 84, h1, h2, 58, i1, i2, 58, s1, s2, 46, f1, f2, f3, 90]"
    "leap_day_date y1 y2 y3 y4 m1 m2 d1 d2 \<or> plain_date y1 y2 y3 y4 m1 m2 d1 d2"
    "time_of_day h1 h2 i1 i2 s1 s2" "is_digit f1" "is_digit f2" "is_digit f3"
proof -
  from assms have "length s = 24" by (simp add: Timestamp_def split: list.splits)
  then obtain y1 y2 y3 y4 a m1 m2 b d1 d2 t h1 h2 c i1 i2 d s1 s2 e f1 f2 f3 z where
    s: "s = [y1, y2, y3, y4, a, m1, m2, b, d1, d2, t, h1, h2, c, i1, i2, d, s1, s2, e, f1, f2, f3, z]"
    by (auto simp: length_Suc_conv numeral_eq_Suc)
  from assms have "(leap_day_date y1 y2 y3 y4 m1 m2 d1 d2 \<or> plain_date y1 y2 y3 y4 m1 m2 d1 d2) \<and>
      time_of_day h1 h2 i1 i2 s1 s2 \<and> is_digit f1 \<and> is_digit f2 \<and> is_digit f3 \<and>
      a = 45 \<and> b = 45 \<and> t = 84 \<and> c = 58 \<and> d = 58 \<and> e = 46 \<and> z = 90"
    by (simp add: s Timestamp_def punctuation)
  then show thesis by (elim conjE) (rule that [of y1 y2 y3 y4 m1 m2 d1 d2 h1 h2 i1 i2 s1 s2 f1 f2 f3], simp_all add: s)
qed

lemma Timestamp_read:
  assumes "Timestamp s"
  shows "\<exists>t. real_instant t \<and> s = iso_string t"
proof -
  from assms obtain y1 y2 y3 y4 m1 m2 d1 d2 h1 h2 i1 i2 s1 s2 f1 f2 f3 where
    s: "s = [y1, y2, y3, y4, 45, m1, m2, 45, d1, d2, 84, h1, h2, 58, i1, i2, 58, s1, s2, 46, f1, f2, f3, 90]"
    and date: "leap_day_date y1 y2 y3 y4 m1 m2 d1 d2 \<or> plain_date y1 y2 y3 y4 m1 m2 d1 d2"
    and time: "time_of_day h1 h2 i1 i2 s1 s2" and frac: "is_digit f1" "is_digit f2" "is_digit f3"
    by (rule Timestamp_shape)
  have digits: "is_digit y1" "is_digit y2" "is_digit y3" "is_digit y4" "is_digit m1" "is_digit m2" "is_digit d1" "is_digit d2"
    using date unfolding leap_day_date_def plain_date_def by (blast intro: digit_classes)+
  have tdigits: "is_digit h1" "is_digit h2" "is_digit i1" "is_digit i2" "is_digit s1" "is_digit s2"
    using time unfolding time_of_day_def by (blast intro: digit_classes)+
  from digits obtain a b c d where y: "y1 = 48 + a" "y2 = 48 + b" "y3 = 48 + c" "y4 = 48 + d"
      and yd: "0 \<le> a" "a \<le> 9" "0 \<le> b" "b \<le> 9" "0 \<le> c" "c \<le> 9" "0 \<le> d" "d \<le> 9"
    unfolding is_digit_iff by blast
  from digits obtain p q u v where m: "m1 = 48 + p" "m2 = 48 + q" "d1 = 48 + u" "d2 = 48 + v"
      and md: "0 \<le> p" "p \<le> 9" "0 \<le> q" "q \<le> 9" and dd: "0 \<le> u" "u \<le> 9" "0 \<le> v" "v \<le> 9"
    unfolding is_digit_iff by blast
  from tdigits obtain g h i j where h: "h1 = 48 + g" "h2 = 48 + h" "i1 = 48 + i" "i2 = 48 + j"
      and hd: "0 \<le> g" "g \<le> 9" "0 \<le> h" "h \<le> 9" and id: "0 \<le> i" "i \<le> 9" "0 \<le> j" "j \<le> 9"
    unfolding is_digit_iff by blast
  from tdigits obtain k l where k: "s1 = 48 + k" "s2 = 48 + l" and sd: "0 \<le> k" "k \<le> 9" "0 \<le> l" "l \<le> 9"
    unfolding is_digit_iff by blast
  from frac obtain x z w where f: "f1 = 48 + x" "f2 = 48 + z" "f3 = 48 + w"
      and fd: "0 \<le> x" "x \<le> 9" "0 \<le> z" "z \<le> 9" "0 \<le> w" "w \<le> 9"
    unfolding is_digit_iff by blast
  define t where "t = \<lparr>year = 1000 * a + 100 * b + 10 * c + d, month = 10 * p + q, day = 10 * u + v,
    hour = 10 * g + h, minute = 10 * i + j, sec = 10 * k + l, millis = 100 * x + 10 * z + w\<rparr>"
  have "s = iso_string t"
    using yd md dd hd id sd fd by (simp add: s y m h k f iso_string_def t_def digits_of)
  moreover have "real_instant t"
    using date time yd fd hd id sd
    unfolding y m h k date_spelled [OF yd md dd] time_spelled [OF hd id sd] by (simp add: real_instant_def t_def)
  ultimately show ?thesis by blast
qed

section \<open>Properties\<close>

text \<open>
  C18. A timestamp is a real instant.  The schema admits a string exactly when it is the canonical
  print of an instant of the proleptic Gregorian calendar in the years 0 to 9999: no 30 February, no
  29 February out of a leap year, no hour 24, no leap second.
\<close>

theorem timestamp_is_calendar: "Timestamp s \<longleftrightarrow> (\<exists>t. real_instant t \<and> s = iso_string t)"
  using Timestamp_printed Timestamp_read by blast

end
