(* ===== verification/Chronology.thy ===== *)
theory Chronology
  imports Calendar
begin

text \<open>
  The canonical order is chronological.  On timestamps the schema admits, \<open>instantKey\<close> compares as
  the instants do, and so do the strings themselves: the sort of the log by key is the sort by time.
\<close>

section \<open>Digit strings compare as numbers\<close>

lemma digits_value_acc: "digits_value acc s = acc * 10 ^ length s + digits_value 0 s"
proof (induction s arbitrary: acc)
  case (Cons c s)
  from Cons.IH [of "10 * acc + (c - 48)"] Cons.IH [of "c - 48"] show ?case
    by (simp add: algebra_simps)
qed simp

lemma digits_value_bounds: "list_all is_digit s \<Longrightarrow> 0 \<le> digits_value 0 s \<and> digits_value 0 s < 10 ^ length s"
proof (induction s)
  case (Cons c s)
  then have s: "0 \<le> digits_value 0 s" "digits_value 0 s < 10 ^ length s" and c: "0 \<le> c - 48" "c - 48 \<le> 9"
    by (auto simp: is_digit_def)
  have "digits_value 0 (c # s) = (c - 48) * 10 ^ length s + digits_value 0 s"
    using digits_value_acc [of "c - 48" s] by simp
  moreover from c have "(c - 48) * 10 ^ length s \<le> 9 * 10 ^ length s" by (intro mult_right_mono) auto
  moreover from c have "0 \<le> (c - 48) * 10 ^ length s" by simp
  moreover have "10 ^ length (c # s) = 10 * (10 ^ length s :: int)" by simp
  ultimately show ?case using s by linarith
qed simp

lemma digits_less_iff:
  "length xs = length ys \<Longrightarrow> list_all is_digit xs \<Longrightarrow> list_all is_digit ys \<Longrightarrow>
     xs < ys \<longleftrightarrow> digits_value 0 xs < digits_value 0 ys"
proof (induction xs ys rule: list_induct2)
  case (Cons x xs y ys)
  let ?n = "10 ^ length xs :: int"
  have bx: "0 \<le> digits_value 0 xs" "digits_value 0 xs < ?n" and hy: "0 \<le> digits_value 0 ys" "digits_value 0 ys < ?n"
    using Cons digits_value_bounds [of xs] digits_value_bounds [of ys] by auto
  have v: "digits_value 0 (x # xs) = (x - 48) * ?n + digits_value 0 xs"
    "digits_value 0 (y # ys) = (y - 48) * ?n + digits_value 0 ys"
    using digits_value_acc [of "x - 48" xs] digits_value_acc [of "y - 48" ys] Cons.hyps by simp_all
  consider "x = y" | "x < y" | "y < x" by linarith
  then show ?case
  proof cases
    case 1
    with Cons v show ?thesis by simp
  next
    case 2
    then have "(x - 48) * ?n + ?n \<le> (y - 48) * ?n"
      using mult_right_mono [of "x - 48 + 1" "y - 48" ?n] by (simp add: algebra_simps)
    with 2 bx hy v show ?thesis by simp
  next
    case 3
    then have "(y - 48) * ?n + ?n \<le> (x - 48) * ?n"
      using mult_right_mono [of "y - 48 + 1" "x - 48" ?n] by (simp add: algebra_simps)
    with 3 bx hy v show ?thesis by simp
  qed
qed simp

lemma append_less_iff:
  "length xs = length ys \<Longrightarrow> xs @ ps < ys @ qs \<longleftrightarrow> xs < ys \<or> xs = ys \<and> ps < (qs :: 'a :: linorder list)"
  by (induction xs ys rule: list_induct2) auto

lemma digits_inj:
  "length xs = length ys \<Longrightarrow> list_all is_digit xs \<Longrightarrow> list_all is_digit ys \<Longrightarrow>
     digits_value 0 xs = digits_value 0 ys \<Longrightarrow> xs = ys"
  using digits_less_iff [of xs ys] digits_less_iff [of ys xs] by (metis less_irrefl linorder_neq_iff)

section \<open>The printed number\<close>

lemma digits_value_append: "digits_value acc (xs @ ys) = digits_value (digits_value acc xs) ys"
  by (induction acc xs rule: digits_value.induct) auto

lemma decimal_digits: "0 \<le> n \<Longrightarrow> list_all is_digit (decimal n) \<and> digits_value 0 (decimal n) = n"
proof (induction n rule: decimal.induct)
  case (1 n)
  show ?case
  proof (cases "n < 10")
    case True
    with 1 show ?thesis by (simp add: decimal.simps [of n] is_digit_def)
  next
    case False
    with 1 have "list_all is_digit (decimal (n div 10)) \<and> digits_value 0 (decimal (n div 10)) = n div 10"
      by simp
    moreover have "is_digit (48 + n mod 10)" by (simp add: is_digit_def)
    ultimately show ?thesis
      using False 1(3) by (simp add: decimal.simps [of n] digits_value_append)
  qed
qed

lemma decimal_length: "0 \<le> n \<Longrightarrow> n < 10 ^ w \<Longrightarrow> 1 \<le> w \<Longrightarrow> length (decimal n) \<le> w"
proof (induction n arbitrary: w rule: decimal.induct)
  case (1 n)
  show ?case
  proof (cases "n < 10")
    case True
    with 1 show ?thesis by (simp add: decimal.simps [of n])
  next
    case False
    then obtain v where w: "w = Suc v" "1 \<le> v" using 1(4,5) by (cases w; cases "w - 1") auto
    with 1(4) have "n div 10 < 10 ^ v" by simp
    with 1 False w have "length (decimal (n div 10)) \<le> v" by simp
    with False 1(3) w show ?thesis by (simp add: decimal.simps [of n])
  qed
qed

lemma padded_number:
  assumes "0 \<le> n" "n < 10 ^ w" "1 \<le> w"
  shows "length (padStart w (decimal n)) = w" and "list_all is_digit (padStart w (decimal n))"
    and "digits_value 0 (padStart w (decimal n)) = n"
proof -
  have zeros: "digits_value 0 (replicate k 48) = 0" for k by (induction k) auto
  from decimal_length [OF assms] show "length (padStart w (decimal n)) = w" by (simp add: padStart_def)
  from decimal_digits [OF assms(1)] show "list_all is_digit (padStart w (decimal n))"
    by (auto simp: padStart_def list_all_iff is_digit_def)
  from decimal_digits [OF assms(1)] show "digits_value 0 (padStart w (decimal n)) = n"
    by (simp add: padStart_def digits_value_append zeros)
qed

section \<open>Day numbers\<close>

definition day_number :: "int \<Rightarrow> int \<Rightarrow> int \<Rightarrow> int" where
  "day_number y m d = DayFromYear y + month_start (leap_year y) (m - 1) + d - 1"

lemma successor_div:
  assumes "0 < k"
  shows "(z + 1) div k = z div k + (if (z + 1) mod k = 0 then 1 else (0 :: int))"
proof (cases "z mod k + 1 < k")
  case True
  have z: "z + 1 = k * (z div k) + (z mod k + 1)" by simp
  with True assms have "(z + 1) div k = z div k" by (metis quotient add_nonneg_nonneg pos_mod_sign zero_le_one)
  moreover have "(z + 1) mod k = z mod k + 1"
    using True assms z by (metis add_nonneg_nonneg mod_mult_self4 mod_pos_pos_trivial pos_mod_sign zero_le_one)
  moreover have "z mod k + 1 \<noteq> 0" using assms pos_mod_sign [of k z] by linarith
  ultimately show ?thesis by simp
next
  case False
  with pos_mod_bound [OF assms, of z] have "z mod k = k - 1" by linarith
  moreover have "k * (z div k) + z mod k = z" by (rule mult_div_mod_eq)
  ultimately have "z + 1 = k * (z div k) + k" by linarith
  then have "z + 1 = k * (z div k + 1)" by (simp add: algebra_simps)
  with assms show ?thesis by simp
qed

lemma year_step: "DayFromYear (y + 1) = DayFromYear y + (if leap_year y then 366 else 365)"
proof -
  have m: "(y - 1968) mod 4 = y mod 4" "(y - 1900) mod 100 = y mod 100" "(y - 1600) mod 400 = y mod 400"
    using mod_mult_self4 [of 4 "- 492" y] mod_mult_self4 [of 100 "- 19" y] mod_mult_self4 [of 400 "- 4" y]
    by simp_all
  have e: "y - 1969 + 1 = y - 1968" "y - 1901 + 1 = y - 1900" "y - 1601 + 1 = y - 1600" by simp_all
  have d: "(y - 1968) div 4 = (y - 1969) div 4 + (if y mod 4 = 0 then 1 else 0)"
    "(y - 1900) div 100 = (y - 1901) div 100 + (if y mod 100 = 0 then 1 else 0)"
    "(y - 1600) div 400 = (y - 1601) div 400 + (if y mod 400 = 0 then 1 else 0)"
    by (rule successor_div [of 4 "y - 1969", unfolded e m, OF zero_less_numeral]
        successor_div [of 100 "y - 1901", unfolded e m, OF zero_less_numeral]
        successor_div [of 400 "y - 1601", unfolded e m, OF zero_less_numeral])+
  have "y mod 400 mod 100 = y mod 100" "y mod 100 mod 4 = y mod 4" by (simp_all add: mod_mod_cancel)
  then have "y mod 400 = 0 \<Longrightarrow> y mod 100 = 0" "y mod 100 = 0 \<Longrightarrow> y mod 4 = 0" by simp_all
  moreover have "y + 1 - 1969 = y - 1968" "y + 1 - 1901 = y - 1900" "y + 1 - 1601 = y - 1600" by simp_all
  ultimately show ?thesis
    unfolding DayFromYear_def leap_year_def
    by (cases "y mod 4 = 0"; cases "y mod 100 = 0"; cases "y mod 400 = 0") (simp_all add: d)
qed

lemma years_apart: "y < y' \<Longrightarrow> DayFromYear y + (if leap_year y then 366 else 365) \<le> DayFromYear y'"
proof (induction y' rule: int_gr_induct [where k = y])
  case base
  then show ?case by (simp add: year_step)
next
  case (step i)
  then show ?case using year_step [of i] by (auto split: if_splits)
qed

lemma month_start_step:
  assumes "1 \<le> m" "m \<le> 11"
  shows "month_start (leap_year y) m = month_start (leap_year y) (m - 1) + month_length y m"
proof -
  from assms have "m = 1 \<or> m = 2 \<or> m = 3 \<or> m = 4 \<or> m = 5 \<or> m = 6 \<or> m = 7 \<or> m = 8 \<or> m = 9 \<or> m = 10 \<or> m = 11"
    by presburger
  then show ?thesis by (elim disjE) (simp_all add: month_start_def month_length_def)
qed

lemma month_start_mono:
  assumes "m < m'" "1 \<le> m" "m' \<le> 12"
  shows "month_start (leap_year y) (m - 1) + month_length y m \<le> month_start (leap_year y) (m' - 1)"
  using assms(1,3)
proof (induction m' rule: int_gr_induct [where k = m])
  case base
  then show ?case using month_start_step [of m y] assms(2) by simp
next
  case (step i)
  have "0 \<le> month_length y i" by (simp add: month_length_def)
  with step month_start_step [of i y] assms(2) show ?case by simp
qed

lemma day_of_year:
  assumes "1 \<le> m" "m \<le> 12" "1 \<le> d" "d \<le> month_length y m"
  shows "0 \<le> month_start (leap_year y) (m - 1) + d - 1"
    and "month_start (leap_year y) (m - 1) + d - 1 < (if leap_year y then 366 else 365)"
proof -
  from assms have "m = 1 \<or> m = 2 \<or> m = 3 \<or> m = 4 \<or> m = 5 \<or> m = 6 \<or> m = 7 \<or> m = 8 \<or> m = 9 \<or> m = 10 \<or> m = 11 \<or> m = 12"
    by presburger
  then have "month_start (leap_year y) (m - 1) + month_length y m \<le> (if leap_year y then 366 else 365) \<and>
      0 \<le> month_start (leap_year y) (m - 1)"
    by (elim disjE) (simp_all add: month_start_def month_length_def)
  with assms show "0 \<le> month_start (leap_year y) (m - 1) + d - 1"
    and "month_start (leap_year y) (m - 1) + d - 1 < (if leap_year y then 366 else 365)"
    by auto
qed

text \<open>A later date has a larger day number, and the day numbers of the admitted years are bounded.\<close>

definition date_ok :: "int \<Rightarrow> int \<Rightarrow> int \<Rightarrow> bool" where
  "date_ok y m d \<longleftrightarrow> 1 \<le> m \<and> m \<le> 12 \<and> 1 \<le> d \<and> d \<le> month_length y m"

lemma day_number_mono:
  assumes "date_ok y m d" "date_ok y' m' d'" and less: "[y, m, d] < [y', m', d']"
  shows "day_number y m d < day_number y' m' d'"
proof -
  from less consider "y < y'" | "y = y'" "m < m'" | "y = y'" "m = m'" "d < d'" by auto
  then show ?thesis
  proof cases
    case 1
    with assms day_of_year [of m d y] day_of_year [of m' d' y'] years_apart [of y y'] show ?thesis
      by (simp add: day_number_def date_ok_def split: if_splits)
  next
    case 2
    with assms month_start_mono [of m m' y] show ?thesis by (simp add: day_number_def date_ok_def)
  next
    case 3
    then show ?thesis by (simp add: day_number_def)
  qed
qed

lemma day_number_bounds:
  assumes "date_ok y m d" "0 \<le> y" "y \<le> 9999"
  shows "- 719528 \<le> day_number y m d" and "day_number y m d < 2932897"
proof -
  have "date_ok 0 1 1" "date_ok 10000 1 1" by (simp_all add: date_ok_def month_length_def)
  moreover have "day_number 0 1 1 = - 719528" "day_number 10000 1 1 = 2932897"
    by (simp_all add: day_number_def DayFromYear_def month_start_def)
  moreover have "[0, 1, 1] < [y, m, d] \<or> [0, 1, 1] = [y, m, d]" and "[y, m, d] < [10000, 1, 1]"
    using assms by (auto simp: date_ok_def)
  ultimately show "- 719528 \<le> day_number y m d" and "day_number y m d < 2932897"
    using day_number_mono [OF _ assms(1), of 0 1 1] day_number_mono [OF assms(1), of 10000 1 1] by auto
qed

section \<open>The sort key of a timestamp\<close>

definition epoch_second :: "instant \<Rightarrow> int" where
  "epoch_second t = ((day_number (year t) (month t) (day t) * 24 + hour t) * 60 + minute t) * 60 + sec t"

lemma four_centuries: "DayFromYear (y + 400) = DayFromYear y + 146097" "leap_year (y + 400) = leap_year y"
proof -
  have "(y - 1969 + 100 * 4) div 4 = (y - 1969) div 4 + 100" "(y - 1901 + 4 * 100) div 100 = (y - 1901) div 100 + 4"
    "(y - 1601 + 1 * 400) div 400 = (y - 1601) div 400 + 1"
    by (simp_all only: div_mult_self1 zero_neq_numeral)
  then show "DayFromYear (y + 400) = DayFromYear y + 146097" by (simp add: DayFromYear_def)
  have "(y + 400) mod 4 = y mod 4" "(y + 400) mod 100 = y mod 100"
    using mod_mult_self1 [of y 100 4] mod_mult_self1 [of y 4 100] by simp_all
  then show "leap_year (y + 400) = leap_year y" by (simp add: leap_year_def)
qed

lemma utcMillis_epoch:
  assumes "real_instant t"
  shows "utcMillis (year t) (month t) (day t) (hour t) (minute t) (sec t) 0 = epoch_second t * 1000"
proof -
  from assms have m: "(month t - 1) div 12 = 0" "(month t - 1) mod 12 = month t - 1" and y: "0 \<le> year t"
    by (simp_all add: real_instant_def)
  show ?thesis
  proof (cases "year t < 100")
    case True
    with y m show ?thesis
      by (simp add: utcMillis_def Date_UTC_def four_centuries epoch_second_def day_number_def Let_def algebra_simps)
  next
    case False
    with m show ?thesis by (simp add: utcMillis_def Date_UTC_def epoch_second_def day_number_def Let_def)
  qed
qed

lemma read_digits_printed:
  "0 \<le> n \<Longrightarrow> n \<le> 99 \<Longrightarrow> read_digits 2 0 (two_digits n @ s) = Some (n, s)"
  "0 \<le> n \<Longrightarrow> n \<le> 9999 \<Longrightarrow> read_digits 4 0 (four_digits n @ s) = Some (n, s)"
proof -
  show "read_digits 2 0 (two_digits n @ s) = Some (n, s)" if "0 \<le> n" "n \<le> 99"
  proof -
    from that obtain a b where "n = 10 * a + b" "0 \<le> a" "a \<le> 9" "0 \<le> b" "b \<le> 9" by (rule split_two)
    then show ?thesis by (simp add: digits_of numeral_eq_Suc is_digit_def)
  qed
  show "read_digits 4 0 (four_digits n @ s) = Some (n, s)" if "0 \<le> n" "n \<le> 9999"
  proof -
    from that obtain a b c d where "n = 1000 * a + 100 * b + 10 * c + d" "0 \<le> a" "a \<le> 9" "0 \<le> b" "b \<le> 9"
      "0 \<le> c" "c \<le> 9" "0 \<le> d" "d \<le> 9" by (rule split_four)
    then show ?thesis by (simp add: digits_of numeral_eq_Suc is_digit_def)
  qed
qed

lemma is_digit_digit [simp]: "is_digit (digit n)"
proof -
  have "0 \<le> n mod 10" "n mod 10 < 10" by simp_all
  then show ?thesis unfolding digit_def is_digit_def by linarith
qed

lemma printed_are_digits:
  "list_all is_digit (two_digits n)" "list_all is_digit (three_digits n)" "list_all is_digit (four_digits n)"
  by (simp_all add: two_digits_def three_digits_def four_digits_def)

lemma printed_lengths [simp]:
  "length (two_digits n) = 2" "length (three_digits n) = 3" "length (four_digits n) = 4"
  by (simp_all add: two_digits_def three_digits_def four_digits_def)

lemma ISO_INSTANT_printed:
  assumes "real_instant t"
  shows "ISO_INSTANT (iso_string t) =
    Some (year t, month t, day t, hour t, minute t, sec t, three_digits (millis t), 0)"
proof -
  have "month_length (year t) (month t) \<le> 31" by (simp add: month_length_def)
  with assms have r: "0 \<le> year t" "year t \<le> 9999" "0 \<le> month t" "month t \<le> 99" "0 \<le> day t" "day t \<le> 99"
    "0 \<le> hour t" "hour t \<le> 99" "0 \<le> minute t" "minute t \<le> 99" "0 \<le> sec t" "sec t \<le> 99"
    by (simp_all add: real_instant_def)
  have chars: "one_of ''-'' 45" "one_of ''Tt'' 84" "one_of '':'' 58" "one_of ''.'' 46" "one_of ''Zz'' 90" "\<not> is_digit 90"
    by (simp_all add: one_of_def asc_def is_digit_def)
  have frac: "read_fraction (46 # three_digits n @ [90]) = (three_digits n, [90])" for n
    using printed_are_digits(2) [of n] chars
    by (simp add: read_fraction_def takeWhile_append dropWhile_append list_all_iff) (simp add: three_digits_def)
  show ?thesis
    by (simp add: ISO_INSTANT_def iso_string_def read_digits_printed r chars frac read_offset_def)
qed

lemma instantKey_printed:
  assumes "real_instant t"
  shows "instantKey (iso_string t) = padStart 16 (decimal (epoch_second t * 1000 + 62167219200000)) @
    46 # padEnd 9 (three_digits (millis t))"
  using assms by (simp add: instantKey_def ISO_INSTANT_printed utcMillis_epoch)

lemma epoch_second_bounds:
  assumes "real_instant t"
  shows "0 \<le> epoch_second t * 1000 + 62167219200000" and "epoch_second t * 1000 + 62167219200000 < 10 ^ 16"
proof -
  from assms have "date_ok (year t) (month t) (day t)" "0 \<le> year t" "year t \<le> 9999"
    by (simp_all add: date_ok_def real_instant_def)
  from day_number_bounds [OF this] assms
  show "0 \<le> epoch_second t * 1000 + 62167219200000" and "epoch_second t * 1000 + 62167219200000 < 10 ^ 16"
    by (simp_all add: epoch_second_def real_instant_def)
qed

section \<open>One order three times\<close>

text \<open>The fields of an instant, most significant first, compared as lists.\<close>

definition instant_fields :: "instant \<Rightarrow> int list" where
  "instant_fields t = [year t, month t, day t, hour t, minute t, sec t, millis t]"

lemma two_digits_value:
  assumes "0 \<le> n" "n \<le> 99"
  shows "digits_value 0 (two_digits n) = n"
proof -
  from assms obtain a b where "n = 10 * a + b" "0 \<le> a" "a \<le> 9" "0 \<le> b" "b \<le> 9" by (rule split_two)
  then show ?thesis by (simp add: digits_of)
qed

lemma three_digits_value:
  assumes "0 \<le> n" "n \<le> 999"
  shows "digits_value 0 (three_digits n) = n"
proof -
  from assms obtain a b c where "n = 100 * a + 10 * b + c" "0 \<le> a" "a \<le> 9" "0 \<le> b" "b \<le> 9" "0 \<le> c" "c \<le> 9" by (rule split_three)
  then show ?thesis by (simp add: digits_of)
qed

lemma four_digits_value:
  assumes "0 \<le> n" "n \<le> 9999"
  shows "digits_value 0 (four_digits n) = n"
proof -
  from assms obtain a b c d where "n = 1000 * a + 100 * b + 10 * c + d" "0 \<le> a" "a \<le> 9" "0 \<le> b" "b \<le> 9" "0 \<le> c" "c \<le> 9" "0 \<le> d" "d \<le> 9" by (rule split_four)
  then show ?thesis by (simp add: digits_of)
qed

lemma printed_less:
  "0 \<le> n \<Longrightarrow> n \<le> 99 \<Longrightarrow> 0 \<le> k \<Longrightarrow> k \<le> 99 \<Longrightarrow> two_digits n < two_digits k \<longleftrightarrow> n < k"
  "0 \<le> n \<Longrightarrow> n \<le> 999 \<Longrightarrow> 0 \<le> k \<Longrightarrow> k \<le> 999 \<Longrightarrow> three_digits n < three_digits k \<longleftrightarrow> n < k"
  "0 \<le> n \<Longrightarrow> n \<le> 9999 \<Longrightarrow> 0 \<le> k \<Longrightarrow> k \<le> 9999 \<Longrightarrow> four_digits n < four_digits k \<longleftrightarrow> n < k"
  "0 \<le> n \<Longrightarrow> n \<le> 99 \<Longrightarrow> 0 \<le> k \<Longrightarrow> k \<le> 99 \<Longrightarrow> two_digits n = two_digits k \<longleftrightarrow> n = k"
  "0 \<le> n \<Longrightarrow> n \<le> 999 \<Longrightarrow> 0 \<le> k \<Longrightarrow> k \<le> 999 \<Longrightarrow> three_digits n = three_digits k \<longleftrightarrow> n = k"
  "0 \<le> n \<Longrightarrow> n \<le> 9999 \<Longrightarrow> 0 \<le> k \<Longrightarrow> k \<le> 9999 \<Longrightarrow> four_digits n = four_digits k \<longleftrightarrow> n = k"
  by (simp_all add: digits_less_iff printed_are_digits two_digits_value three_digits_value four_digits_value)
     (metis two_digits_value three_digits_value four_digits_value)+

lemma iso_string_less:
  assumes "real_instant t" "real_instant u"
  shows "iso_string t < iso_string u \<longleftrightarrow> instant_fields t < instant_fields u"
proof -
  have "month_length y m \<le> 31" for y m by (simp add: month_length_def)
  then have "day t \<le> 99" "day u \<le> 99"
    using assms by (smt (verit) real_instant_def)+
  with assms show ?thesis
    by (simp add: iso_string_def instant_fields_def append_less_iff printed_less real_instant_def conj_ac)
qed

lemma epoch_second_mono:
  assumes "real_instant t" "real_instant u" and "butlast (instant_fields t) < butlast (instant_fields u)"
  shows "epoch_second t < epoch_second u"
proof -
  have ok: "date_ok (year t) (month t) (day t)" "date_ok (year u) (month u) (day u)"
    using assms by (simp_all add: date_ok_def real_instant_def)
  let ?d = "day_number (year t) (month t) (day t)" and ?e = "day_number (year u) (month u) (day u)"
  from assms(3) consider "[year t, month t, day t] < [year u, month u, day u]"
    | "?d = ?e" "[hour t, minute t, sec t] < [hour u, minute u, sec u]"
    by (auto simp: instant_fields_def)
  then show ?thesis
  proof cases
    case 1
    from day_number_mono [OF ok 1] assms(1,2) show ?thesis by (simp add: epoch_second_def real_instant_def)
  next
    case 2
    with assms(1,2) show ?thesis by (auto simp: epoch_second_def real_instant_def)
  qed
qed

lemma instantKey_less:
  assumes t: "real_instant t" and u: "real_instant u"
  shows "instantKey (iso_string t) < instantKey (iso_string u) \<longleftrightarrow> instant_fields t < instant_fields u"
proof -
  let ?f = "\<lambda>x. butlast (instant_fields x)"
  have key: "instantKey (iso_string t) < instantKey (iso_string u) \<longleftrightarrow>
      epoch_second t < epoch_second u \<or> epoch_second t = epoch_second u \<and> millis t < millis u"
  proof -
    have pad: "padEnd 9 (three_digits n) = three_digits n @ replicate 6 48" for n by (simp add: padEnd_def)
    define K where "K x = padStart 16 (decimal (epoch_second x * 1000 + 62167219200000))" for x
    note Kt = padded_number [OF epoch_second_bounds [OF t] one_le_numeral, folded K_def]
    note Ku = padded_number [OF epoch_second_bounds [OF u] one_le_numeral, folded K_def]
    from Kt Ku have "K t < K u \<longleftrightarrow> epoch_second t < epoch_second u" by (simp add: digits_less_iff)
    moreover have "K t = K u \<longleftrightarrow> epoch_second t = epoch_second u"
    proof
      assume "K t = K u"
      with Kt(3) Ku(3) have "epoch_second t * 1000 + 62167219200000 = epoch_second u * 1000 + 62167219200000" by simp
      then show "epoch_second t = epoch_second u" by simp
    qed (simp add: K_def)
    moreover have "three_digits (millis t) < three_digits (millis u) \<longleftrightarrow> millis t < millis u"
      using t u by (intro printed_less) (simp_all add: real_instant_def)
    ultimately show ?thesis
      using Kt(1) Ku(1) by (simp add: instantKey_printed t u pad append_less_iff flip: K_def)
  qed
  have lex: "instant_fields t < instant_fields u \<longleftrightarrow> ?f t < ?f u \<or> ?f t = ?f u \<and> millis t < millis u"
    by (auto simp: instant_fields_def)
  consider (less) "?f t < ?f u" | (equal) "?f t = ?f u" | (greater) "?f u < ?f t" by (metis linorder_neq_iff)
  then show ?thesis
  proof cases
    case less
    with epoch_second_mono [OF t u] show ?thesis by (simp add: key lex)
  next
    case equal
    then have "epoch_second t = epoch_second u" by (simp add: instant_fields_def epoch_second_def)
    with equal show ?thesis by (simp add: key lex)
  next
    case greater
    with epoch_second_mono [OF u t] show ?thesis by (auto simp: key lex)
  qed
qed

section \<open>Properties\<close>

text \<open>
  C19. The canonical order is the order of time.  On two timestamps the schema admits, the sort keys
  compare as the instants they print, field by field, and as the strings themselves; equal keys mean
  equal timestamps.
\<close>

theorem key_order_is_time_order:
  assumes "real_instant t" and "real_instant u"
  shows "(instantKey (iso_string t) < instantKey (iso_string u) \<longleftrightarrow> instant_fields t < instant_fields u) \<and>
    (iso_string t < iso_string u \<longleftrightarrow> instant_fields t < instant_fields u) \<and>
    (instantKey (iso_string t) = instantKey (iso_string u) \<longleftrightarrow> t = u)"
proof -
  have "t = u" if "\<not> instant_fields t < instant_fields u" "\<not> instant_fields u < instant_fields t"
    using that by (intro instant.equality) (auto simp: instant_fields_def)
  with instantKey_less [OF assms] instantKey_less [OF assms(2,1)] iso_string_less [OF assms] show ?thesis
    by (metis less_irrefl)
qed

theorem key_order_is_time_order_witness:
  "instantKey (iso_string \<lparr>year = 99, month = 12, day = 31, hour = 23, minute = 59, sec = 59, millis = 999\<rparr>) <
   instantKey (iso_string \<lparr>year = 100, month = 1, day = 1, hour = 0, minute = 0, sec = 0, millis = 0\<rparr>)"
  using key_order_is_time_order
    [of "\<lparr>year = 99, month = 12, day = 31, hour = 23, minute = 59, sec = 59, millis = 999\<rparr>"
        "\<lparr>year = 100, month = 1, day = 1, hour = 0, minute = 0, sec = 0, millis = 0\<rparr>"]
  by (simp add: real_instant_def month_length_def instant_fields_def)

end
