(* ===== verification/Acceptance.thy ===== *)
theory Acceptance
  imports Receipt Wire
begin

text \<open>
  \<open>acceptance.ts\<close>: the acceptance engine, which decides what becomes of a proposal, and answer
  binding, which turns a person's answer into the two events that settle a question.  The reason of
  a decision is prose and is left out; the rule that fired identifies it.
\<close>

section \<open>Decisions\<close>

datatype commitment_attribution = SelfStated | ThirdParty

datatype acceptance_verdict = AutoAccept | Pending | Discard

datatype acceptance_visibility = VisibleAccepted | Quiet | NeedsYou | Hidden

datatype rule_name =
    MissingMessageContext | ProvenanceFailed | ReceiptNotCertifiableRule | DuplicateOfAccepted
  | BelowThetaMin | ThetaBand | AutoAcceptRule | NeverAutoAccepts | TypeNotCertified
  | ThirdPartyCommitment | HumanProposer

record acceptance_decision =
  verdict :: acceptance_verdict
  visibility :: acceptance_visibility
  awaitingConfirmFrom :: "jstr option"
  rule :: rule_name
  decision_thetaAuto :: rat
  autoAcceptAvailable :: bool
  decision_thetaMin :: rat
  attribution :: "commitment_attribution option"
  duplicateOf :: "jstr option"
  decision_about :: problem_subject

record accepted_ref =
  ref_objectId :: jstr
  ref_payload :: payload
  ref_messageIds :: "jstr list"
  ref_retractedAt :: "jstr option"
  ref_supersededById :: "jstr option"

definition acceptedObjectRef :: "object_record \<Rightarrow> accepted_ref" where
  "acceptedObjectRef r = \<lparr>ref_objectId = object_id (object r), ref_payload = object_payload (object r),
     ref_messageIds = messageIds (object_provenance (object r)), ref_retractedAt = retractedAt r,
     ref_supersededById = supersededById r\<rparr>"

record acceptance_context =
  context_config :: "(accepted_type \<Rightarrow> acceptance_rule) option"
  context_messages :: "provenance_message list option"
  acceptedObjects :: "accepted_ref list option"

section \<open>Whose commitment, and said before?\<close>

definition payloadAttributedTo :: "accepted_type \<Rightarrow> fields \<Rightarrow> jstr option" where
  "payloadAttributedTo ty fs = (case payloadAttributions ty fs of [] \<Rightarrow> None | n # _ \<Rightarrow> Some n)"

definition commitmentAttribution ::
  "unicode \<Rightarrow> jstr \<Rightarrow> jstr list \<Rightarrow> provenance_message list option \<Rightarrow> jstr option \<Rightarrow> commitment_attribution" where
  "commitmentAttribution U own citedMessageIds ms q =
     (if \<not> window_has_content U ms then ThirdParty
      else if \<not> hasContent U q then ThirdParty
      else case bearingMessage (the q) (filter (\<lambda>m. message_id m \<in> set citedMessageIds) (the ms)) of
        Some m \<Rightarrow> if authorId m = own then SelfStated else ThirdParty
      | None \<Rightarrow> ThirdParty)"

text \<open>Every key of either payload but the text, compared as canonical JSON; an absent key is null.\<close>

definition key_or_null :: "fields \<Rightarrow> jstr \<Rightarrow> json" where
  "key_or_null fs k = (case map_of fs k of None \<Rightarrow> JNull | Some j \<Rightarrow> j)"

definition payloadsMatch :: "accepted_type \<Rightarrow> fields \<Rightarrow> fields \<Rightarrow> bool" where
  "payloadsMatch ty a b = list_all (\<lambda>k. k = asc (payloadTextKey ty) \<or>
     canonicalJson (key_or_null a k) = canonicalJson (key_or_null b k))
     (map asc (objectPayloadKeys ty) @ map fst a @ map fst b)"

definition is_duplicate :: "unicode \<Rightarrow> accepted_type \<Rightarrow> fields \<Rightarrow> jstr list \<Rightarrow> accepted_ref \<Rightarrow> bool" where
  "is_duplicate U ty fs ids c \<longleftrightarrow>
     payload_type (ref_payload c) = ty \<and> ref_retractedAt c = None \<and> ref_supersededById c = None \<and>
     list_ex (\<lambda>i. i \<in> set ids) (ref_messageIds c) \<and>
     (let have_tokens = orderedTokens U (payloadText ty (payload_fields (ref_payload c))) in
      have_tokens \<noteq> [] \<and> borne (alignTokens RECEIPT_POLICY have_tokens (orderedTokens U (payloadText ty fs)))) \<and>
     payloadsMatch ty (payload_fields (ref_payload c)) fs"

definition findDuplicate ::
  "unicode \<Rightarrow> accepted_type \<Rightarrow> fields \<Rightarrow> jstr list \<Rightarrow> accepted_ref list \<Rightarrow> accepted_ref option" where
  "findDuplicate U ty fs ids refs =
     (if orderedTokens U (payloadText ty fs) = [] then None else List.find (is_duplicate U ty fs ids) refs)"

section \<open>The engine\<close>

definition proposal_subject :: "('a) stored_proposal_scheme \<Rightarrow> provenance_subject" where
  "proposal_subject p = (let ty = proposal_type p; fs = payload_fields (proposal_payload p) in
     \<lparr>subject_type = ty, subject_provenance = cites p, subject_quote = quote p, subject_proposer = proposer p,
      attributedTo = payloadAttributedTo ty fs, statement = Some (payloadText ty fs)\<rparr>)"

definition context_problems :: "unicode \<Rightarrow> ('a) stored_proposal_scheme \<Rightarrow> acceptance_context \<Rightarrow> problem list" where
  "context_problems U p ctx = (case context_messages ctx of
     Some (m # ms) \<Rightarrow> validateProposalProvenance U RECEIPT_POLICY (proposal_subject p) (m # ms)
   | _ \<Rightarrow> [])"

definition window_subject :: "problem list \<Rightarrow> problem_subject" where
  "window_subject ps = (if isAboutTheWindow ps then TheWindow else TheReading)"

definition config_rule :: "acceptance_context \<Rightarrow> accepted_type \<Rightarrow> acceptance_rule" where
  "config_rule ctx ty = (case context_config ctx of None \<Rightarrow> DEFAULT_ACCEPTANCE_RULES ty | Some c \<Rightarrow> c ty)"

definition base_decision :: "acceptance_rule \<Rightarrow> acceptance_decision" where
  "base_decision r = \<lparr>verdict = Pending, visibility = Hidden, awaitingConfirmFrom = None, rule = HumanProposer,
     decision_thetaAuto = thetaAuto r, autoAcceptAvailable = autoAccept r, decision_thetaMin = thetaMin r,
     attribution = None, duplicateOf = None, decision_about = TheReading\<rparr>"

text \<open>The part of the decision a person's own proposal takes, in place of the thresholds.\<close>

definition human_decision :: "('a) stored_proposal_scheme \<Rightarrow> jstr \<Rightarrow> jstr option \<Rightarrow> acceptance_decision \<Rightarrow> acceptance_decision" where
  "human_decision p staged named base =
     (let namesAnother = (proposal_type p = Commitment \<and> named \<noteq> None \<and> named \<noteq> Some staged) in
      base\<lparr>verdict := Pending, visibility := NeedsYou,
        attribution := (if proposal_type p = Commitment then Some (if namesAnother then ThirdParty else SelfStated) else None),
        awaitingConfirmFrom := (if namesAnother then named else None), rule := HumanProposer\<rparr>)"

text \<open>The thresholds, for a machine's reading whose receipt holds.\<close>

definition threshold_decision ::
  "unicode \<Rightarrow> ('a) stored_proposal_scheme \<Rightarrow> acceptance_rule \<Rightarrow> jstr option \<Rightarrow> acceptance_decision \<Rightarrow> acceptance_decision" where
  "threshold_decision U p r named base =
     (if confidence p < thetaMin r then base\<lparr>verdict := Discard, visibility := Hidden, rule := BelowThetaMin\<rparr>
      else if confidence p < thetaAuto r then base\<lparr>verdict := Pending, visibility := Quiet, rule := ThetaBand\<rparr>
      else if proposal_type p = Commitment \<and> attribution base = Some ThirdParty then
        base\<lparr>verdict := Pending, visibility := NeedsYou, awaitingConfirmFrom := named, rule := ThirdPartyCommitment\<rparr>
      else if \<not> autoAccept r then base\<lparr>verdict := Pending, visibility := NeedsYou, rule := NeverAutoAccepts\<rparr>
      else if \<not> typeCertifiableFromText U (proposal_type p)
                 (normalizeForReceipt (payloadText (proposal_type p) (payload_fields (proposal_payload p)))) then
        base\<lparr>verdict := Pending, visibility := NeedsYou, rule := TypeNotCertified\<rparr>
      else base\<lparr>verdict := AutoAccept, visibility := VisibleAccepted, rule := AutoAcceptRule\<rparr>)"

definition decideAcceptance :: "unicode \<Rightarrow> ('a) stored_proposal_scheme \<Rightarrow> acceptance_context \<Rightarrow> acceptance_decision" where
  "decideAcceptance U p ctx =
     (let ty = proposal_type p; r = config_rule ctx ty; fs = payload_fields (proposal_payload p);
          named = payloadAttributedTo ty fs; base = base_decision r; ms = context_messages ctx in
      if proposerIsMachine (proposer p) \<and> \<not> window_has_content U ms then
        base\<lparr>verdict := Discard, visibility := Hidden, rule := MissingMessageContext, decision_about := TheWindow\<rparr>
      else let problems = context_problems U p ctx; rejecting = rejectingProblems problems in
      if rejecting \<noteq> [] then
        base\<lparr>verdict := Discard, visibility := Hidden, rule := ProvenanceFailed,
             decision_about := window_subject rejecting\<rparr>
      else let attr = (if ty = Commitment then Some (commitmentAttribution U (or_empty named) (cites p) ms (quote p)) else None);
               referring = referringProblems problems; judged = base\<lparr>attribution := attr\<rparr> in
      if referring \<noteq> [] then
        judged\<lparr>verdict := Pending, visibility := Quiet, rule := ReceiptNotCertifiableRule,
               decision_about := window_subject referring\<rparr>
      else case Option.bind (acceptedObjects ctx) (findDuplicate U ty fs (cites p)) of
        Some d \<Rightarrow> judged\<lparr>verdict := Discard, visibility := Hidden, rule := DuplicateOfAccepted,
                    duplicateOf := Some (ref_objectId d)\<rparr>
      | None \<Rightarrow> (case proposer p of
          ByHuman u \<Rightarrow> human_decision p u named judged
        | _ \<Rightarrow> threshold_decision U p r named judged))"

section \<open>Answer binding\<close>

datatype answer_payload =
    AnswerDecision jstr "jstr option" decision_status
  | AnswerClaim jstr jstr verification

fun answer_content :: "answer_payload \<Rightarrow> payload" where
  "answer_content (AnswerDecision s d st) = DecisionPayload s d st"
| "answer_content (AnswerClaim s c v) = ClaimPayload s c v"

record answer_command =
  command_at :: jstr
  command_roomId :: jstr
  questionObjectId :: jstr
  answer_objectId :: jstr
  answer_payload :: answer_payload
  command_messageIds :: "jstr list"
  acceptEventId :: jstr
  relationEventId :: jstr
  command_relationId :: jstr
  command_objectiveId :: "jstr option"

datatype answer_refusal =
    OnlyAHumanAnswers
  | UnknownQuestion jstr
  | NotAQuestion jstr accepted_type
  | QuestionRetracted jstr
  | QuestionAlreadyAnswered jstr
  | QuestionInOtherRoom jstr jstr
  | AnswerExists jstr
  | EventIdsOutOfOrder jstr jstr
  | RolledBack jstr event_outcome

fun question_is_open :: "payload \<Rightarrow> bool" where
  "question_is_open (OpenQuestionPayload q st) = (st = QuestionOpen)"
| "question_is_open _ = False"

definition answerBindingRefusal :: "core_state \<Rightarrow> answer_command \<Rightarrow> actor \<Rightarrow> answer_refusal option" where
  "answerBindingRefusal s c a =
     (if \<not> isHuman a then Some OnlyAHumanAnswers
      else case get (objects s) (questionObjectId c) of
        None \<Rightarrow> Some (UnknownQuestion (questionObjectId c))
      | Some r \<Rightarrow>
          if object_type (object r) \<noteq> OpenQuestion then Some (NotAQuestion (questionObjectId c) (object_type (object r)))
          else if retractedAt r \<noteq> None then Some (QuestionRetracted (questionObjectId c))
          else if \<not> question_is_open (object_payload (object r)) then Some (QuestionAlreadyAnswered (questionObjectId c))
          else if object_roomId (object r) \<noteq> command_roomId c
            then Some (QuestionInOtherRoom (questionObjectId c) (object_roomId (object r)))
          else if get (objects s) (answer_objectId c) \<noteq> None then Some (AnswerExists (answer_objectId c))
          else if compareCursor \<lparr>cursor_at = command_at c, cursor_id = acceptEventId c\<rparr>
                    \<lparr>cursor_at = command_at c, cursor_id = relationEventId c\<rparr> \<ge> 0
            then Some (EventIdsOutOfOrder (acceptEventId c) (relationEventId c))
          else None)"

definition answer_object :: "answer_command \<Rightarrow> accepted_object" where
  "answer_object c = \<lparr>object_id = answer_objectId c, object_roomId = command_roomId c,
     object_objectiveId = command_objectiveId c,
     object_provenance = \<lparr>messageIds = command_messageIds c, proposalId = None, interpretationId = None\<rparr>,
     object_payload = answer_content (answer_payload c), object_createdAt = command_at c,
     object_updatedAt = command_at c\<rparr>"

definition answer_relation :: "answer_command \<Rightarrow> relation" where
  "answer_relation c = \<lparr>relation_id = command_relationId c, relation_roomId = command_roomId c,
     relation_kind = Answers, fromObjectId = questionObjectId c, relation_to = ToObject (answer_objectId c),
     relation_note = None, relation_createdAt = command_at c\<rparr>"

definition answerBindingEvents :: "answer_command \<Rightarrow> actor \<Rightarrow> authored_event list" where
  "answerBindingEvents c a = map (\<lambda>e. authored e \<lparr>actor = a, messages = None\<rparr>)
     [ObjectAccepted (acceptEventId c) (command_at c) (answer_object c),
      RelationAdded (relationEventId c) (command_at c) (answer_relation c)]"

definition bindAnswer :: "core_state \<Rightarrow> answer_command \<Rightarrow> actor \<Rightarrow> answer_refusal + authored_event list" where
  "bindAnswer s c a = (case answerBindingRefusal s c a of
     Some r \<Rightarrow> Inl r | None \<Rightarrow> Inr (answerBindingEvents c a))"

text \<open>The loop of \<open>applyAnswerBinding\<close>: every event must apply without an issue, or none does.\<close>

fun apply_all :: "unicode \<Rightarrow> core_state \<Rightarrow> authored_event list \<Rightarrow> answer_refusal + core_state" where
  "apply_all U s [] = Inr s"
| "apply_all U s (x # xs) =
     (case appendEvent U s (event_json (event x)) \<lparr>actor = actor x, messages = None\<rparr> of
        (s', Applied e a) \<Rightarrow> apply_all U s' xs
      | (s', oc) \<Rightarrow> Inl (RolledBack (event_id (event x)) oc))"

definition applyAnswerBinding ::
  "unicode \<Rightarrow> core_state \<Rightarrow> answer_command \<Rightarrow> actor \<Rightarrow> (core_state \<times> answer_refusal) + (core_state \<times> authored_event list)" where
  "applyAnswerBinding U s c a = (case bindAnswer s c a of
     Inl r \<Rightarrow> Inl (s, r)
   | Inr events \<Rightarrow> (case apply_all U s events of
       Inl r \<Rightarrow> Inl (s, r)
     | Inr s' \<Rightarrow> Inr (s', events)))"

section \<open>The engine against the reducer\<close>

lemma nothing_to_quote: "normalizeForReceipt [] = []"
  by code_simp

lemma quoted_not_blank:
  assumes "normalizeForReceipt (subject_quote_text U s) \<noteq> []"
  shows "\<not> isBlank U (subject_quote s)"
  using assms nothing_to_quote by (auto simp: subject_quote_text_def isBlank_def split: if_splits)

text \<open>On the types a machine may accept, the engine and the reducer check the same subject.\<close>

lemma proposal_subject_eq:
  "proposal_subject p = \<lparr>subject_type = proposal_type p, subject_provenance = cites p, subject_quote = quote p,
     subject_proposer = proposer p,
     attributedTo = (case attributions (proposal_payload p) of [] \<Rightarrow> None | n # _ \<Rightarrow> Some n),
     statement = Some (payload_statement (proposal_payload p))\<rparr>"
  by (simp add: proposal_subject_def payloadAttributedTo_def attributions_def proposal_type_def Let_def)

lemma same_subject:
  assumes "payload_ok (proposal_payload p)" and "object_payload ob = proposal_payload p"
    and "proposal_type p = Claim \<or> proposal_type p = OpenQuestion"
  shows "receipt_subject p ob = proposal_subject p"
  using assms
  by (cases "proposal_payload p") (auto simp: receipt_subject_def proposal_subject_eq proposal_type_def dest: Id_nonempty)

lemma problems_clean_iff:
  "validateProposalProvenance U P s ms = [] \<longleftrightarrow> provenance_findings U P s ms = []"
  by (simp add: validateProposalProvenance_def Let_def)

text \<open>For those types every finding rejects or refers.\<close>

lemma no_reclassification:
  assumes "subject_type s = Claim \<or> subject_type s = OpenQuestion"
    and "x \<in> set (provenance_findings U P s ms)"
  shows "fst (snd x) \<noteq> Reclassify"
  using assms attribution_severity(2) [OF reclassification_source [OF assms(2)]] by auto

lemma unblocked_is_clean:
  assumes "subject_type s = Claim \<or> subject_type s = OpenQuestion"
    and "rejectingProblems (validateProposalProvenance U P s ms) = []"
    and "referringProblems (validateProposalProvenance U P s ms) = []"
  shows "provenance_findings U P s ms = []"
proof (rule ccontr)
  assume "provenance_findings U P s ms \<noteq> []"
  then obtain x where x: "x \<in> set (provenance_findings U P s ms)" by (meson list.set_sel(1))
  obtain k sev m where xe: "x = (k, sev, m)" by (cases x) auto
  from x xe have "\<exists>q \<in> set (validateProposalProvenance U P s ms). severity q = sev"
    by (force simp: validateProposalProvenance_def Let_def)
  with assms(2,3) no_reclassification [OF assms(1) x] xe show False
    by (cases sev) (auto simp: rejectingProblems_def referringProblems_def filter_empty_conv)
qed

lemma clean_quotes:
  assumes "provenance_findings U P s ms = []" and "proposerIsMachine (subject_proposer s)"
  shows "\<not> isBlank U (subject_quote s)"
proof (rule quoted_not_blank)
  show "normalizeForReceipt (subject_quote_text U s) \<noteq> []"
    using assms by (auto simp: provenance_findings_def finding_if_def Let_def split: if_splits)
qed

lemma receipt_gate_open:
  assumes "payload_ok (proposal_payload p)" and "object_payload ob = proposal_payload p"
    and "proposal_type p = Claim \<or> proposal_type p = OpenQuestion"
    and "messageIds (object_provenance ob) = cites p" and "window_has_content U ms" and "proposerIsMachine (proposer p)"
  shows "acceptanceReceiptRefusal U a pid p ob ms = None \<longleftrightarrow>
    provenance_findings U RECEIPT_POLICY (proposal_subject p) (the ms) = []"
proof
  assume "acceptanceReceiptRefusal U a pid p ob ms = None"
  then show "provenance_findings U RECEIPT_POLICY (proposal_subject p) (the ms) = []"
    by (elim receipt_clean) (simp add: same_subject [OF assms(1-3)])
next
  assume clean: "provenance_findings U RECEIPT_POLICY (proposal_subject p) (the ms) = []"
  then have "\<not> isBlank U (quote p)"
    using clean_quotes [of U RECEIPT_POLICY "proposal_subject p" "the ms"] assms(6)
    by (simp add: proposal_subject_def Let_def)
  with clean assms show "acceptanceReceiptRefusal U a pid p ob ms = None"
    by (simp add: acceptanceReceiptRefusal_def same_subject problems_clean_iff [THEN iffD2] rejectingProblems_def
        referringProblems_def Let_def)
qed

lemma auto_accept_conditions:
  "verdict (decideAcceptance U p ctx) = AutoAccept \<longleftrightarrow>
     proposerIsMachine (proposer p) \<and> window_has_content U (context_messages ctx) \<and>
     rejectingProblems (context_problems U p ctx) = [] \<and> referringProblems (context_problems U p ctx) = [] \<and>
     Option.bind (acceptedObjects ctx)
       (findDuplicate U (proposal_type p) (payload_fields (proposal_payload p)) (cites p)) = None \<and>
     thetaMin (config_rule ctx (proposal_type p)) \<le> confidence p \<and>
     thetaAuto (config_rule ctx (proposal_type p)) \<le> confidence p \<and>
     autoAccept (config_rule ctx (proposal_type p)) \<and>
     typeCertifiableFromText U (proposal_type p)
       (normalizeForReceipt (payloadText (proposal_type p) (payload_fields (proposal_payload p))))"
proof -
  have "typeCertifiableFromText U ty x \<Longrightarrow> ty \<noteq> Commitment" for ty x by (cases ty) auto
  then show ?thesis
    by (cases "proposer p")
       (auto simp: decideAcceptance_def human_decision_def threshold_decision_def base_decision_def Let_def
         not_less split: option.splits)
qed

lemma context_problems_window:
  "window_has_content U (context_messages ctx) \<Longrightarrow>
    context_problems U p ctx = validateProposalProvenance U RECEIPT_POLICY (proposal_subject p) (the (context_messages ctx))"
  by (auto simp: context_problems_def window_has_content_def split: option.splits list.splits)

end
