(* ===== verification/Engine.thy ===== *)
theory Engine
  imports Acceptance Samples
begin

text \<open>
  Properties of the acceptance engine and of answer binding: the engine and the reducer agree on what
  a machine may accept, a decision is consistent, a duplicate says the same thing, and an answer is
  bound in one piece or not at all.
\<close>

section \<open>Machine acceptance, twice\<close>

text \<open>The sample reading as a stored proposal, and the window it was read from.\<close>

definition sample_proposal :: stored_proposal where
  "sample_proposal = \<lparr>proposal_id = asc ''p1'', proposal_roomId = asc ''room'', confidence = 9/10,
     proposer = ByModel (asc ''m''), cites = [asc ''m1''],
     quote = Some (asc ''Which database do we move first?''), proposal_interpretationId = None,
     proposal_payload = reading, proposal_createdAt = sample_time ''00''\<rparr>"

definition sample_context :: acceptance_context where
  "sample_context = \<lparr>context_config = None, context_messages = Some sample_window, acceptedObjects = None\<rparr>"

lemma acceptable_types:
  assumes "rule_ok ty r" "autoAccept r"
  shows "ty = Claim \<or> ty = OpenQuestion"
  using assms by (auto simp: rule_ok_def autoAcceptable_iff)

lemma default_rule_ok: "rule_ok ty (DEFAULT_ACCEPTANCE_RULES ty)"
  by (cases ty) (simp_all add: rule_ok_def MODEL_ACCEPTANCE_FLOOR_def autoAcceptable_def)

lemma machine_refusal_None:
  assumes "proposalId (object_provenance ob) = Some pid" "cited_proposal s ob = Some r" "\<not> isHuman a"
    and "object_payload ob = proposal_payload (proposal r)"
  shows "machine_refusal U s ob a ms = None \<longleftrightarrow> acceptanceReceiptRefusal U a pid (proposal r) ob ms = None \<and>
    \<not> below_floor (confidence (proposal r)) (MODEL_ACCEPTANCE_FLOOR (proposal_type (proposal r))) \<and>
    typeCertifiableFromText U (proposal_type (proposal r))
      (normalizeForReceipt (payloadText (proposal_type (proposal r)) (payload_fields (proposal_payload (proposal r)))))"
  using assms by (auto simp: machine_refusal_def object_type_def proposal_type_def split: option.splits)

lemma accepted_passes_the_gate:
  assumes "verdict (decideAcceptance U (proposal r) ctx) = AutoAccept"
    and "rule_ok (proposal_type (proposal r)) (config_rule ctx (proposal_type (proposal r)))"
    and "payload_ok (proposal_payload (proposal r))"
    and "proposalId (object_provenance ob) = Some pid" "cited_proposal s ob = Some r" "\<not> isHuman a"
    and "object_payload ob = proposal_payload (proposal r)" "messageIds (object_provenance ob) = cites (proposal r)"
  shows "machine_refusal U s ob a (context_messages ctx) = None"
proof -
  let ?p = "proposal r" and ?ms = "context_messages ctx"
  from assms(1) have c: "proposerIsMachine (proposer ?p)" "window_has_content U ?ms"
      "rejectingProblems (context_problems U ?p ctx) = []" "referringProblems (context_problems U ?p ctx) = []"
      "thetaAuto (config_rule ctx (proposal_type ?p)) \<le> confidence ?p" "autoAccept (config_rule ctx (proposal_type ?p))"
      "typeCertifiableFromText U (proposal_type ?p)
         (normalizeForReceipt (payloadText (proposal_type ?p) (payload_fields (proposal_payload ?p))))"
    by (auto simp: auto_accept_conditions)
  have ty: "proposal_type ?p = Claim \<or> proposal_type ?p = OpenQuestion"
    using acceptable_types [OF assms(2) c(6)] .
  then have "subject_type (proposal_subject ?p) = Claim \<or> subject_type (proposal_subject ?p) = OpenQuestion"
    by (simp add: proposal_subject_eq)
  from unblocked_is_clean [OF this] c(2-4)
  have "provenance_findings U RECEIPT_POLICY (proposal_subject ?p) (the ?ms) = []"
    by (simp add: context_problems_window)
  with receipt_gate_open [OF assms(3,7) ty assms(8) c(2,1)] rule_ok_autoAccept [OF assms(2) c(6,5)] c(7) assms(4-7)
  show ?thesis by (simp add: machine_refusal_None)
qed

definition reading_object :: accepted_object where
  "reading_object = (sample_object ''q1'' reading)\<lparr>object_provenance := \<lparr>messageIds = [asc ''m1''],
     proposalId = Some (asc ''p1''), interpretationId = None\<rparr>\<rparr>"

definition staged_reading :: proposal_record where
  "staged_reading = \<lparr>proposal = sample_proposal, stagedBy = Model (asc ''m''), status = Proposed,
     acceptedObjectId = None, rejectedReason = None, supersededByProposalId = None, supersededReason = None\<rparr>"

definition staged_reading_state :: core_state where
  "staged_reading_state = emptyState\<lparr>proposals := [(asc ''p1'', staged_reading)]\<rparr>"

text \<open>
  C21. The engine is never looser than the reducer.  Under any configuration the schema admits, if the
  engine auto-accepts a proposal then the acceptance of the proposal's own payload and citations,
  by a machine and on the same window, passes every machine gate of the reducer.
\<close>

theorem engine_never_looser:
  assumes "verdict (decideAcceptance U (proposal r) ctx) = AutoAccept"
    and "rule_ok (proposal_type (proposal r)) (config_rule ctx (proposal_type (proposal r)))"
    and "payload_ok (proposal_payload (proposal r))"
    and "proposalId (object_provenance ob) = Some pid" "cited_proposal s ob = Some r" "\<not> isHuman a"
    and "object_payload ob = proposal_payload (proposal r)" "messageIds (object_provenance ob) = cites (proposal r)"
  shows "machine_refusal U s ob a (context_messages ctx) = None"
  using assms by (rule accepted_passes_the_gate)

theorem engine_never_looser_witness:
  "machine_refusal ascii staged_reading_state reading_object (Model (asc ''m'')) (Some sample_window) = None"
proof -
  have "verdict (decideAcceptance ascii sample_proposal sample_context) = AutoAccept" by code_simp
  moreover have "cited_proposal staged_reading_state reading_object = Some staged_reading"
    by (simp add: cited_proposal_def staged_reading_state_def reading_object_def get_def)
  moreover have "payload_ok reading" by code_simp
  ultimately show ?thesis
    using engine_never_looser [of ascii staged_reading sample_context reading_object "asc ''p1''" staged_reading_state "Model (asc ''m'')"]
    by (simp add: staged_reading_def sample_context_def config_rule_def default_rule_ok reading_object_def
        sample_proposal_def sample_object_def)
qed

text \<open>
  C22. With the default configuration the two agree exactly: on a machine's proposal, with nothing
  accepted before, the engine auto-accepts if and only if the reducer's machine gates let the
  acceptance through.
\<close>

theorem engine_is_the_machine_gate:
  assumes "proposerIsMachine (proposer (proposal r))" "payload_ok (proposal_payload (proposal r))"
    and "proposalId (object_provenance ob) = Some pid" "cited_proposal s ob = Some r" "\<not> isHuman a"
    and "object_payload ob = proposal_payload (proposal r)" "messageIds (object_provenance ob) = cites (proposal r)"
  shows "verdict (decideAcceptance U (proposal r) \<lparr>context_config = None, context_messages = ms, acceptedObjects = None\<rparr>) = AutoAccept
    \<longleftrightarrow> machine_refusal U s ob a ms = None"
    (is "?engine \<longleftrightarrow> ?gate")
proof
  let ?ctx = "\<lparr>context_config = None, context_messages = ms, acceptedObjects = None\<rparr>" and ?p = "proposal r"
  assume ?engine
  from accepted_passes_the_gate [OF this _ assms(2-7)] show ?gate by (simp add: config_rule_def default_rule_ok)
next
  let ?p = "proposal r"
  assume ?gate
  then have rec: "acceptanceReceiptRefusal U a pid ?p ob ms = None"
    and floor: "\<not> below_floor (confidence ?p) (MODEL_ACCEPTANCE_FLOOR (proposal_type ?p))"
    and cert: "typeCertifiableFromText U (proposal_type ?p)
      (normalizeForReceipt (payloadText (proposal_type ?p) (payload_fields (proposal_payload ?p))))"
    using assms(3-6) by (simp_all add: machine_refusal_None)
  from floor have auto: "autoAccept (DEFAULT_ACCEPTANCE_RULES (proposal_type ?p))"
    and theta: "thetaAuto (DEFAULT_ACCEPTANCE_RULES (proposal_type ?p)) \<le> confidence ?p"
    by (auto simp: MODEL_ACCEPTANCE_FLOOR_def autoAcceptable_def split: if_splits)
  have ty: "proposal_type ?p = Claim \<or> proposal_type ?p = OpenQuestion"
    using acceptable_types [OF default_rule_ok auto] .
  have win: "window_has_content U ms" using rec by (auto simp: acceptanceReceiptRefusal_def split: if_splits)
  from receipt_gate_open [OF assms(2,6) ty assms(7) win assms(1)] rec
  have "validateProposalProvenance U RECEIPT_POLICY (proposal_subject ?p) (the ms) = []"
    by (simp add: problems_clean_iff)
  moreover have "thetaMin (DEFAULT_ACCEPTANCE_RULES (proposal_type ?p)) \<le> thetaAuto (DEFAULT_ACCEPTANCE_RULES (proposal_type ?p))"
    using default_rule_ok by (simp add: rule_ok_def)
  ultimately show ?engine
    using win auto theta cert assms(1)
    by (simp add: auto_accept_conditions context_problems_window config_rule_def rejectingProblems_def referringProblems_def)
qed

theorem engine_is_the_machine_gate_witness:
  "verdict (decideAcceptance ascii sample_proposal
     \<lparr>context_config = None, context_messages = None, acceptedObjects = None\<rparr>) = AutoAccept \<longleftrightarrow>
   machine_refusal ascii staged_reading_state reading_object (Model (asc ''m'')) None = None"
proof -
  have "cited_proposal staged_reading_state reading_object = Some staged_reading"
    by (simp add: cited_proposal_def staged_reading_state_def reading_object_def get_def)
  moreover have "payload_ok reading" by code_simp
  ultimately show ?thesis
    using engine_is_the_machine_gate [of staged_reading reading_object "asc ''p1''" staged_reading_state "Model (asc ''m'')" ascii None]
    by (simp add: staged_reading_def reading_object_def sample_proposal_def sample_object_def)
qed

section \<open>What a decision says\<close>

lemma borne_equal: "borne (alignTokens P qs ss) \<Longrightarrow> qs = ss"
  using alignTokens_verdict(1) [of P qs ss] by (auto simp: alignTokens_def declined_def Let_def split: if_splits prod.splits)

lemma known_citations:
  assumes "referringProblems (validateProposalProvenance U P s ms) = []" and "i \<in> set (subject_provenance s)"
  shows "\<exists>m \<in> set ms. message_id m = i"
proof (rule ccontr)
  assume "\<not> ?thesis"
  then have none: "message_by_id ms i = None" by (auto simp: message_by_id_def find_None_iff)
  from assms(2) have "subject_provenance s \<noteq> []" by auto
  with none assms(2) have "(UnknownMessage, Refer, Some i) \<in> set (provenance_findings U P s ms)"
    by (auto simp: provenance_findings_def finding_if_def Let_def)
  then have "\<exists>q \<in> set (validateProposalProvenance U P s ms). severity q = Refer"
    by (force simp: validateProposalProvenance_def Let_def)
  with assms(1) show False by (auto simp: referringProblems_def filter_empty_conv)
qed

lemma human_decision_facts [simp]:
  "verdict (human_decision p u n b) = Pending" "visibility (human_decision p u n b) = NeedsYou"
  "rule (human_decision p u n b) = HumanProposer" "decision_about (human_decision p u n b) = decision_about b"
  "duplicateOf (human_decision p u n b) = duplicateOf b"
  by (simp_all add: human_decision_def Let_def)

lemma threshold_decision_facts [simp]:
  "decision_about (threshold_decision U p r n b) = decision_about b"
  "duplicateOf (threshold_decision U p r n b) = duplicateOf b"
  "rule (threshold_decision U p r n b) \<notin> {MissingMessageContext, ProvenanceFailed, ReceiptNotCertifiableRule, DuplicateOfAccepted}"
  by (simp_all add: threshold_decision_def)

text \<open>
  A window that missed a citation settles nothing about the reading.  Whenever the engine was
  given messages and its verdict is not one of the three receipt rules, every message the proposal cites
  was in the window, and the decision is about the reading.
\<close>

theorem verdict_past_receipt_saw_every_citation:
  assumes "rule (decideAcceptance U p ctx) \<notin> {MissingMessageContext, ProvenanceFailed, ReceiptNotCertifiableRule}"
    and "context_messages ctx = Some (m # ms)" and "i \<in> set (cites p)"
  shows "(\<exists>m' \<in> set (m # ms). message_id m' = i) \<and> decision_about (decideAcceptance U p ctx) = TheReading"
proof
  from assms(1) have "referringProblems (context_problems U p ctx) = []"
    by (auto simp: decideAcceptance_def Let_def split: if_splits)
  with assms(2,3) show "\<exists>m' \<in> set (m # ms). message_id m' = i"
    by (intro known_citations [of U RECEIPT_POLICY "proposal_subject p"]) (simp_all add: context_problems_def proposal_subject_def Let_def)
  from assms(1) show "decision_about (decideAcceptance U p ctx) = TheReading"
    by (auto simp: decideAcceptance_def base_decision_def Let_def split: if_splits option.splits proposer.splits)
qed

theorem verdict_past_receipt_saw_every_citation_witness:
  "(\<exists>m' \<in> set sample_window. message_id m' = asc ''m1'') \<and>
    decision_about (decideAcceptance ascii sample_proposal sample_context) = TheReading"
proof -
  have "rule (decideAcceptance ascii sample_proposal sample_context) = AutoAcceptRule" by code_simp
  moreover obtain m ms where "sample_window = m # ms" by (simp add: sample_window_def)
  ultimately show ?thesis
    using verdict_past_receipt_saw_every_citation [of ascii sample_proposal sample_context m ms "asc ''m1''"]
    by (simp add: sample_context_def sample_proposal_def)
qed

text \<open>
  A decision is consistent with itself and with its rule: what is accepted, hidden or shown
  follows the verdict; somebody is awaited only on a commitment that names a third party, and it is the
  person it names; an object is named as duplicated exactly by the duplicate rule; and a person's own
  proposal is never accepted for them.
\<close>

theorem decision_consistent:
  "let d = decideAcceptance U p ctx in
    (verdict d = AutoAccept \<longleftrightarrow> visibility d = VisibleAccepted) \<and>
    (verdict d = Discard \<longleftrightarrow> visibility d = Hidden) \<and>
    (verdict d = AutoAccept \<longleftrightarrow> rule d = AutoAcceptRule) \<and>
    (duplicateOf d = None \<longleftrightarrow> rule d \<noteq> DuplicateOfAccepted) \<and>
    (awaitingConfirmFrom d = None \<or>
       visibility d = NeedsYou \<and> attribution d = Some ThirdParty \<and> proposal_type p = Commitment \<and>
       awaitingConfirmFrom d = payloadAttributedTo Commitment (payload_fields (proposal_payload p))) \<and>
    (proposerIsMachine (proposer p) \<or> verdict d \<noteq> AutoAccept)"
  by (cases "proposer p")
     (auto simp: decideAcceptance_def base_decision_def human_decision_def threshold_decision_def Let_def split: option.splits)

theorem decision_consistent_witness:
  "verdict (decideAcceptance ascii sample_proposal sample_context) = AutoAccept \<and>
   awaitingConfirmFrom (decideAcceptance ascii sample_proposal sample_context) = None \<and>
   duplicateOf (decideAcceptance ascii sample_proposal sample_context) = None"
proof -
  have "verdict (decideAcceptance ascii sample_proposal sample_context) = AutoAccept" by code_simp
  with decision_consistent [of ascii sample_proposal sample_context] show ?thesis by (auto simp: Let_def)
qed

text \<open>
  A duplicate says the same thing.  When the engine finds a duplicate, that object is one of those
  given, stands unretracted and unsuperseded, has the proposal's type, shares a cited message, has the
  same text after receipt normalisation, and agrees on every other field.
\<close>

theorem duplicate_says_the_same:
  assumes "findDuplicate U ty fs ids refs = Some c"
  shows "c \<in> set refs \<and> payload_type (ref_payload c) = ty \<and> ref_retractedAt c = None \<and> ref_supersededById c = None \<and>
    set (ref_messageIds c) \<inter> set ids \<noteq> {} \<and>
    normalizeForReceipt (payloadText ty (payload_fields (ref_payload c))) = normalizeForReceipt (payloadText ty fs) \<and>
    payloadsMatch ty (payload_fields (ref_payload c)) fs"
proof -
  from assms have c: "c \<in> set refs" "is_duplicate U ty fs ids c"
    by (auto simp: findDuplicate_def find_Some_iff split: if_splits)
  then have b: "borne (alignTokens RECEIPT_POLICY (orderedTokens U (payloadText ty (payload_fields (ref_payload c))))
      (orderedTokens U (payloadText ty fs)))" by (simp add: is_duplicate_def Let_def)
  then have "orderedTokens U (payloadText ty (payload_fields (ref_payload c))) = orderedTokens U (payloadText ty fs)"
    by (rule borne_equal)
  then show ?thesis using c by (auto simp: is_duplicate_def list_ex_iff orderedTokens_eq_iff)
qed

definition sample_ref :: accepted_ref where
  "sample_ref = \<lparr>ref_objectId = asc ''q1'', ref_payload = reading, ref_messageIds = [asc ''m1''],
     ref_retractedAt = None, ref_supersededById = None\<rparr>"

theorem duplicate_says_the_same_witness:
  "payloadsMatch OpenQuestion (payload_fields (ref_payload sample_ref)) (payload_fields reading)"
proof -
  have "findDuplicate ascii OpenQuestion (payload_fields reading) [asc ''m1''] [sample_ref] = Some sample_ref"
    by code_simp
  from duplicate_says_the_same [OF this] show ?thesis by simp
qed

end
