(* ===== verification/Binding.thy ===== *)
theory Binding
  imports Acceptance Reduce_Fold Samples
begin

text \<open>
  Answer binding against the reducer: when \<open>applyAnswerBinding\<close> succeeds, and what it leaves behind.
\<close>

section \<open>One event that must apply\<close>

definition accept_event :: "answer_command \<Rightarrow> core_event" where
  "accept_event c = ObjectAccepted (acceptEventId c) (command_at c) (answer_object c)"

definition relate_event :: "answer_command \<Rightarrow> core_event" where
  "relate_event c = RelationAdded (relationEventId c) (command_at c) (answer_relation c)"

lemma authored_simps [simp]:
  "event (authored e c) = e" "actor (authored e c) = actor c" "messages (authored e c) = messages c"
  by (simp_all add: authored_def trusted_context.defs)

lemma answer_fields [simp]:
  "object_id (answer_object c) = answer_objectId c" "object_roomId (answer_object c) = command_roomId c"
  "proposalId (object_provenance (answer_object c)) = None"
  "relation_roomId (answer_relation c) = command_roomId c" "relation_kind (answer_relation c) = Answers"
  "relation_to (answer_relation c) = ToObject (answer_objectId c)"
  "fromObjectId (answer_relation c) = questionObjectId c" "relation_id (answer_relation c) = command_relationId c"
  by (simp_all add: answer_object_def answer_relation_def)

lemma answerBindingEvents_eq:
  "answerBindingEvents c a = [authored (accept_event c) \<lparr>actor = a, messages = None\<rparr>,
     authored (relate_event c) \<lparr>actor = a, messages = None\<rparr>]"
  by (simp add: answerBindingEvents_def accept_event_def relate_event_def)

lemma event_rooms:
  "resolveRoomId s (accept_event c) = Some (command_roomId c)" "resolveRoomId s (relate_event c) = Some (command_roomId c)"
  by (simp_all add: accept_event_def relate_event_def)

lemma reads_back:
  "CoreEvent U (event_json (accept_event c)) = (if event_fits U (accept_event c) then Some (accept_event c) else None)"
  "CoreEvent U (event_json (relate_event c)) = (if event_fits U (relate_event c) then Some (relate_event c) else None)"
  unfolding accept_event_def relate_event_def
  using event_print event_print_read event_read by (metis option.exhaust)+

text \<open>An event with a handler that refuses in words applies exactly when it is not rejected and not refused.\<close>

lemma consume_handled:
  assumes "dispatch U s x = (case why of None \<Rightarrow> (s', True) | Some r \<Rightarrow> refuse s i r)" and "issues s' = issues s"
  shows "consume U s x = (case why of
      None \<Rightarrow> (record_consumed (event x) (resolveRoomId s (event x)) s', Applied (event x) (actor x))
    | Some r \<Rightarrow> (record_consumed (event x) (resolveRoomId s (event x)) (fail s i r),
        AppliedWithIssue (event x) (actor x) [(i, r)]))"
  using assms by (simp add: consume_def refuse_def fail_def record_consumed_def Let_def split: option.splits)

lemma append_accept:
  "appendEvent U s (event_json (accept_event c)) \<lparr>actor = a, messages = None\<rparr> = (s', Applied e b) \<longleftrightarrow>
     event_fits U (accept_event c) \<and> rejectionFor s (accept_event c) = None \<and>
     acceptance_refusal U s (answer_object c) a None = None \<and> e = accept_event c \<and> b = a \<and>
     s' = record_consumed (accept_event c) (Some (command_roomId c))
       (s\<lparr>objects := put (answer_objectId c) (accepted_record (command_at c) (answer_object c) a) (objects s)\<rparr>)"
proof -
  let ?x = "authored (accept_event c) \<lparr>actor = a, messages = None\<rparr>"
  let ?s = "s\<lparr>objects := put (answer_objectId c) (accepted_record (command_at c) (answer_object c) a) (objects s)\<rparr>"
  have "dispatch U s ?x = (case acceptance_refusal U s (answer_object c) a None of
      None \<Rightarrow> (?s, True) | Some r \<Rightarrow> refuse s (acceptEventId c) r)"
    by (simp add: dispatch_def accept_event_def applyObjectAccepted_def mark_accepted_def
        split: option.splits)
  note consume_handled [OF this]
  then show ?thesis
    by (auto simp: appendEvent_def reads_back append_authored_def event_rooms
        split: option.splits)
qed

lemma append_relate:
  "appendEvent U s (event_json (relate_event c)) \<lparr>actor = a, messages = None\<rparr> = (s', Applied e b) \<longleftrightarrow>
     event_fits U (relate_event c) \<and> rejectionFor s (relate_event c) = None \<and>
     relation_refusal s (answer_relation c) a = None \<and> e = relate_event c \<and> b = a \<and>
     s' = record_consumed (relate_event c) (Some (command_roomId c))
       (answers_effect (answer_relation c) (command_at c) (s\<lparr>relations := relations s @ [answer_relation c]\<rparr>))"
proof -
  let ?x = "authored (relate_event c) \<lparr>actor = a, messages = None\<rparr>"
  let ?s = "answers_effect (answer_relation c) (command_at c) (s\<lparr>relations := relations s @ [answer_relation c]\<rparr>)"
  have "dispatch U s ?x = (case relation_refusal s (answer_relation c) a of
      None \<Rightarrow> (?s, True) | Some r \<Rightarrow> refuse s (relationEventId c) r)"
    by (simp add: dispatch_def relate_event_def applyRelationAdded_def supersedes_effect_def
        split: option.splits)
  moreover have "issues ?s = issues s" by (auto simp: answers_effect_def split: option.splits payload.splits)
  ultimately show ?thesis using consume_handled
    by (auto simp: appendEvent_def reads_back append_authored_def event_rooms
        split: option.splits)
qed

section \<open>The gates of the two events\<close>

text \<open>What a person may give as an answer: nobody else's name, and no claim they verify themselves.\<close>

fun answer_in_own_name :: "jstr \<Rightarrow> answer_payload \<Rightarrow> bool" where
  "answer_in_own_name u (AnswerDecision s d st) \<longleftrightarrow> d = None \<or> d = Some u"
| "answer_in_own_name u (AnswerClaim s who v) \<longleftrightarrow> who = u \<and> v \<noteq> Verified"

lemma answer_acceptance:
  assumes "event_fits U (accept_event c)"
  shows "acceptance_refusal U s (answer_object c) (Human u) None = None \<longleftrightarrow>
    get (objects s) (answer_objectId c) = None \<and> answer_in_own_name u (answer_payload c) \<and>
    objective_refusal s (answer_object c) = None"
proof -
  have "person_refusal s (answer_object c) (Human u) = None \<longleftrightarrow> answer_in_own_name u (answer_payload c)"
    using assms
    by (cases "answer_payload c")
       (auto simp: person_refusal_def cited_proposal_def answer_object_def accept_event_def object_ok_def
         selfStagedReadingRefusal_def selfVerificationRefusal_def Let_def
         dest: Id_nonempty split: option.splits list.splits if_splits)
  then show ?thesis
    by (auto simp: acceptance_refusal_def acceptance_floor_refusal_def citation_refusal_def machine_refusal_def
        cited_proposal_def answer_object_def refuse_if_def split: option.splits if_splits)
qed

lemma answer_type: "object_type (answer_object c) = Decision \<or> object_type (answer_object c) = Claim"
  by (cases "answer_payload c") (simp_all add: object_type_def answer_object_def)

text \<open>The state between the two events.\<close>

definition accepted_state :: "core_state \<Rightarrow> answer_command \<Rightarrow> actor \<Rightarrow> core_state" where
  "accepted_state s c a = record_consumed (accept_event c) (Some (command_roomId c))
     (s\<lparr>objects := put (answer_objectId c) (accepted_record (command_at c) (answer_object c) a) (objects s)\<rparr>)"

lemma accepted_state_fields [simp]:
  "objects (accepted_state s c a) = put (answer_objectId c) (accepted_record (command_at c) (answer_object c) a) (objects s)"
  "relations (accepted_state s c a) = relations s" "proposals (accepted_state s c a) = proposals s"
  "corrections (accepted_state s c a) = corrections s" "issues (accepted_state s c a) = issues s"
  "consumedEventIds (accepted_state s c a) = consumedEventIds s @ [acceptEventId c]"
  "cursor (accepted_state s c a) = Some \<lparr>cursor_at = command_at c, cursor_id = acceptEventId c\<rparr>"
  by (simp_all add: accepted_state_def record_consumed_def cursorOf_def accept_event_def)

lemma compareCursor_nonneg: "0 \<le> compareCursor x y \<longleftrightarrow> cursor_key y \<le> cursor_key x"
  by (metis compareCursor_key(1) not_less)

lemma binding_refusal_None:
  "answerBindingRefusal s c a = None \<longleftrightarrow> isHuman a \<and> (\<exists>q t. get (objects s) (questionObjectId c) = Some q \<and>
     object_payload (object q) = OpenQuestionPayload t QuestionOpen \<and> retractedAt q = None \<and>
     object_roomId (object q) = command_roomId c) \<and> get (objects s) (answer_objectId c) = None \<and>
     cursor_key \<lparr>cursor_at = command_at c, cursor_id = acceptEventId c\<rparr> <
       cursor_key \<lparr>cursor_at = command_at c, cursor_id = relationEventId c\<rparr>"
  by (auto simp: answerBindingRefusal_def object_type_def compareCursor_nonneg
      split: option.splits elim: question_is_open.elims payload_type.elims)

lemma relation_follows:
  assumes "answerBindingRefusal s c a = None"
  shows "relation_refusal (accepted_state s c a) (answer_relation c) a = None \<longleftrightarrow>
    \<not> list_ex (\<lambda>r. relation_id r = command_relationId c) (relations s)"
proof -
  from assms obtain q t where q: "isHuman a" "get (objects s) (questionObjectId c) = Some q"
      "object_payload (object q) = OpenQuestionPayload t QuestionOpen" "retractedAt q = None"
      "object_roomId (object q) = command_roomId c" "get (objects s) (answer_objectId c) = None"
    by (auto simp: binding_refusal_None)
  then have "questionObjectId c \<noteq> answer_objectId c" by auto
  with q show ?thesis
    using answer_type [of c]
    by (auto simp: relation_refusal_def endpoint_refusal_def answers_refusal_def supersedes_refusal_def
        relation_target_record_def relationShapeError_def refuse_if_def object_type_def accepted_record_def list_ex_iff)
qed

lemma relation_in_order:
  assumes "answerBindingRefusal s c a = None"
  shows "rejectionFor (accepted_state s c a) (relate_event c) = None \<longleftrightarrow> relationEventId c \<notin> set (consumedEventIds s)"
  using assms
  by (auto simp: rejectionFor_def binding_refusal_None compareCursor_key cursorOf_def relate_event_def Let_def)

text \<open>The state a binding leaves.\<close>

definition answered_state :: "core_state \<Rightarrow> answer_command \<Rightarrow> actor \<Rightarrow> core_state" where
  "answered_state s c a = record_consumed (relate_event c) (Some (command_roomId c))
     (answers_effect (answer_relation c) (command_at c)
       ((accepted_state s c a)\<lparr>relations := relations s @ [answer_relation c]\<rparr>))"

definition binding_conditions :: "unicode \<Rightarrow> core_state \<Rightarrow> answer_command \<Rightarrow> actor \<Rightarrow> bool" where
  "binding_conditions U s c a \<longleftrightarrow> answerBindingRefusal s c a = None \<and>
     event_fits U (accept_event c) \<and> event_fits U (relate_event c) \<and>
     rejectionFor s (accept_event c) = None \<and> relationEventId c \<notin> set (consumedEventIds s) \<and>
     \<not> list_ex (\<lambda>r. relation_id r = command_relationId c) (relations s) \<and>
     answer_in_own_name (the (actorUserId a)) (answer_payload c) \<and> objective_refusal s (answer_object c) = None"

lemma apply_all_binding:
  assumes "answerBindingRefusal s c a = None"
  shows "apply_all U s (answerBindingEvents c a) = Inr s' \<longleftrightarrow> binding_conditions U s c a \<and> s' = answered_state s c a"
proof -
  have one: "apply_all U s (x # xs) = Inr s' \<longleftrightarrow>
      (\<exists>s1 e b. appendEvent U s (event_json (event x)) \<lparr>actor = actor x, messages = None\<rparr> = (s1, Applied e b) \<and>
        apply_all U s1 xs = Inr s')" for x xs s
    by (auto split: prod.splits event_outcome.splits)
  from assms obtain u where a: "a = Human u" by (cases a) (auto simp: binding_refusal_None)
  show ?thesis
    using relation_follows [OF assms] relation_in_order [OF assms] assms answer_acceptance [of U c s u]
    unfolding answerBindingEvents_eq one apply_all.simps(1)
    by (auto simp: append_accept append_relate accepted_state_def [symmetric] answered_state_def binding_conditions_def a
        binding_refusal_None)
qed

lemma applyAnswerBinding_iff:
  "applyAnswerBinding U s c a = Inr (s', evs) \<longleftrightarrow>
     binding_conditions U s c a \<and> s' = answered_state s c a \<and> evs = answerBindingEvents c a"
  using apply_all_binding [of s c a U]
  by (auto simp: applyAnswerBinding_def bindAnswer_def binding_conditions_def split: option.splits sum.splits)

lemma answered_state_fields:
  assumes "answerBindingRefusal s c a = None"
  obtains q t where "get (objects s) (questionObjectId c) = Some q" "object_payload (object q) = OpenQuestionPayload t QuestionOpen"
    "objects (answered_state s c a) = put (questionObjectId c)
       (q\<lparr>object := (object q)\<lparr>object_payload := OpenQuestionPayload t Answered, object_updatedAt := command_at c\<rparr>,
          record_updatedAt := command_at c\<rparr>)
       (put (answer_objectId c) (accepted_record (command_at c) (answer_object c) a) (objects s))"
    "relations (answered_state s c a) = relations s @ [answer_relation c]" "proposals (answered_state s c a) = proposals s"
    "corrections (answered_state s c a) = corrections s" "issues (answered_state s c a) = issues s"
    "consumedEventIds (answered_state s c a) = consumedEventIds s @ [acceptEventId c, relationEventId c]"
proof -
  from assms obtain q t where q: "get (objects s) (questionObjectId c) = Some q"
      "object_payload (object q) = OpenQuestionPayload t QuestionOpen" "get (objects s) (answer_objectId c) = None"
    by (auto simp: binding_refusal_None)
  then have "questionObjectId c \<noteq> answer_objectId c" by auto
  with q show thesis
    by (intro that [of q t]) (simp_all add: answered_state_def answers_effect_def record_consumed_def relate_event_def)
qed

section \<open>Properties\<close>

text \<open>
  C23. An answer is bound exactly when it should be.  \<open>applyAnswerBinding\<close> succeeds if and only if the
  upfront check passes, both events are well formed, the acceptance sorts after everything consumed, both
  event ids and the relation id are unused, the objective (if any) is one of the room, and the answer is
  given in the person's own name: no decision attributed to, no claim made by somebody else, and no claim
  marked verified by the one who makes it.
\<close>

theorem answer_bound_iff:
  "(\<exists>s' evs. applyAnswerBinding U s c a = Inr (s', evs)) \<longleftrightarrow>
     answerBindingRefusal s c a = None \<and> event_fits U (accept_event c) \<and> event_fits U (relate_event c) \<and>
     rejectionFor s (accept_event c) = None \<and> relationEventId c \<notin> set (consumedEventIds s) \<and>
     \<not> list_ex (\<lambda>r. relation_id r = command_relationId c) (relations s) \<and>
     answer_in_own_name (the (actorUserId a)) (answer_payload c) \<and> objective_refusal s (answer_object c) = None"
  by (simp add: applyAnswerBinding_iff binding_conditions_def)

text \<open>
  An answer is bound in one piece.  When the binding succeeds, the question was open and is now
  answered with its text unchanged, the answer stands as the person's own object, the edge joins the two,
  and nothing else of the record moved: no other object, no proposal, no correction, no issue, and
  exactly the two events are spent.
\<close>

theorem answer_bound_whole:
  assumes "applyAnswerBinding U s c a = Inr (s', evs)"
  shows "isHuman a \<and> evs = answerBindingEvents c a \<and>
    (\<exists>q t. get (objects s) (questionObjectId c) = Some q \<and>
       object_payload (object q) = OpenQuestionPayload t QuestionOpen \<and>
       objects s' = put (questionObjectId c)
         (q\<lparr>object := (object q)\<lparr>object_payload := OpenQuestionPayload t Answered, object_updatedAt := command_at c\<rparr>,
            record_updatedAt := command_at c\<rparr>)
         (put (answer_objectId c) (accepted_record (command_at c) (answer_object c) a) (objects s))) \<and>
    relations s' = relations s @ [answer_relation c] \<and> proposals s' = proposals s \<and>
    corrections s' = corrections s \<and> issues s' = issues s \<and>
    consumedEventIds s' = consumedEventIds s @ [acceptEventId c, relationEventId c]"
proof -
  from assms have s': "s' = answered_state s c a" "evs = answerBindingEvents c a" and ok: "answerBindingRefusal s c a = None"
    by (simp_all add: applyAnswerBinding_iff binding_conditions_def)
  from ok have "isHuman a" by (simp add: binding_refusal_None)
  with answered_state_fields [OF ok] s' show ?thesis by metis
qed

definition sample_answer :: answer_command where
  "sample_answer = \<lparr>command_at = sample_time ''30'', command_roomId = asc ''room'', questionObjectId = asc ''q1'',
     answer_objectId = asc ''a1'', answer_payload = AnswerDecision (asc ''the small one'') (Some (asc ''ann'')) Active,
     command_messageIds = [asc ''m7''], acceptEventId = asc ''x1'', relationEventId = asc ''x2'',
     command_relationId = asc ''r1'', command_objectiveId = None\<rparr>"

definition question_state :: core_state where
  "question_state = fst (appendEvent ascii emptyState
     (fst (accept_row ''bob'' ''07'' ''q1'' (OpenQuestionPayload (asc ''which one?'') QuestionOpen))) (by_human ''bob''))"

theorem answer_bound_whole_witness:
  "relations (fst (projr (applyAnswerBinding ascii question_state sample_answer (Human (asc ''ann'')))))
     = relations question_state @ [answer_relation sample_answer]"
proof -
  have "\<not> isl (applyAnswerBinding ascii question_state sample_answer (Human (asc ''ann'')))" by code_simp
  then obtain s' evs where "applyAnswerBinding ascii question_state sample_answer (Human (asc ''ann'')) = Inr (s', evs)"
    by (cases "applyAnswerBinding ascii question_state sample_answer (Human (asc ''ann''))") auto
  from this answer_bound_whole [OF this] show ?thesis by simp
qed

end
