(* ===== verification/Attention.thy ===== *)
theory Attention
  imports Acceptance
begin

text \<open>
  \<open>attention.ts\<close>: the projection that says what the room owes whom, its reconciliation with the stored
  panel, and the counts since a person's last visit.  A rationale is kept as the data the source stores;
  the sentence rendered from it is left out.  A refusal carries what its message interpolates.
\<close>

section \<open>Items\<close>

datatype attention_class = NeedsDecision | OwnedCommitment | MentionClass | BlockingQuestion

datatype attention_status = ItemPending | Resolved | Dismissed

datatype subject_kind = OfObject | OfProposal | OfMessage | OfSession

datatype rationale_reason =
    DecisionPending jstr bool
  | CommitmentOverdue jstr jstr jstr
  | CommitmentStillOpen jstr "jstr option"
  | CommitmentConfirm jstr
  | CommitmentSelfStated jstr
  | QuestionBlocksCommitment jstr jstr
  | QuestionBlocksObjective jstr jstr
  | QuestionNamesYou jstr
  | MentionReason jstr
  | SubscriptionExpired jstr jstr jstr
  | ReadingPending jstr accepted_type
  | ReceiptReview jstr accepted_type

record attention_item =
  item_id :: jstr
  item_roomId :: jstr
  item_userId :: jstr
  item_objectId :: jstr
  item_subjectKind :: subject_kind
  item_class :: attention_class
  item_reason :: rationale_reason
  item_status :: attention_status
  item_createdAt :: jstr

record computed_item = attention_item +
  priority :: nat

fun class_name :: "attention_class \<Rightarrow> string" where
  "class_name NeedsDecision = ''needs_decision''"
| "class_name OwnedCommitment = ''owned_commitment''"
| "class_name MentionClass = ''mention''"
| "class_name BlockingQuestion = ''blocking_question''"

fun kind_of_subject :: "subject_kind \<Rightarrow> string" where
  "kind_of_subject OfObject = ''object''"
| "kind_of_subject OfProposal = ''proposal''"
| "kind_of_subject OfMessage = ''message''"
| "kind_of_subject OfSession = ''session''"

section \<open>Priority\<close>

definition prio_needs_decision :: nat where "prio_needs_decision = 0"

definition prio_commitment_overdue :: nat where "prio_commitment_overdue = 1"

definition prio_blocking_question :: nat where "prio_blocking_question = 2"

definition prio_commitment_confirm :: nat where "prio_commitment_confirm = 3"

definition prio_commitment_open :: nat where "prio_commitment_open = 4"

definition prio_mention :: nat where "prio_mention = 5"

fun fallbackPriority :: "attention_class \<Rightarrow> nat" where
  "fallbackPriority NeedsDecision = prio_needs_decision"
| "fallbackPriority OwnedCommitment = prio_commitment_open"
| "fallbackPriority BlockingQuestion = prio_blocking_question"
| "fallbackPriority MentionClass = prio_mention"

definition attention_key :: "computed_item \<Rightarrow> nat \<times> jstr \<times> jstr \<times> jstr" where
  "attention_key i = (priority i, item_createdAt i, item_userId i, item_id i)"

definition sortAttention :: "computed_item list \<Rightarrow> computed_item list" where
  "sortAttention items = sort_key attention_key items"

section \<open>Identifiers\<close>

definition escapeIdPart :: "jstr \<Rightarrow> jstr" where
  "escapeIdPart v = concat (map (\<lambda>c. if c = 58 then asc ''%3A'' else [c])
     (concat (map (\<lambda>c. if c = 37 then asc ''%25'' else [c]) v)))"

definition attentionItemId :: "jstr \<Rightarrow> subject_kind \<Rightarrow> jstr \<Rightarrow> jstr \<Rightarrow> jstr" where
  "attentionItemId userId kind subjectId cls = asc ''attn:'' @ escapeIdPart userId @ [58] @
     asc (kind_of_subject kind) @ [58] @ escapeIdPart subjectId @ [58] @ cls"

section \<open>Producers and examinations\<close>

datatype attention_producer =
    StagedProposal | OpenCommitmentProducer | BlockingRelation | NamedQuestion | MentionSignalProducer
  | SubscriptionSignal | Unrecognised

fun PRODUCER_OF :: "rationale_reason \<Rightarrow> attention_producer" where
  "PRODUCER_OF (DecisionPending _ _) = StagedProposal"
| "PRODUCER_OF (CommitmentConfirm _) = StagedProposal"
| "PRODUCER_OF (CommitmentSelfStated _) = StagedProposal"
| "PRODUCER_OF (ReadingPending _ _) = StagedProposal"
| "PRODUCER_OF (ReceiptReview _ _) = StagedProposal"
| "PRODUCER_OF (CommitmentOverdue _ _ _) = OpenCommitmentProducer"
| "PRODUCER_OF (CommitmentStillOpen _ _) = OpenCommitmentProducer"
| "PRODUCER_OF (QuestionBlocksCommitment _ _) = BlockingRelation"
| "PRODUCER_OF (QuestionBlocksObjective _ _) = BlockingRelation"
| "PRODUCER_OF (QuestionNamesYou _) = NamedQuestion"
| "PRODUCER_OF (MentionReason _) = MentionSignalProducer"
| "PRODUCER_OF (SubscriptionExpired _ _ _) = SubscriptionSignal"

fun producerOf :: "rationale_reason option \<Rightarrow> attention_producer" where
  "producerOf None = Unrecognised"
| "producerOf (Some r) = PRODUCER_OF r"

fun producer_name :: "attention_producer \<Rightarrow> string" where
  "producer_name StagedProposal = ''staged_proposal''"
| "producer_name OpenCommitmentProducer = ''open_commitment''"
| "producer_name BlockingRelation = ''blocking_relation''"
| "producer_name NamedQuestion = ''named_question''"
| "producer_name MentionSignalProducer = ''mention_signal''"
| "producer_name SubscriptionSignal = ''subscription_signal''"
| "producer_name Unrecognised = ''unrecognised''"

record examined_subject =
  examined_class :: attention_class
  examined_kind :: subject_kind
  examined_id :: jstr
  examined_producer :: attention_producer

definition examinedKey :: "examined_subject \<Rightarrow> jstr" where
  "examinedKey e = asc (class_name (examined_class e)) @ [58] @ asc (kind_of_subject (examined_kind e)) @ [58] @
     escapeIdPart (examined_id e) @ [58] @ asc (producer_name (examined_producer e))"

section \<open>Inputs and outputs\<close>

record mention_signal =
  mention_roomId :: jstr
  mention_subjectKind :: "subject_kind option"
  mention_objectId :: jstr
  mention_userId :: jstr
  request :: jstr

record question_mention =
  named_questionId :: jstr
  named_userId :: jstr

text \<open>An absent roster or signal list reads as an empty one.\<close>

record attention_context =
  now :: jstr
  members :: "jstr list store"
  attention_messages :: "provenance_message list option"
  attention_config :: "(accepted_type \<Rightarrow> acceptance_rule) option"
  mentions :: "mention_signal list"
  questionMentions :: "question_mention list"

definition bare_context :: "jstr \<Rightarrow> attention_context" where
  "bare_context t = \<lparr>now = t, members = [], attention_messages = None, attention_config = None,
     mentions = [], questionMentions = []\<rparr>"

datatype nobody =
    ReviewHasNoText accepted_type
  | NoReviewRoster accepted_type jstr jstr
  | UnassignedWithoutRoster jstr jstr
  | NoOwnerNamed jstr
  | ReadingHasNoText accepted_type
  | NoReadingRoster accepted_type jstr jstr

datatype silence =
    NoMessageWindow
  | VerdictAboutTheWindow rule_name
  | ReceiptDeclined
  | ReceiptDeclinedNobody nobody
  | NobodyToAsk nobody

record attention_refusal =
  refused_proposalId :: jstr
  refused_reason :: silence

record attention_projection =
  projected_items :: "computed_item list"
  refusals :: "attention_refusal list"
  examined :: "examined_subject list"

definition nothing_owed :: attention_projection where
  "nothing_owed = \<lparr>projected_items = [], refusals = [], examined = []\<rparr>"

definition join_sources :: "attention_projection list \<Rightarrow> attention_projection" where
  "join_sources ss = \<lparr>projected_items = concat (map projected_items ss), refusals = concat (map refusals ss),
     examined = concat (map examined ss)\<rparr>"

text \<open>A live object: accepted, not retracted, not superseded.\<close>

definition isLive :: "object_record option \<Rightarrow> bool" where
  "isLive r = (case r of None \<Rightarrow> False | Some x \<Rightarrow> retractedAt x = None \<and> supersededById x = None)"

definition roster :: "attention_context \<Rightarrow> jstr \<Rightarrow> jstr list" where
  "roster ctx room = sort (case get (members ctx) room of None \<Rightarrow> [] | Some us \<Rightarrow> us)"

section \<open>Proposals\<close>

datatype needs_you_outcome =
    Raise computed_item "computed_item list"
  | RefuseToRaise nobody

fun raiseOrRefuse :: "computed_item list \<Rightarrow> nobody \<Rightarrow> needs_you_outcome" where
  "raiseOrRefuse [] why = RefuseToRaise why"
| "raiseOrRefuse (i # is) why = Raise i is"

definition proposal_item ::
  "attention_context \<Rightarrow> ('a) stored_proposal_scheme \<Rightarrow> attention_class \<Rightarrow> nat \<Rightarrow> rationale_reason \<Rightarrow> jstr \<Rightarrow> computed_item" where
  "proposal_item ctx p cls prio why u = \<lparr>item_id = attentionItemId u OfProposal (proposal_id p) (asc (class_name cls)),
     item_roomId = proposal_roomId p, item_userId = u, item_objectId = proposal_id p, item_subjectKind = OfProposal,
     item_class = cls, item_reason = why, item_status = ItemPending, item_createdAt = now ctx, priority = prio\<rparr>"

definition readingReviewOutcome :: "('a) stored_proposal_scheme \<Rightarrow> attention_context \<Rightarrow> needs_you_outcome" where
  "readingReviewOutcome p ctx =
     (let ty = proposal_type p; st = payloadText ty (payload_fields (proposal_payload p)) in
      if st = [] then RefuseToRaise (ReviewHasNoText ty)
      else raiseOrRefuse
        (map (proposal_item ctx p NeedsDecision prio_needs_decision (ReceiptReview st ty)) (roster ctx (proposal_roomId p)))
        (NoReviewRoster ty (proposal_roomId p) st))"

definition needsYouOutcome ::
  "unicode \<Rightarrow> ('a) stored_proposal_scheme \<Rightarrow> acceptance_decision \<Rightarrow> attention_context \<Rightarrow> needs_you_outcome" where
  "needsYouOutcome U p d ctx =
     (let room = roster ctx (proposal_roomId p) in
      case proposal_payload p of
        DecisionPayload st decidedBy ds \<Rightarrow>
          raiseOrRefuse (map (proposal_item ctx p NeedsDecision prio_needs_decision (DecisionPending st (decidedBy \<noteq> None)))
              (case decidedBy of Some u \<Rightarrow> [u] | None \<Rightarrow> room))
            (UnassignedWithoutRoster (proposal_roomId p) st)
      | CommitmentPayload st own due cs \<Rightarrow>
          (let u = (case awaitingConfirmFrom d of Some w \<Rightarrow> w | None \<Rightarrow> own);
               why = (if awaitingConfirmFrom d \<noteq> None then CommitmentConfirm st else CommitmentSelfStated st) in
           raiseOrRefuse (if hasContent U (Some u)
               then [proposal_item ctx p OwnedCommitment prio_commitment_confirm why u] else [])
             (NoOwnerNamed st))
      | pl \<Rightarrow>
          (let ty = proposal_type p; st = payloadText ty (payload_fields pl) in
           if st = [] then RefuseToRaise (ReadingHasNoText ty)
           else raiseOrRefuse (map (proposal_item ctx p NeedsDecision prio_needs_decision (ReadingPending st ty)) room)
             (NoReadingRoster ty (proposal_roomId p) st)))"

definition proposal_class :: "accepted_type \<Rightarrow> attention_class" where
  "proposal_class ty = (if ty = Commitment then OwnedCommitment else NeedsDecision)"

definition staged_examination :: "('a) stored_proposal_scheme \<Rightarrow> attention_class \<Rightarrow> examined_subject" where
  "staged_examination p cls = \<lparr>examined_class = cls, examined_kind = OfProposal, examined_id = proposal_id p,
     examined_producer = StagedProposal\<rparr>"

definition conclude :: "('a) stored_proposal_scheme \<Rightarrow> examined_subject list" where
  "conclude p = [staged_examination p (proposal_class (proposal_type p))]"

definition concludeReview :: "('a) stored_proposal_scheme \<Rightarrow> examined_subject list" where
  "concludeReview p = (if proposal_class (proposal_type p) = NeedsDecision then [] else [staged_examination p NeedsDecision])"

definition engine_context :: "attention_context \<Rightarrow> acceptance_context" where
  "engine_context ctx = \<lparr>context_config = attention_config ctx, context_messages = attention_messages ctx,
     acceptedObjects = None\<rparr>"

text \<open>What one staged proposal contributes: the body of the loop in \<open>proposalItems\<close>.\<close>

definition proposal_source :: "unicode \<Rightarrow> attention_context \<Rightarrow> proposal_record \<Rightarrow> attention_projection" where
  "proposal_source U ctx r =
     (let p = proposal r; refused = (\<lambda>why. \<lparr>refused_proposalId = proposal_id p, refused_reason = why\<rparr>) in
      if status r \<noteq> Proposed then nothing_owed\<lparr>examined := conclude p @ concludeReview p\<rparr>
      else let d = decideAcceptance U p (engine_context ctx) in
      if rule d = MissingMessageContext then nothing_owed\<lparr>refusals := [refused NoMessageWindow]\<rparr>
      else if decision_about d = TheWindow then nothing_owed\<lparr>refusals := [refused (VerdictAboutTheWindow (rule d))]\<rparr>
      else if rule d = ReceiptNotCertifiableRule then
        (case readingReviewOutcome p ctx of
           Raise i is \<Rightarrow> \<lparr>projected_items = i # is, refusals = [refused ReceiptDeclined],
             examined = conclude p @ concludeReview p\<rparr>
         | RefuseToRaise why \<Rightarrow> nothing_owed\<lparr>refusals := [refused (ReceiptDeclinedNobody why)]\<rparr>)
      else if visibility d \<noteq> NeedsYou then nothing_owed\<lparr>examined := conclude p\<rparr>
      else (case needsYouOutcome U p d ctx of
          RefuseToRaise why \<Rightarrow> nothing_owed\<lparr>refusals := [refused (NobodyToAsk why)]\<rparr>
        | Raise i is \<Rightarrow> \<lparr>projected_items = i # is, refusals = [], examined = conclude p @ concludeReview p\<rparr>))"

definition proposalItems :: "unicode \<Rightarrow> core_state \<Rightarrow> attention_context \<Rightarrow> attention_projection" where
  "proposalItems U s ctx = join_sources (map (\<lambda>pid. case get (proposals s) pid of
     None \<Rightarrow> nothing_owed | Some r \<Rightarrow> proposal_source U ctx r) (sort (keys (proposals s))))"

section \<open>Commitments\<close>

definition commitment_item :: "attention_context \<Rightarrow> object_record \<Rightarrow> computed_item list" where
  "commitment_item ctx r = (case object_payload (object r) of
     CommitmentPayload st own due cs \<Rightarrow>
       if isLive (Some r) \<and> cs = CommitmentOpen then
         (let overdue = (case due of None \<Rightarrow> False | Some t \<Rightarrow> t < now ctx) in
          [\<lparr>item_id = attentionItemId own OfObject (object_id (object r)) (asc (class_name OwnedCommitment)),
            item_roomId = object_roomId (object r), item_userId = own, item_objectId = object_id (object r),
            item_subjectKind = OfObject, item_class = OwnedCommitment,
            item_reason = (if overdue then CommitmentOverdue st (the due) (now ctx) else CommitmentStillOpen st due),
            item_status = ItemPending, item_createdAt = now ctx,
            priority = (if overdue then prio_commitment_overdue else prio_commitment_open)\<rparr>])
       else []
   | _ \<Rightarrow> [])"

definition object_examination :: "attention_class \<Rightarrow> attention_producer \<Rightarrow> jstr \<Rightarrow> examined_subject" where
  "object_examination cls by_whom i = \<lparr>examined_class = cls, examined_kind = OfObject, examined_id = i,
     examined_producer = by_whom\<rparr>"

definition commitmentItems :: "core_state \<Rightarrow> attention_context \<Rightarrow> attention_projection" where
  "commitmentItems s ctx = \<lparr>projected_items = concat (map (\<lambda>i. case get (objects s) i of
        None \<Rightarrow> [] | Some r \<Rightarrow> commitment_item ctx r) (sort (keys (objects s)))),
     refusals = [],
     examined = map (object_examination OwnedCommitment OpenCommitmentProducer) (sort (keys (objects s)))\<rparr>"

section \<open>Blocking questions\<close>

fun open_question_text :: "payload \<Rightarrow> jstr option" where
  "open_question_text (OpenQuestionPayload q QuestionOpen) = Some q"
| "open_question_text _ = None"

text \<open>The open, live question with this id, and its text.\<close>

definition openQuestion :: "core_state \<Rightarrow> jstr \<Rightarrow> (object_record \<times> jstr) option" where
  "openQuestion s i = (case get (objects s) i of
     Some r \<Rightarrow> if isLive (Some r) then map_option (Pair r) (open_question_text (object_payload (object r))) else None
   | None \<Rightarrow> None)"

definition question_item :: "attention_context \<Rightarrow> object_record \<Rightarrow> rationale_reason \<Rightarrow> jstr \<Rightarrow> computed_item" where
  "question_item ctx q why u = \<lparr>item_id = attentionItemId u OfObject (object_id (object q)) (asc (class_name BlockingQuestion)),
     item_roomId = object_roomId (object q), item_userId = u, item_objectId = object_id (object q),
     item_subjectKind = OfObject, item_class = BlockingQuestion, item_reason = why, item_status = ItemPending,
     item_createdAt = now ctx, priority = prio_blocking_question\<rparr>"

text \<open>The \<open>seen\<close> set holds the ids of the items already pushed.\<close>

definition push_unseen :: "computed_item list \<Rightarrow> computed_item \<Rightarrow> computed_item list" where
  "push_unseen out i = (if item_id i \<in> item_id ` set out then out else out @ [i])"

definition named_candidates :: "core_state \<Rightarrow> attention_context \<Rightarrow> question_mention \<Rightarrow> computed_item list" where
  "named_candidates s ctx m = (case openQuestion s (named_questionId m) of
     None \<Rightarrow> [] | Some (q, t) \<Rightarrow> [question_item ctx q (QuestionNamesYou t) (named_userId m)])"

definition blocking_candidates :: "core_state \<Rightarrow> attention_context \<Rightarrow> relation \<Rightarrow> computed_item list" where
  "blocking_candidates s ctx r = (case (relation_kind r, relation_to r) of
     (Blocks, ToObject target) \<Rightarrow> (case openQuestion s (fromObjectId r) of
        None \<Rightarrow> []
      | Some (q, t) \<Rightarrow> (case get (objects s) target of
          None \<Rightarrow> []
        | Some b \<Rightarrow> if \<not> isLive (Some b) then [] else (case object_payload (object b) of
            CommitmentPayload st own due cs \<Rightarrow> [question_item ctx q (QuestionBlocksCommitment t st) own]
          | ObjectivePayload title os \<Rightarrow>
              map (question_item ctx q (QuestionBlocksObjective t title)) (roster ctx (object_roomId (object q)))
          | _ \<Rightarrow> [])))
   | _ \<Rightarrow> [])"

definition compareQuestionMention_key :: "question_mention \<Rightarrow> jstr \<times> jstr" where
  "compareQuestionMention_key m = (named_questionId m, named_userId m)"

definition blockingQuestionItems :: "core_state \<Rightarrow> attention_context \<Rightarrow> attention_projection" where
  "blockingQuestionItems s ctx = \<lparr>projected_items = foldl push_unseen []
        (concat (map (named_candidates s ctx) (sort_key compareQuestionMention_key (questionMentions ctx))) @
         concat (map (blocking_candidates s ctx) (sort_key relation_id (relations s)))),
     refusals = [],
     examined = concat (map (\<lambda>i. object_examination BlockingQuestion BlockingRelation i #
        (if openQuestion s i = None then [object_examination BlockingQuestion NamedQuestion i] else []))
        (sort (keys (objects s))))\<rparr>"

section \<open>Mentions\<close>

text \<open>Requests are free text: JavaScript compares their UTF-16 code units.\<close>

fun utf16 :: "jstr \<Rightarrow> int list" where
  "utf16 [] = []"
| "utf16 (c # s) = (if c \<ge> 65536 then [55296 + (c - 65536) div 1024, 56320 + (c - 65536) mod 1024] else [c]) @ utf16 s"

definition mention_key :: "mention_signal \<Rightarrow> jstr \<times> jstr \<times> int list" where
  "mention_key m = (mention_objectId m, mention_userId m, utf16 (request m))"

definition mention_item :: "attention_context \<Rightarrow> mention_signal \<Rightarrow> computed_item" where
  "mention_item ctx m = (let k = (case mention_subjectKind m of None \<Rightarrow> OfObject | Some k \<Rightarrow> k) in
     \<lparr>item_id = attentionItemId (mention_userId m) k (mention_objectId m) (asc (class_name MentionClass)),
      item_roomId = mention_roomId m, item_userId = mention_userId m, item_objectId = mention_objectId m,
      item_subjectKind = k, item_class = MentionClass, item_reason = MentionReason (request m),
      item_status = ItemPending, item_createdAt = now ctx, priority = prio_mention\<rparr>)"

definition mentionItems :: "attention_context \<Rightarrow> attention_projection" where
  "mentionItems ctx = \<lparr>projected_items = foldl push_unseen [] (map (mention_item ctx) (sort_key mention_key (mentions ctx))),
     refusals = [], examined = []\<rparr>"

section \<open>The projection\<close>

definition projectAttention :: "unicode \<Rightarrow> core_state \<Rightarrow> attention_context \<Rightarrow> attention_projection" where
  "projectAttention U s ctx =
     (let all = join_sources [proposalItems U s ctx, commitmentItems s ctx, blockingQuestionItems s ctx, mentionItems ctx]
      in all\<lparr>projected_items := sortAttention (projected_items all)\<rparr>)"

definition computeAttention :: "unicode \<Rightarrow> core_state \<Rightarrow> attention_context \<Rightarrow> computed_item list" where
  "computeAttention U s ctx = projected_items (projectAttention U s ctx)"

section \<open>Transitions and reconciliation\<close>

datatype transition_refusal = SettledNeverReturns jstr attention_status | AlreadyPending jstr

definition transitionAttention :: "('a) attention_item_scheme \<Rightarrow> attention_status \<Rightarrow> transition_refusal + ('a) attention_item_scheme" where
  "transitionAttention i to_status =
     (if item_status i = to_status then Inr i
      else if item_status i \<noteq> ItemPending then Inl (SettledNeverReturns (item_id i) (item_status i))
      else if to_status = ItemPending then Inl (AlreadyPending (item_id i))
      else Inr (i\<lparr>item_status := to_status\<rparr>))"

definition resolveAttention :: "('a) attention_item_scheme \<Rightarrow> transition_refusal + ('a) attention_item_scheme" where
  "resolveAttention i = transitionAttention i Resolved"

definition dismissAttention :: "('a) attention_item_scheme \<Rightarrow> transition_refusal + ('a) attention_item_scheme" where
  "dismissAttention i = transitionAttention i Dismissed"

definition examination_of :: "attention_item \<Rightarrow> examined_subject" where
  "examination_of i = \<lparr>examined_class = item_class i, examined_kind = item_subjectKind i, examined_id = item_objectId i,
     examined_producer = producerOf (Some (item_reason i))\<rparr>"

text \<open>A stored item the cycle did not compute.\<close>

definition carry_over :: "jstr set \<Rightarrow> attention_item \<Rightarrow> computed_item" where
  "carry_over keys_examined e =
     (let concluded = examinedKey (examination_of e) \<in> keys_examined in
      attention_item.extend (e\<lparr>item_status := (if item_status e = ItemPending \<and> concluded then Resolved else item_status e)\<rparr>)
        \<lparr>priority = fallbackPriority (item_class e)\<rparr>)"

definition reconcileAttention :: "attention_item list \<Rightarrow> attention_projection \<Rightarrow> computed_item list" where
  "reconcileAttention stored cycle =
     (let byId = map_of (rev (map (\<lambda>e. (item_id e, e)) stored));
          computedIds = item_id ` set (projected_items cycle);
          keys_examined = examinedKey ` set (examined cycle)
      in sortAttention (
        map (\<lambda>e. case byId (item_id e) of None \<Rightarrow> e | Some previous \<Rightarrow> e\<lparr>item_status := item_status previous\<rparr>)
          (projected_items cycle) @
        map (carry_over keys_examined) (filter (\<lambda>e. item_id e \<notin> computedIds) stored)))"

section \<open>Since you left\<close>

record since_counts =
  attention_count :: nat
  byClass :: "attention_class \<Rightarrow> nat"
  changes :: nat
  quiet :: bool

definition counts_for :: "jstr \<Rightarrow> jstr \<Rightarrow> jstr option \<Rightarrow> ('a) attention_item_scheme \<Rightarrow> bool" where
  "counts_for user room seenAt e \<longleftrightarrow> item_userId e = user \<and> item_roomId e = room \<and> item_status e = ItemPending \<and>
     (case seenAt of None \<Rightarrow> True | Some t \<Rightarrow> \<not> item_createdAt e < t)"

definition since :: "jstr option \<Rightarrow> jstr \<Rightarrow> bool" where
  "since seenAt t = (case seenAt of None \<Rightarrow> True | Some c \<Rightarrow> c \<le> t)"

definition sinceCursorCounts ::
  "core_state \<Rightarrow> jstr \<Rightarrow> jstr \<Rightarrow> jstr option \<Rightarrow> ('a) attention_item_scheme list \<Rightarrow> since_counts" where
  "sinceCursorCounts s user room seenAt its =
     (let mine = filter (counts_for user room seenAt) its;
          moved = length (filter (\<lambda>(i, r). object_roomId (object r) = room \<and> since seenAt (acceptedAt r)) (objects s)) +
            length (filter (\<lambda>c. case get (objects s) (correction_objectId c) of
              None \<Rightarrow> False | Some r \<Rightarrow> object_roomId (object r) = room \<and> since seenAt (correction_at c)) (corrections s)) +
            length (filter (\<lambda>r. relation_roomId r = room \<and> since seenAt (relation_createdAt r)) (relations s))
      in \<lparr>attention_count = length mine,
          byClass = (\<lambda>cls. length (filter (\<lambda>e. item_class e = cls) mine)),
          changes = moved, quiet = (mine = [] \<and> moved = 0)\<rparr>)"

definition changedSince :: "core_state \<Rightarrow> jstr \<Rightarrow> jstr option \<Rightarrow> accepted_object list" where
  "changedSince s room seenAt = concat (map (\<lambda>i. case get (objects s) i of
     None \<Rightarrow> []
   | Some r \<Rightarrow> if object_roomId (object r) = room \<and> since seenAt (record_updatedAt r) then [object r] else [])
   (sort (keys (objects s))))"

end
