(* ===== verification/Panel.thy ===== *)
theory Panel
  imports Attention Structure Samples Chronology
begin

text \<open>
  Properties of the attention projection: its identifiers cannot be forged, no staged proposal is passed
  over in silence, the panel asks what the engine asks, and a recomputation settles only what it saw.
\<close>

section \<open>Identifiers\<close>

lemma escapeIdPart_simps [simp]:
  "escapeIdPart [] = []"
  "escapeIdPart (c # v) = (if c = 37 then [37, 50, 53] else if c = 58 then [37, 51, 65] else [c]) @ escapeIdPart v"
  by (simp_all add: escapeIdPart_def asc_def)

lemma escape_no_colon [simp]: "58 \<notin> set (escapeIdPart v)"
  by (induction v) auto

lemma escape_inj [simp]: "escapeIdPart v = escapeIdPart w \<longleftrightarrow> v = w"
proof (induction v arbitrary: w)
  case Nil
  then show ?case by (cases w) auto
next
  case (Cons c v)
  then show ?case by (cases w) auto
qed

lemma colon_split:
  assumes "58 \<notin> set a" and "58 \<notin> set b"
  shows "a @ 58 # x = b @ 58 # y \<longleftrightarrow> a = b \<and> x = (y :: jstr)"
  using assms
proof (induction a arbitrary: b)
  case Nil
  then show ?case by (cases b) auto
next
  case (Cons c a)
  then show ?case by (cases b) auto
qed

lemma names_no_colon [simp]:
  "58 \<notin> set (asc (kind_of_subject k))" "58 \<notin> set (asc (class_name c))" "58 \<notin> set (asc (producer_name p))"
  by (cases k, simp_all add: asc_def) (cases c, simp_all add: asc_def, cases p, simp_all add: asc_def)

lemma kind_of_subject_inj [simp]: "kind_of_subject k = kind_of_subject k' \<longleftrightarrow> k = k'"
  by (cases k; cases k') simp_all

lemma class_name_inj [simp]: "class_name c = class_name c' \<longleftrightarrow> c = c'"
  by (cases c; cases c') simp_all

lemma producer_name_inj [simp]: "producer_name p = producer_name p' \<longleftrightarrow> p = p'"
  by (cases p; cases p') simp_all

lemma attentionItemId_inj [simp]:
  "attentionItemId u k i c = attentionItemId u' k' i' c' \<longleftrightarrow> u = u' \<and> k = k' \<and> i = i' \<and> c = c'"
  by (simp add: attentionItemId_def colon_split)

lemma examinedKey_inj [simp]: "examinedKey e = examinedKey f \<longleftrightarrow> e = f"
  by (cases e; cases f) (simp add: examinedKey_def colon_split)

lemma examinedKey_image [simp]: "examinedKey e \<in> examinedKey ` A \<longleftrightarrow> e \<in> A"
  by (auto simp: image_iff)

section \<open>What each source can produce\<close>

lemma sortAttention_set [simp]: "set (sortAttention is) = set is"
  by (simp add: sortAttention_def)

lemma projection_fields:
  "set (projected_items (projectAttention U s ctx)) = set (projected_items (proposalItems U s ctx)) \<union>
     set (projected_items (commitmentItems s ctx)) \<union> set (projected_items (blockingQuestionItems s ctx)) \<union>
     set (projected_items (mentionItems ctx))"
  "refusals (projectAttention U s ctx) = refusals (proposalItems U s ctx)"
  "examined (projectAttention U s ctx) = examined (proposalItems U s ctx) @ examined (commitmentItems s ctx) @
     examined (blockingQuestionItems s ctx)"
  by (auto simp: projectAttention_def join_sources_def commitmentItems_def blockingQuestionItems_def mentionItems_def Let_def)

lemma keyed_concat:
  assumes "n = []"
  shows "(\<exists>k \<in> set (keys st). x \<in> set (case get st k of None \<Rightarrow> n | Some r \<Rightarrow> f r)) \<longleftrightarrow>
     (\<exists>k r. get st k = Some r \<and> x \<in> set (f r))"
proof
  assume "\<exists>k \<in> set (keys st). x \<in> set (case get st k of None \<Rightarrow> n | Some r \<Rightarrow> f r)"
  then show "\<exists>k r. get st k = Some r \<and> x \<in> set (f r)" using assms by (auto split: option.split_asm)
next
  assume "\<exists>k r. get st k = Some r \<and> x \<in> set (f r)"
  then obtain k r where "get st k = Some r" "x \<in> set (f r)" "k \<in> set (keys st)" by (auto simp: keys_get)
  then show "\<exists>k \<in> set (keys st). x \<in> set (case get st k of None \<Rightarrow> n | Some r \<Rightarrow> f r)"
    by (auto intro!: bexI [of _ k])
qed

lemma nothing_owed_fields [simp]: "projected_items nothing_owed = []" "refusals nothing_owed = []" "examined nothing_owed = []"
  by (simp_all add: nothing_owed_def)

lemma proposalItems_fields:
  "x \<in> set (projected_items (proposalItems U s ctx)) \<longleftrightarrow>
     (\<exists>pid r. get (proposals s) pid = Some r \<and> x \<in> set (projected_items (proposal_source U ctx r)))"
  "f \<in> set (refusals (proposalItems U s ctx)) \<longleftrightarrow>
     (\<exists>pid r. get (proposals s) pid = Some r \<and> f \<in> set (refusals (proposal_source U ctx r)))"
  "e \<in> set (examined (proposalItems U s ctx)) \<longleftrightarrow>
     (\<exists>pid r. get (proposals s) pid = Some r \<and> e \<in> set (examined (proposal_source U ctx r)))"
  by (simp_all add: proposalItems_def join_sources_def o_def keyed_concat
      option.case_distrib [of projected_items] option.case_distrib [of refusals] option.case_distrib [of examined])

lemma raiseOrRefuse_Raise: "raiseOrRefuse is why = Raise x xs \<longleftrightarrow> is = x # xs"
  by (cases "is") auto

lemma proposal_item_fields [simp]:
  "item_objectId (proposal_item ctx p c n w u) = proposal_id p" "item_subjectKind (proposal_item ctx p c n w u) = OfProposal"
  "item_class (proposal_item ctx p c n w u) = c" "item_userId (proposal_item ctx p c n w u) = u"
  "item_reason (proposal_item ctx p c n w u) = w" "item_status (proposal_item ctx p c n w u) = ItemPending"
  "item_id (proposal_item ctx p c n w u) = attentionItemId u OfProposal (proposal_id p) (asc (class_name c))"
  by (simp_all add: proposal_item_def)

lemma review_items:
  assumes "readingReviewOutcome p ctx = Raise x xs"
  shows "x # xs = map (proposal_item ctx p NeedsDecision prio_needs_decision
      (ReceiptReview (payload_statement (proposal_payload p)) (proposal_type p))) (roster ctx (proposal_roomId p))"
  using assms by (auto simp: readingReviewOutcome_def raiseOrRefuse_Raise proposal_type_def Let_def split: if_splits)

text \<open>The engine's verdict on a staged proposal, as the panel asks for it.\<close>

abbreviation panel_verdict :: "unicode \<Rightarrow> attention_context \<Rightarrow> proposal_record \<Rightarrow> acceptance_decision" where
  "panel_verdict U ctx r \<equiv> decideAcceptance U (proposal r) (engine_context ctx)"

lemma source_raises:
  assumes "i \<in> set (projected_items (proposal_source U ctx r))"
  obtains x xs where "projected_items (proposal_source U ctx r) = x # xs" "status r = Proposed"
    "decision_about (panel_verdict U ctx r) = TheReading"
    "rule (panel_verdict U ctx r) = ReceiptNotCertifiableRule \<and> readingReviewOutcome (proposal r) ctx = Raise x xs \<or>
     visibility (panel_verdict U ctx r) = NeedsYou \<and> needsYouOutcome U (proposal r) (panel_verdict U ctx r) ctx = Raise x xs"
proof -
  have "decision_about (panel_verdict U ctx r) = TheReading"
    using assms by (cases "decision_about (panel_verdict U ctx r)") (auto simp: proposal_source_def Let_def split: if_splits)
  moreover have "\<exists>x xs. projected_items (proposal_source U ctx r) = x # xs \<and> status r = Proposed \<and>
      (rule (panel_verdict U ctx r) = ReceiptNotCertifiableRule \<and> readingReviewOutcome (proposal r) ctx = Raise x xs \<or>
       visibility (panel_verdict U ctx r) = NeedsYou \<and> needsYouOutcome U (proposal r) (panel_verdict U ctx r) ctx = Raise x xs)"
    using assms by (simp add: proposal_source_def Let_def split: if_splits needs_you_outcome.splits)
  ultimately show thesis using that by blast
qed

lemma source_accounts:
  assumes "status r = Proposed"
  shows "projected_items (proposal_source U ctx r) \<noteq> [] \<or> refusals (proposal_source U ctx r) \<noteq> [] \<or>
    visibility (panel_verdict U ctx r) \<noteq> NeedsYou \<and>
      staged_examination (proposal r) (proposal_class (proposal_type (proposal r))) \<in> set (examined (proposal_source U ctx r))"
  using assms
  by (auto simp: proposal_source_def conclude_def Let_def split: needs_you_outcome.splits)

lemma needs_you_items:
  assumes "needsYouOutcome U p d ctx = Raise x xs"
  obtains (asked) w us where "x # xs = map (proposal_item ctx p NeedsDecision prio_needs_decision w) us"
      "proposal_type p \<noteq> Commitment" "us = roster ctx (proposal_roomId p) \<or> (\<exists>u. us = [u])"
  | (confirm) st own due cs w where "proposal_payload p = CommitmentPayload st own due cs"
      "w = (if awaitingConfirmFrom d = None then CommitmentSelfStated st else CommitmentConfirm st)"
      "x # xs = [proposal_item ctx p OwnedCommitment prio_commitment_confirm w
         (case awaitingConfirmFrom d of Some u \<Rightarrow> u | None \<Rightarrow> own)]"
proof (cases "proposal_payload p")
  case (DecisionPayload st who ds)
  show thesis
    by (rule asked [of "DecisionPending st (who \<noteq> None)" "case who of Some u \<Rightarrow> [u] | None \<Rightarrow> roster ctx (proposal_roomId p)"])
       (use assms DecisionPayload in \<open>auto simp: needsYouOutcome_def raiseOrRefuse_Raise proposal_type_def Let_def split: option.splits\<close>)
next
  case (CommitmentPayload st own due cs)
  show thesis
    by (rule confirm [OF CommitmentPayload refl])
       (use assms CommitmentPayload in \<open>simp add: needsYouOutcome_def raiseOrRefuse_Raise Let_def split: if_splits option.splits\<close>)
next
  case (OpenQuestionPayload q qs)
  with assms show thesis
    by (intro asked) (auto simp: needsYouOutcome_def raiseOrRefuse_Raise proposal_type_def Let_def split: if_splits)
next
  case (ClaimPayload st c v)
  with assms show thesis
    by (intro asked) (auto simp: needsYouOutcome_def raiseOrRefuse_Raise proposal_type_def Let_def split: if_splits)
next
  case (ObjectivePayload ti os)
  with assms show thesis
    by (intro asked) (auto simp: needsYouOutcome_def raiseOrRefuse_Raise proposal_type_def Let_def split: if_splits)
qed

lemma source_items:
  assumes "i \<in> set (projected_items (proposal_source U ctx r))"
  obtains c n w us where "projected_items (proposal_source U ctx r) = map (proposal_item ctx (proposal r) c n w) us"
    "c = NeedsDecision \<or> c = OwnedCommitment" "us = roster ctx (proposal_roomId (proposal r)) \<or> (\<exists>u. us = [u])"
proof -
  from assms obtain x xs where x: "projected_items (proposal_source U ctx r) = x # xs"
    "readingReviewOutcome (proposal r) ctx = Raise x xs \<or>
     needsYouOutcome U (proposal r) (panel_verdict U ctx r) ctx = Raise x xs"
    by (rule source_raises) blast
  from x(2) show thesis
  proof
    assume "readingReviewOutcome (proposal r) ctx = Raise x xs"
    from review_items [OF this] x(1) show thesis by (intro that) auto
  next
    assume "needsYouOutcome U (proposal r) (panel_verdict U ctx r) ctx = Raise x xs"
    then show thesis
    proof (cases rule: needs_you_items)
      case (asked w us)
      with x(1) show thesis by (intro that [of NeedsDecision prio_needs_decision w us]) auto
    next
      case (confirm st own due cs w)
      then show thesis
        by (intro that [of OwnedCommitment prio_commitment_confirm w
              "[case awaitingConfirmFrom (panel_verdict U ctx r) of Some u \<Rightarrow> u | None \<Rightarrow> own]"]) (simp_all add: x(1))
    qed
  qed
qed

lemma source_subjects:
  "i \<in> set (projected_items (proposal_source U ctx r)) \<Longrightarrow>
     item_objectId i = proposal_id (proposal r) \<and> item_subjectKind i = OfProposal"
  "f \<in> set (refusals (proposal_source U ctx r)) \<Longrightarrow> refused_proposalId f = proposal_id (proposal r)"
proof -
  assume "i \<in> set (projected_items (proposal_source U ctx r))"
  then show "item_objectId i = proposal_id (proposal r) \<and> item_subjectKind i = OfProposal"
    by (rule source_items) (use \<open>i \<in> _\<close> in auto)
next
  show "f \<in> set (refusals (proposal_source U ctx r)) \<Longrightarrow> refused_proposalId f = proposal_id (proposal r)"
    by (auto simp: proposal_source_def Let_def split: if_splits needs_you_outcome.splits)
qed

lemma examined_staged:
  assumes "e \<in> set (examined (proposal_source U ctx r))"
  shows "examined_kind e = OfProposal \<and> examined_producer e = StagedProposal \<and> examined_id e = proposal_id (proposal r) \<and>
    (status r \<noteq> Proposed \<or> decision_about (panel_verdict U ctx r) = TheReading)"
proof -
  have "examined_kind e = OfProposal \<and> examined_producer e = StagedProposal \<and> examined_id e = proposal_id (proposal r)"
    using assms
    by (auto simp: proposal_source_def conclude_def concludeReview_def staged_examination_def Let_def
        split: if_splits needs_you_outcome.splits)
  moreover have "status r \<noteq> Proposed \<or> decision_about (panel_verdict U ctx r) = TheReading"
    using assms by (cases "decision_about (panel_verdict U ctx r)") (auto simp: proposal_source_def Let_def split: if_splits)
  ultimately show ?thesis by blast
qed

lemma push_unseen_ids:
  "set (foldl push_unseen out is) \<subseteq> set out \<union> set is"
  "distinct (map item_id out) \<Longrightarrow> distinct (map item_id (foldl push_unseen out is))"
  by (induction "is" arbitrary: out) (auto simp: push_unseen_def, fastforce)

lemma commitment_items_shape:
  "x \<in> set (projected_items (commitmentItems s ctx)) \<longleftrightarrow>
     (\<exists>i r. get (objects s) i = Some r \<and> x \<in> set (commitment_item ctx r))"
  using keyed_concat [OF refl, of "objects s" x "commitment_item ctx"] by (simp add: commitmentItems_def)

lemma commitment_items_kind:
  "x \<in> set (commitment_item ctx r) \<Longrightarrow> item_subjectKind x = OfObject \<and> item_class x = OwnedCommitment"
  by (cases "object_payload (object r)") (auto simp: commitment_item_def Let_def split: if_splits)

lemma blocking_candidate:
  assumes "x \<in> set (blocking_candidates s ctx r)"
  shows "\<exists>q w u. x = question_item ctx q w u"
proof (cases "relation_to r")
  case (ToObject target)
  with assms have kind: "relation_kind r = Blocks" by (cases "relation_kind r") (auto simp: blocking_candidates_def)
  with assms ToObject obtain q where q: "openQuestion s (fromObjectId r) = Some q"
    by (cases "openQuestion s (fromObjectId r)") (auto simp: blocking_candidates_def)
  with assms ToObject kind obtain b where "get (objects s) target = Some b"
    by (cases "get (objects s) target") (auto simp: blocking_candidates_def split: prod.split_asm)
  with assms ToObject kind q show ?thesis
    by (cases q; cases "object_payload (object b)") (auto simp: blocking_candidates_def split: if_split_asm)
qed (use assms in \<open>simp_all add: blocking_candidates_def split: relation_kind.split_asm\<close>)

lemma named_candidate: "x \<in> set (named_candidates s ctx m) \<Longrightarrow> \<exists>q w u. x = question_item ctx q w u"
  by (auto simp: named_candidates_def split: option.split_asm)

lemma question_items_kind:
  assumes "x \<in> set (projected_items (blockingQuestionItems s ctx))"
  shows "item_subjectKind x = OfObject \<and> item_class x = BlockingQuestion"
proof -
  from assms have "(\<exists>m. x \<in> set (named_candidates s ctx m)) \<or> (\<exists>r. x \<in> set (blocking_candidates s ctx r))"
    by (auto simp: blockingQuestionItems_def dest!: subsetD [OF push_unseen_ids(1)])
  then obtain q w u where "x = question_item ctx q w u"
    using named_candidate blocking_candidate by blast
  then show ?thesis by (simp add: question_item_def)
qed

lemma mention_items_kind:
  assumes "x \<in> set (projected_items (mentionItems ctx))"
  shows "item_class x = MentionClass"
proof -
  from assms have "\<exists>m. x = mention_item ctx m"
    by (auto simp: mentionItems_def dest!: subsetD [OF push_unseen_ids(1)])
  then show ?thesis by (auto simp: mention_item_def Let_def)
qed

section \<open>Reconciliation\<close>

lemma carry_over_fields [simp]:
  "item_id (carry_over K e) = item_id e"
  "item_status (carry_over K e) = (if item_status e = ItemPending \<and> examinedKey (examination_of e) \<in> K then Resolved else item_status e)"
  by (simp_all add: carry_over_def Let_def attention_item.defs)

lemma stored_by_id:
  assumes "distinct (map item_id stored)" and "e \<in> set stored"
  shows "map_of (rev (map (\<lambda>e. (item_id e, e)) stored)) (item_id e) = Some e"
proof (rule map_of_is_SomeI)
  show "distinct (map fst (rev (map (\<lambda>e. (item_id e, e)) stored)))"
    using assms(1) by (simp add: rev_map [symmetric] o_def)
qed (use assms(2) in auto)

lemma reconcile_ids:
  "item_id ` set (reconcileAttention stored cycle) = item_id ` set stored \<union> item_id ` set (projected_items cycle)"
proof -
  have "item_id (case x of None \<Rightarrow> e | Some p \<Rightarrow> e\<lparr>item_status := item_status p\<rparr>) = item_id e" for x :: "attention_item option" and e :: computed_item
    by (cases x) auto
  then show ?thesis by (auto simp: reconcileAttention_def Let_def image_Un image_image)
qed

lemma reconcile_stored:
  assumes "distinct (map item_id stored)" and "e \<in> set stored"
  shows "\<exists>e' \<in> set (reconcileAttention stored cycle). item_id e' = item_id e \<and> item_status e' =
    (if item_status e = ItemPending \<and> item_id e \<notin> item_id ` set (projected_items cycle) \<and>
        examination_of e \<in> set (examined cycle) then Resolved else item_status e)"
proof (cases "item_id e \<in> item_id ` set (projected_items cycle)")
  case True
  then obtain c where c: "c \<in> set (projected_items cycle)" "item_id c = item_id e" by auto
  then have "c\<lparr>item_status := item_status e\<rparr> \<in> set (reconcileAttention stored cycle)"
    using stored_by_id [OF assms] by (force simp: reconcileAttention_def Let_def)
  with c True show ?thesis by (intro bexI) auto
next
  case False
  with assms(2) have "carry_over (examinedKey ` set (examined cycle)) e \<in> set (reconcileAttention stored cycle)"
    by (auto simp: reconcileAttention_def Let_def)
  with False show ?thesis by (intro bexI) auto
qed

lemma reconcile_member:
  assumes "e' \<in> set (reconcileAttention stored cycle)"
  obtains (computed) c where "c \<in> set (projected_items cycle)" "item_id e' = item_id c"
      "item_status e' = (case map_of (rev (map (\<lambda>e. (item_id e, e)) stored)) (item_id c) of
         None \<Rightarrow> item_status c | Some p \<Rightarrow> item_status p)"
  | (carried) e where "e \<in> set stored" "item_id e \<notin> item_id ` set (projected_items cycle)"
      "e' = carry_over (examinedKey ` set (examined cycle)) e"
  using assms by (auto simp: reconcileAttention_def Let_def split: option.splits)

lemma reconcile_resolves:
  assumes "distinct (map item_id stored)" and e: "e \<in> set stored" "item_status e = ItemPending"
    and e': "e' \<in> set (reconcileAttention stored cycle)" "item_id e' = item_id e" "item_status e' = Resolved"
  shows "examination_of e \<in> set (examined cycle)"
  using e'(1)
proof (cases rule: reconcile_member)
  case (computed c)
  with stored_by_id [OF assms(1) e(1)] e(2) e'(2,3) show ?thesis by simp
next
  case (carried x)
  with assms(1) e(1) e'(2) have "x = e" by (simp add: distinct_map inj_on_def)
  with carried e(2) e'(3) show ?thesis by (simp split: if_splits)
qed

lemma examined_by_source:
  assumes "x \<in> set (examined (projectAttention U s ctx))"
  shows "(\<exists>pid r. get (proposals s) pid = Some r \<and> x \<in> set (examined (proposal_source U ctx r))) \<or>
    examined_producer x \<in> {OpenCommitmentProducer, BlockingRelation} \<and> get (objects s) (examined_id x) \<noteq> None \<or>
    examined_producer x = NamedQuestion \<and> get (objects s) (examined_id x) \<noteq> None \<and> openQuestion s (examined_id x) = None"
  using assms
  by (auto simp: projection_fields proposalItems_fields commitmentItems_def blockingQuestionItems_def object_examination_def
      keys_get split: if_splits)

section \<open>Properties\<close>

text \<open>
  An item id cannot be forged out of its parts: two ids are equal exactly when the person, the kind
  of subject, the subject and the class are, whatever characters they contain.
\<close>

theorem item_ids_injective:
  "attentionItemId u k i c = attentionItemId u' k' i' c' \<longleftrightarrow> u = u' \<and> k = k' \<and> i = i' \<and> c = c'"
  by simp

text \<open>
  No staged proposal is passed over in silence.  Every proposal still staged raises an item, or is
  refused by name, or the engine says it is nobody's turn and the projection declares that it looked.
\<close>

theorem staged_proposal_accounted:
  assumes "get (proposals s) pid = Some r" and "status r = Proposed"
  shows "(\<exists>i \<in> set (projected_items (projectAttention U s ctx)).
      item_objectId i = proposal_id (proposal r) \<and> item_subjectKind i = OfProposal) \<or>
    (\<exists>f \<in> set (refusals (projectAttention U s ctx)). refused_proposalId f = proposal_id (proposal r)) \<or>
    visibility (decideAcceptance U (proposal r) (engine_context ctx)) \<noteq> NeedsYou \<and>
      staged_examination (proposal r) (proposal_class (proposal_type (proposal r))) \<in>
        set (examined (projectAttention U s ctx))"
  using source_accounts [OF assms(2), of U ctx]
proof (elim disjE conjE)
  assume "projected_items (proposal_source U ctx r) \<noteq> []"
  then obtain i where i: "i \<in> set (projected_items (proposal_source U ctx r))" by (meson list.set_sel(1))
  with assms(1) have "i \<in> set (projected_items (projectAttention U s ctx))"
    by (auto simp: projection_fields proposalItems_fields)
  with source_subjects(1) [OF i] show ?thesis by blast
next
  assume "refusals (proposal_source U ctx r) \<noteq> []"
  then obtain f where f: "f \<in> set (refusals (proposal_source U ctx r))" by (meson list.set_sel(1))
  with assms(1) have "f \<in> set (refusals (projectAttention U s ctx))"
    by (auto simp: projection_fields proposalItems_fields)
  with source_subjects(2) [OF f] show ?thesis by blast
qed (use assms(1) in \<open>auto simp: projection_fields proposalItems_fields\<close>)

text \<open>
  C24. The panel asks what the engine asks.  An item about a proposal that is not a mention comes from a
  proposal still staged, judged on its reading; the engine says it needs somebody, or its receipt was not
  certifiable and the room reviews it; and somebody is asked to confirm a commitment only if the engine awaits
  them or, when it awaits nobody, they are its owner.
\<close>

theorem panel_asks_what_the_engine_asks:
  assumes "i \<in> set (projected_items (projectAttention U s ctx))" and "item_subjectKind i = OfProposal"
    and "item_class i \<noteq> MentionClass"
  shows "\<exists>pid r. get (proposals s) pid = Some r \<and> status r = Proposed \<and> item_objectId i = proposal_id (proposal r) \<and>
    (let d = decideAcceptance U (proposal r) (engine_context ctx) in
      decision_about d = TheReading \<and>
      (visibility d = NeedsYou \<or> rule d = ReceiptNotCertifiableRule \<and> item_class i = NeedsDecision) \<and>
      (item_class i = OwnedCommitment \<longrightarrow> visibility d = NeedsYou \<and>
        (\<exists>st own due cs. proposal_payload (proposal r) = CommitmentPayload st own due cs \<and>
           item_userId i = (case awaitingConfirmFrom d of Some u \<Rightarrow> u | None \<Rightarrow> own))))"
proof -
  from assms have "i \<in> set (projected_items (proposalItems U s ctx))"
    by (auto simp: projection_fields commitment_items_shape
        dest: commitment_items_kind question_items_kind mention_items_kind)
  then obtain pid r where r: "get (proposals s) pid = Some r" "i \<in> set (projected_items (proposal_source U ctx r))"
    by (auto simp: proposalItems_fields)
  show ?thesis
  proof (rule source_raises [OF r(2)])
    fix x xs
    assume h: "projected_items (proposal_source U ctx r) = x # xs" "status r = Proposed"
      "decision_about (panel_verdict U ctx r) = TheReading"
      "rule (panel_verdict U ctx r) = ReceiptNotCertifiableRule \<and> readingReviewOutcome (proposal r) ctx = Raise x xs \<or>
       visibility (panel_verdict U ctx r) = NeedsYou \<and> needsYouOutcome U (proposal r) (panel_verdict U ctx r) ctx = Raise x xs"
    have i: "i \<in> set (x # xs)" using r(2) h(1) by simp
    from h(4) show ?thesis
    proof (elim disjE conjE)
      assume "rule (panel_verdict U ctx r) = ReceiptNotCertifiableRule" "readingReviewOutcome (proposal r) ctx = Raise x xs"
      with i review_items have "item_class i = NeedsDecision" by fastforce
      with \<open>rule _ = _\<close> r h(2,3) source_subjects(1) show ?thesis by (auto simp: Let_def)
    next
      assume v: "visibility (panel_verdict U ctx r) = NeedsYou"
        and "needsYouOutcome U (proposal r) (panel_verdict U ctx r) ctx = Raise x xs"
      then show ?thesis
      proof (elim needs_you_items)
        fix w us assume "x # xs = map (proposal_item ctx (proposal r) NeedsDecision prio_needs_decision w) us"
        with i have "item_class i = NeedsDecision" by auto
        with v r h(2,3) source_subjects(1) show ?thesis by (auto simp: Let_def)
      next
        fix st own due cs w
        assume "proposal_payload (proposal r) = CommitmentPayload st own due cs"
          "x # xs = [proposal_item ctx (proposal r) OwnedCommitment prio_commitment_confirm w
             (case awaitingConfirmFrom (panel_verdict U ctx r) of Some u \<Rightarrow> u | None \<Rightarrow> own)]"
        with i v r h(2,3) show ?thesis by (intro exI [of _ pid] exI [of _ r]) (auto simp: Let_def)
      qed
    qed
  qed
qed

text \<open>
  What a recomputation does to the stored panel.  Nothing stored is lost and nothing invented: the
  result holds exactly the stored and the computed ids.  A stored item keeps its status, settled or pending,
  unless it was pending, was not computed again, and the cycle declared that the producer of that item
  examined its subject; then it is resolved.
\<close>

theorem reconcile_law:
  assumes "distinct (map item_id stored)" and "e \<in> set stored"
  shows "item_id ` set (reconcileAttention stored cycle) = item_id ` set stored \<union> item_id ` set (projected_items cycle) \<and>
    (\<exists>e' \<in> set (reconcileAttention stored cycle). item_id e' = item_id e \<and> item_status e' =
      (if item_status e = ItemPending \<and> item_id e \<notin> item_id ` set (projected_items cycle) \<and>
          examination_of e \<in> set (examined cycle) then Resolved else item_status e))"
  using reconcile_ids reconcile_stored [OF assms] by blast

text \<open>
  C25. A cycle settles only what it saw.  If recomputing the panel from a state resolves a pending item,
  then the state says why: the proposal is settled or was judged on its reading, the object is in the
  state, or the question that named somebody is no longer open; and a mention or an expired wait is never
  resolved by a recomputation, whatever the cycle was or was not given.
\<close>

theorem cycle_settles_only_what_it_saw:
  assumes "distinct (map item_id stored)" "e \<in> set stored" "item_status e = ItemPending"
    and "e' \<in> set (reconcileAttention stored (projectAttention U s ctx))" "item_id e' = item_id e" "item_status e' = Resolved"
  shows "case producerOf (Some (item_reason e)) of
      StagedProposal \<Rightarrow> \<exists>pid r. get (proposals s) pid = Some r \<and> proposal_id (proposal r) = item_objectId e \<and>
        (status r \<noteq> Proposed \<or> decision_about (decideAcceptance U (proposal r) (engine_context ctx)) = TheReading)
    | OpenCommitmentProducer \<Rightarrow> get (objects s) (item_objectId e) \<noteq> None
    | BlockingRelation \<Rightarrow> get (objects s) (item_objectId e) \<noteq> None
    | NamedQuestion \<Rightarrow> get (objects s) (item_objectId e) \<noteq> None \<and> openQuestion s (item_objectId e) = None
    | _ \<Rightarrow> False"
proof -
  have ex: "examination_of e \<in> set (examined (projectAttention U s ctx))"
    by (rule reconcile_resolves [OF assms])
  have who: "examined_producer (examination_of e) = producerOf (Some (item_reason e))"
      "examined_id (examination_of e) = item_objectId e" by (simp_all add: examination_of_def)
  from examined_by_source [OF ex] show ?thesis
  proof (elim disjE exE conjE)
    fix pid r assume r: "get (proposals s) pid = Some r" "examination_of e \<in> set (examined (proposal_source U ctx r))"
    from r examined_staged [OF r(2)] who show ?thesis by auto
  qed (use who in \<open>auto split: attention_producer.splits\<close>)
qed

text \<open>
  Every open commitment is in front of its owner.  In every state the reducer can return, a live open
  commitment is on its owner's panel, marked overdue exactly when its due date is an earlier instant
  than now.
\<close>

theorem open_commitment_on_panel:
  assumes "get (objects (reduce U rows)) i = Some r" "retractedAt r = None" "supersededById r = None"
    and "object_payload (object r) = CommitmentPayload st own due CommitmentOpen"
    and "now ctx = iso_string n" "real_instant n"
  shows "\<exists>x \<in> set (projected_items (projectAttention U (reduce U rows) ctx)).
    item_userId x = own \<and> item_objectId x = i \<and> item_subjectKind x = OfObject \<and> item_status x = ItemPending \<and>
    item_reason x = (if \<exists>t. real_instant t \<and> due = Some (iso_string t) \<and> instant_fields t < instant_fields n
      then CommitmentOverdue st (the due) (now ctx) else CommitmentStillOpen st due)"
proof -
  from reduce_folds obtain xs where "folds U xs (reduce U rows)" by blast
  from wf.holds [OF this assms(1)] assms(4) have id: "object_id (object r) = i" and due: "pred_option Timestamp due"
    by (auto simp: wf_object_def)
  have late: "(case due of None \<Rightarrow> False | Some t \<Rightarrow> t < now ctx) \<longleftrightarrow>
      (\<exists>t. real_instant t \<and> due = Some (iso_string t) \<and> instant_fields t < instant_fields n)"
    using due iso_string_less [OF _ assms(6)] by (cases due) (auto simp: assms(5) dest: Timestamp_read)
  from assms(2-4) obtain x where "x \<in> set (commitment_item ctx r)" "item_userId x = own" "item_objectId x = object_id (object r)"
      "item_subjectKind x = OfObject" "item_status x = ItemPending"
      "item_reason x = (if case due of None \<Rightarrow> False | Some t \<Rightarrow> t < now ctx
         then CommitmentOverdue st (the due) (now ctx) else CommitmentStillOpen st due)"
    by (simp add: commitment_item_def isLive_def Let_def)
  moreover from this(1) assms(1) have "x \<in> set (projected_items (projectAttention U (reduce U rows) ctx))"
    by (auto simp: projection_fields commitment_items_shape)
  ultimately show ?thesis unfolding id late by blast
qed

section \<open>One entry per id\<close>

definition stores_distinct :: "core_state \<Rightarrow> bool" where
  "stores_distinct s \<longleftrightarrow> distinct (keys (objects s)) \<and> distinct (keys (proposals s)) \<and>
     (\<forall>pid r. get (proposals s) pid = Some r \<longrightarrow> proposal_id (proposal r) = pid)"

lemma objects_put_distinct:
  "stores_distinct s \<Longrightarrow> stores_distinct (s\<lparr>objects := put i r (objects s)\<rparr>)"
  by (simp add: stores_distinct_def st.dom_distinct_insert)

lemma stores_distinct_cong:
  "objects s' = objects s \<Longrightarrow> proposals s' = proposals s \<Longrightarrow> stores_distinct s' = stores_distinct s"
  by (simp add: stores_distinct_def)

lemma edges_distinct:
  "stores_distinct s \<Longrightarrow> stores_distinct (release_edges i t es s)"
  "stores_distinct s \<Longrightarrow> stores_distinct (reapply_edges i t es s)"
  by (induction es arbitrary: s) (auto intro!: objects_put_distinct split: option.split relation_target.split)

lemma commitPlan_distinct:
  assumes "stores_distinct s"
  shows "stores_distinct (commitPlan s e r a p)"
proof -
  let ?s = "s\<lparr>corrections := corrections s @ [correction_entry e r a p],
     objects := put (corrected_objectId e) (corrected_record e r a p) (objects s)\<rparr>"
  have "stores_distinct ?s" using assms by (simp add: stores_distinct_def st.dom_distinct_insert)
  then show ?thesis
    by (simp add: commitPlan_def releaseSupersessions_def reapplySupersessions_def edges_distinct Let_def split: after_commit.split)
qed

lemma refuse_distinct [simp]: "stores_distinct (fst (refuse s i r)) = stores_distinct s" "stores_distinct (fail s i r) = stores_distinct s"
  by (auto intro!: stores_distinct_cong simp: refuse_def fail_def)

lemma proposal_put_distinct:
  assumes "stores_distinct s" "proposal_id (proposal q) = pid"
  shows "stores_distinct (s\<lparr>proposals := put pid q (proposals s)\<rparr>)"
  using assms by (auto simp: stores_distinct_def st.dom_distinct_insert)

lemma effects_distinct:
  "stores_distinct s \<Longrightarrow> stores_distinct (supersedes_effect r t s)"
  "stores_distinct s \<Longrightarrow> stores_distinct (answers_effect r t s)"
  by (auto simp: supersedes_effect_def answers_effect_def intro!: objects_put_distinct
      split: option.split relation_target.split relation_kind.split payload.split)

lemma mark_accepted_distinct: "stores_distinct s \<Longrightarrow> stores_distinct (mark_accepted s ob)"
  by (auto simp: mark_accepted_def cited_proposal_def stores_distinct_def st.dom_distinct_insert split: option.split)

lemma dispatch_distinct:
  assumes "stores_distinct s"
  shows "stores_distinct (fst (dispatch U s x))"
proof (cases "event x")
  case (ProposalRecorded eid t p)
  with assms show ?thesis
    by (auto simp: dispatch_def applyProposalRecorded_def refuse_def fail_def Let_def storeProposal_def stores_distinct_def
        stored_proposal.defs st.dom_distinct_insert)
next
  case (ProposalRejected eid t i why)
  with assms show ?thesis
    by (auto simp: dispatch_def applyProposalRejected_def intro!: proposal_put_distinct split: option.split)
       (auto simp: stores_distinct_def)
next
  case (ProposalSuperseded eid t i b why)
  with assms show ?thesis
    by (auto simp: dispatch_def applyProposalSuperseded_def intro!: proposal_put_distinct split: option.split)
       (auto simp: stores_distinct_def)
next
  case (ObjectAccepted eid t ob)
  with assms show ?thesis
    by (auto simp: dispatch_def applyObjectAccepted_def intro!: mark_accepted_distinct objects_put_distinct split: option.split)
next
  case (ObjectCorrected c)
  with assms show ?thesis
    by (auto simp: dispatch_def applyObjectCorrected_def intro!: commitPlan_distinct split: option.split correction_outcome.split)
next
  case (RelationAdded eid t r)
  moreover from assms have "stores_distinct (s\<lparr>relations := relations s @ [r]\<rparr>)" by (simp add: stores_distinct_def)
  ultimately show ?thesis
    using assms by (auto simp: dispatch_def applyRelationAdded_def intro!: effects_distinct split: option.split)
qed

lemma reachable_distinct: "folds U xs s \<Longrightarrow> stores_distinct s"
proof (induction rule: folds.induct)
  case start
  then show ?case by (simp add: stores_distinct_def emptyState_def keys_def get_def)
next
  case (step xs s x)
  from dispatch_distinct [OF step.IH, of U x] show ?case
    by (simp add: stores_distinct_def consume_simps)
qed

text \<open>Every item carries the id of its person, subject and class.\<close>

definition own_id :: "computed_item \<Rightarrow> bool" where
  "own_id x \<longleftrightarrow> item_id x = attentionItemId (item_userId x) (item_subjectKind x) (item_objectId x) (asc (class_name (item_class x)))"

lemma own_id_inj:
  "own_id x \<Longrightarrow> own_id y \<Longrightarrow> item_id x = item_id y \<Longrightarrow>
     item_userId x = item_userId y \<and> item_subjectKind x = item_subjectKind y \<and> item_objectId x = item_objectId y \<and>
     item_class x = item_class y"
  by (simp add: own_id_def)

lemma own_ids:
  "x \<in> set (projected_items (proposal_source U ctx r)) \<Longrightarrow> own_id x"
  "x \<in> set (commitment_item ctx o') \<Longrightarrow> own_id x"
  "x \<in> set (projected_items (blockingQuestionItems s ctx)) \<Longrightarrow> own_id x"
  "x \<in> set (projected_items (mentionItems ctx)) \<Longrightarrow> own_id x"
proof -
  assume x: "x \<in> set (projected_items (proposal_source U ctx r))"
  then show "own_id x" by (rule source_items) (use x in \<open>auto simp: own_id_def\<close>)
next
  assume "x \<in> set (commitment_item ctx o')"
  then show "own_id x"
    by (cases "object_payload (object o')") (auto simp: commitment_item_def own_id_def Let_def split: if_splits)
next
  assume "x \<in> set (projected_items (blockingQuestionItems s ctx))"
  then have "(\<exists>m. x \<in> set (named_candidates s ctx m)) \<or> (\<exists>r. x \<in> set (blocking_candidates s ctx r))"
    by (auto simp: blockingQuestionItems_def dest!: subsetD [OF push_unseen_ids(1)])
  then have "\<exists>q w u. x = question_item ctx q w u" using named_candidate blocking_candidate by blast
  then show "own_id x" by (auto simp: own_id_def question_item_def)
next
  assume "x \<in> set (projected_items (mentionItems ctx))"
  then have "\<exists>m. x = mention_item ctx m"
    by (auto simp: mentionItems_def dest!: subsetD [OF push_unseen_ids(1)])
  then show "own_id x" by (auto simp: own_id_def mention_item_def Let_def)
qed

lemma distinct_concat_subjects:
  assumes "distinct ks" "\<And>k. k \<in> set ks \<Longrightarrow> distinct (map item_id (g k))"
    and "\<And>k x. k \<in> set ks \<Longrightarrow> x \<in> set (g k) \<Longrightarrow> own_id x \<and> item_objectId x = k"
  shows "distinct (map item_id (concat (map g ks)))"
  using assms
proof (induction ks)
  case (Cons k ks)
  then have "item_id x \<noteq> item_id y" if "x \<in> set (g k)" "k' \<in> set ks" "y \<in> set (g k')" for x y k'
    using that own_id_inj by (metis distinct.simps(2) list.set_intros)
  with Cons show ?case by (auto simp: disjoint_iff)
qed simp

lemma roster_distinct:
  "(\<And>room us. get (members ctx) room = Some us \<Longrightarrow> distinct us) \<Longrightarrow> distinct (roster ctx room)"
  by (auto simp: roster_def split: option.split)

lemma source_distinct:
  assumes "\<And>room us. get (members ctx) room = Some us \<Longrightarrow> distinct us"
  shows "distinct (map item_id (projected_items (proposal_source U ctx r)))"
proof (cases "projected_items (proposal_source U ctx r)")
  case (Cons i "is")
  then have "i \<in> set (projected_items (proposal_source U ctx r))" by simp
  then obtain c n w us where m: "projected_items (proposal_source U ctx r) = map (proposal_item ctx (proposal r) c n w) us"
      "us = roster ctx (proposal_roomId (proposal r)) \<or> (\<exists>u. us = [u])" by (rule source_items)
  from m(2) roster_distinct [OF assms] have "distinct us" by auto
  then show ?thesis by (simp add: m(1) distinct_map inj_on_def)
qed simp

lemma source_classes:
  assumes "x \<in> set (projected_items (proposal_source U ctx r))"
  shows "item_class x = NeedsDecision \<or> item_class x = OwnedCommitment"
  using assms by (rule source_items) (use assms in auto)

lemma sortAttention_distinct [simp]: "distinct (map item_id (sortAttention xs)) = distinct (map item_id xs)"
  by (intro mset_eq_imp_distinct_iff) (simp add: sortAttention_def)

lemma commitment_ids_distinct:
  assumes "distinct (keys os)" "\<And>k r. get os k = Some r \<Longrightarrow> wf_object k r"
  shows "distinct (map item_id (concat (map (\<lambda>i. case get os i of None \<Rightarrow> [] | Some r \<Rightarrow> commitment_item ctx r) (sort (keys os)))))"
proof (rule distinct_concat_subjects)
  fix k assume "k \<in> set (sort (keys os))"
  show "distinct (map item_id (case get os k of None \<Rightarrow> [] | Some r \<Rightarrow> commitment_item ctx r))"
    by (auto simp: commitment_item_def Let_def split: option.split payload.split)
  fix x assume "x \<in> set (case get os k of None \<Rightarrow> [] | Some r \<Rightarrow> commitment_item ctx r)"
  then obtain r where r: "get os k = Some r" "x \<in> set (commitment_item ctx r)" by (cases "get os k") auto
  then have "item_objectId x = object_id (object r)"
    by (cases "object_payload (object r)") (auto simp: commitment_item_def Let_def split: if_splits)
  with r assms(2) show "own_id x \<and> item_objectId x = k" by (auto simp: own_ids wf_object_def)
qed (use assms(1) in simp)

text \<open>The four sources never meet: their items differ in the kind of subject or in the class.\<close>

lemma sources_apart:
  assumes "distinct (map item_id ps)" "distinct (map item_id cs)" "distinct (map item_id bs)" "distinct (map item_id ms)"
    and "\<And>x. x \<in> set ps \<Longrightarrow> own_id x \<and> item_subjectKind x = OfProposal \<and> item_class x \<noteq> MentionClass"
    and "\<And>x. x \<in> set cs \<Longrightarrow> own_id x \<and> item_subjectKind x = OfObject \<and> item_class x = OwnedCommitment"
    and "\<And>x. x \<in> set bs \<Longrightarrow> own_id x \<and> item_subjectKind x = OfObject \<and> item_class x = BlockingQuestion"
    and "\<And>x. x \<in> set ms \<Longrightarrow> own_id x \<and> item_class x = MentionClass"
  shows "distinct (map item_id (ps @ cs @ bs @ ms))"
proof -
  have "item_id x \<noteq> item_id y" if "x \<in> set ps" "y \<in> set cs \<union> set bs \<union> set ms" for x y
    using own_id_inj [of x y] assms(5) [OF that(1)] assms(6-8) [of y] that(2) by auto
  moreover have "item_id x \<noteq> item_id y" if "x \<in> set cs" "y \<in> set bs \<union> set ms" for x y
    using own_id_inj [of x y] assms(6) [OF that(1)] assms(7,8) [of y] that(2) by auto
  moreover have "item_id x \<noteq> item_id y" if "x \<in> set bs" "y \<in> set ms" for x y
    using own_id_inj [of x y] assms(7) [OF that(1)] assms(8) [OF that(2)] by auto
  ultimately show ?thesis using assms(1-4) by (auto simp: disjoint_iff)
qed

text \<open>
  The panel holds one item per person, subject and class, hardest first.  In every state the reducer can return,
  and whatever signals a caller supplies, the items computed have distinct ids as long as no roster names
  a member twice, and they are sorted by priority, then age, person and id.
\<close>

theorem panel_ids_distinct:
  assumes "\<And>room us. get (members ctx) room = Some us \<Longrightarrow> distinct us"
  shows "distinct (map item_id (projected_items (projectAttention U (reduce U rows) ctx))) \<and>
    sorted (map attention_key (projected_items (projectAttention U (reduce U rows) ctx)))"
proof
  let ?s = "reduce U rows"
  from reduce_folds obtain xs where xs: "folds U xs ?s" by blast
  note wf = wf.holds [OF xs] and st = reachable_distinct [OF xs, unfolded stores_distinct_def]
  let ?P = "concat (map (\<lambda>pid. case get (proposals ?s) pid of None \<Rightarrow> []
      | Some r \<Rightarrow> projected_items (proposal_source U ctx r)) (sort (keys (proposals ?s))))"
  let ?C = "concat (map (\<lambda>i. case get (objects ?s) i of None \<Rightarrow> [] | Some r \<Rightarrow> commitment_item ctx r) (sort (keys (objects ?s))))"
  let ?B = "projected_items (blockingQuestionItems ?s ctx)" and ?M = "projected_items (mentionItems ctx)"
  have "distinct (map item_id ?P)"
    using st source_distinct [OF assms] source_subjects(1) own_ids(1)
    by (intro distinct_concat_subjects) (auto split: option.splits)
  moreover have "distinct (map item_id ?C)"
    using st wf by (intro commitment_ids_distinct) auto
  moreover have "distinct (map item_id ?B)" "distinct (map item_id ?M)"
    by (simp_all add: blockingQuestionItems_def mentionItems_def push_unseen_ids)
  moreover have P: "own_id x \<and> item_subjectKind x = OfProposal \<and> item_class x \<noteq> MentionClass" if "x \<in> set ?P" for x
  proof -
    from that obtain r where r: "x \<in> set (projected_items (proposal_source U ctx r))" by (auto split: option.split_asm)
    from own_ids(1) [OF r] source_subjects(1) [OF r] source_classes [OF r] show ?thesis by auto
  qed
  moreover have C: "own_id x \<and> item_subjectKind x = OfObject \<and> item_class x = OwnedCommitment" if "x \<in> set ?C" for x
  proof -
    from that obtain r where r: "x \<in> set (commitment_item ctx r)" by (auto split: option.split_asm)
    from own_ids(2) [OF r] commitment_items_kind [OF r] show ?thesis by simp
  qed
  moreover have B: "own_id x \<and> item_subjectKind x = OfObject \<and> item_class x = BlockingQuestion" if "x \<in> set ?B" for x
    using own_ids(3) [OF that] question_items_kind [OF that] by simp
  moreover have M: "own_id x \<and> item_class x = MentionClass" if "x \<in> set ?M" for x
    using own_ids(4) [OF that] mention_items_kind [OF that] by simp
  ultimately have "distinct (map item_id (?P @ ?C @ ?B @ ?M))" by (rule sources_apart)
  moreover have "projected_items (projectAttention U ?s ctx) = sortAttention (?P @ ?C @ ?B @ ?M)"
    by (simp add: projectAttention_def join_sources_def proposalItems_def commitmentItems_def Let_def o_def
        option.case_distrib [of projected_items] cong: option.case_cong)
  ultimately show "distinct (map item_id (projected_items (projectAttention U ?s ctx)))" by simp
  show "sorted (map attention_key (projected_items (projectAttention U ?s ctx)))"
    by (simp add: projectAttention_def sortAttention_def Let_def)
qed

section \<open>The properties at work\<close>

text \<open>Bob stages a promise in Ann's name; Ann holds an open commitment; both are members of the room.\<close>

definition staged_promise :: proposal_record where
  "staged_promise = \<lparr>proposal = \<lparr>proposal_id = asc ''p1'', proposal_roomId = asc ''room'', confidence = 1,
       proposer = ByHuman (asc ''bob''), cites = [], quote = None, proposal_interpretationId = None,
       proposal_payload = CommitmentPayload (asc ''ship it'') (asc ''ann'') None CommitmentOpen,
       proposal_createdAt = sample_time ''00''\<rparr>,
     stagedBy = Human (asc ''bob''), status = Proposed, acceptedObjectId = None, rejectedReason = None,
     supersededByProposalId = None, supersededReason = None\<rparr>"

definition promise_state :: core_state where
  "promise_state = emptyState\<lparr>proposals := [(asc ''p1'', staged_promise)]\<rparr>"

definition settled_state :: core_state where
  "settled_state = emptyState\<lparr>proposals := [(asc ''p1'', staged_promise\<lparr>status := Rejected\<rparr>)]\<rparr>"

definition panel_context :: attention_context where
  "panel_context = (bare_context (sample_time ''40''))\<lparr>members := [(asc ''room'', [asc ''ann'', asc ''bob''])]\<rparr>"

definition confirm_item :: attention_item where
  "confirm_item = attention_item.truncate (proposal_item panel_context (proposal staged_promise) OwnedCommitment
     prio_commitment_confirm (CommitmentConfirm (asc ''ship it'')) (asc ''ann''))"

theorem staged_proposal_accounted_witness:
  "(\<exists>i \<in> set (projected_items (projectAttention ascii promise_state panel_context)).
      item_objectId i = asc ''p1'' \<and> item_subjectKind i = OfProposal) \<or>
   (\<exists>f \<in> set (refusals (projectAttention ascii promise_state panel_context)). refused_proposalId f = asc ''p1'') \<or>
   visibility (decideAcceptance ascii (proposal staged_promise) (engine_context panel_context)) \<noteq> NeedsYou \<and>
     staged_examination (proposal staged_promise) OwnedCommitment \<in> set (examined (projectAttention ascii promise_state panel_context))"
  using staged_proposal_accounted [of promise_state "asc ''p1''" staged_promise ascii panel_context]
  by (simp add: promise_state_def get_def staged_promise_def proposal_class_def proposal_type_def)

theorem panel_asks_what_the_engine_asks_witness:
  "\<exists>pid r. get (proposals promise_state) pid = Some r \<and> status r = Proposed \<and> proposal_id (proposal r) = asc ''p1''"
proof -
  have "map item_objectId (projected_items (projectAttention ascii promise_state panel_context)) = [asc ''p1''] \<and>
    map item_subjectKind (projected_items (projectAttention ascii promise_state panel_context)) = [OfProposal] \<and>
    map item_class (projected_items (projectAttention ascii promise_state panel_context)) = [OwnedCommitment]" by code_simp
  then obtain i where "projected_items (projectAttention ascii promise_state panel_context) = [i]"
    "item_objectId i = asc ''p1''" "item_subjectKind i = OfProposal" "item_class i = OwnedCommitment" by auto
  then show ?thesis
    using panel_asks_what_the_engine_asks [of i ascii promise_state panel_context] by (metis attention_class.distinct(7) list.set_intros(1))
qed

theorem reconcile_law_witness:
  "\<exists>e' \<in> set (reconcileAttention [confirm_item] (projectAttention ascii emptyState panel_context)).
     item_id e' = item_id confirm_item \<and> item_status e' = ItemPending"
proof -
  have "examined (projectAttention ascii emptyState panel_context) = []" by code_simp
  then show ?thesis
    using reconcile_law [of "[confirm_item]" confirm_item "projectAttention ascii emptyState panel_context"]
    by (simp add: confirm_item_def proposal_item_def attention_item.defs)
qed

theorem cycle_settles_only_what_it_saw_witness:
  "\<exists>pid r. get (proposals settled_state) pid = Some r \<and> proposal_id (proposal r) = asc ''p1''"
proof -
  have "map item_id (reconcileAttention [confirm_item] (projectAttention ascii settled_state panel_context)) = [item_id confirm_item] \<and>
    map item_status (reconcileAttention [confirm_item] (projectAttention ascii settled_state panel_context)) = [Resolved]" by code_simp
  then obtain e' where "reconcileAttention [confirm_item] (projectAttention ascii settled_state panel_context) = [e']"
    "item_id e' = item_id confirm_item" "item_status e' = Resolved" by auto
  then show ?thesis
    using cycle_settles_only_what_it_saw [of "[confirm_item]" confirm_item e' ascii settled_state panel_context]
    by (auto simp: confirm_item_def proposal_item_def attention_item.defs staged_promise_def)
qed

definition commitment_rows :: "raw_row list" where
  "commitment_rows = [accept_row ''ann'' ''01'' ''c1''
     (CommitmentPayload (asc ''ship it'') (asc ''ann'') (Some (sample_time ''30'')) CommitmentOpen)]"

definition sample_instant :: instant where
  "sample_instant = \<lparr>year = 2026, month = 1, day = 1, hour = 0, minute = 0, sec = 40, millis = 0\<rparr>"

theorem open_commitment_on_panel_witness:
  "\<exists>x \<in> set (projected_items (projectAttention ascii (reduce ascii commitment_rows) panel_context)).
     item_userId x = asc ''ann'' \<and> item_objectId x = asc ''c1''"
proof -
  have "map_option (\<lambda>r. (object_payload (object r), retractedAt r, supersededById r))
      (get (objects (reduce ascii commitment_rows)) (asc ''c1'')) =
    Some (CommitmentPayload (asc ''ship it'') (asc ''ann'') (Some (sample_time ''30'')) CommitmentOpen, None, None)"
    by code_simp
  then obtain r where "get (objects (reduce ascii commitment_rows)) (asc ''c1'') = Some r" "retractedAt r = None"
    "supersededById r = None" "object_payload (object r) =
      CommitmentPayload (asc ''ship it'') (asc ''ann'') (Some (sample_time ''30'')) CommitmentOpen" by auto
  moreover have "now panel_context = iso_string sample_instant" "real_instant sample_instant" by code_simp+
  ultimately show ?thesis using open_commitment_on_panel [of ascii commitment_rows "asc ''c1''" r] by blast
qed

theorem panel_ids_distinct_witness:
  "distinct (map item_id (projected_items (projectAttention ascii (reduce ascii commitment_rows) panel_context)))"
  by (rule panel_ids_distinct [THEN conjunct1]) (auto simp: panel_context_def get_def split: if_splits)

end
