(* ===== verification/Corrections.thy ===== *)
theory Corrections
  imports Panel
begin

text \<open>
  \<open>corrections.ts\<close>: reading the correction log back.  The chains of corrections of an object, its history, the
  counterexamples handed to the interpreter and the correction rates.  A counterexample carries what its
  sentence says; the sentence itself is left out.
\<close>

section \<open>Chains and histories\<close>

definition correctionChain :: "core_state \<Rightarrow> jstr \<Rightarrow> correction_record list" where
  "correctionChain s i = filter (\<lambda>c. correction_objectId c = i) (corrections s)"

definition add_to_chain :: "correction_record list store \<Rightarrow> correction_record \<Rightarrow> correction_record list store" where
  "add_to_chain out c = put (correction_objectId c)
     ((case get out (correction_objectId c) of None \<Rightarrow> [] | Some chain \<Rightarrow> chain) @ [c]) out"

definition correctionChains :: "core_state \<Rightarrow> correction_record list store" where
  "correctionChains s = foldl add_to_chain [] (corrections s)"

record object_history =
  history_record :: object_record
  history_corrections :: "correction_record list"
  history_retractedAt :: "jstr option"
  history_supersededById :: "jstr option"
  priorAnswers :: "jstr list"
  history_revision :: nat

definition objectHistory :: "core_state \<Rightarrow> jstr \<Rightarrow> object_history option" where
  "objectHistory s i = map_option (\<lambda>r. \<lparr>history_record = r, history_corrections = correctionChain s i,
     history_retractedAt = retractedAt r, history_supersededById = supersededById r,
     priorAnswers = reopenedFromAnswers r, history_revision = revision r\<rparr>) (get (objects s) i)"

definition tombstoned :: "core_state \<Rightarrow> object_record list" where
  "tombstoned s = filter (\<lambda>r. retractedAt r \<noteq> None)
     (concat (map (\<lambda>i. case get (objects s) i of None \<Rightarrow> [] | Some r \<Rightarrow> [r]) (sort (keys (objects s)))))"

section \<open>Counterexamples\<close>

definition INSTRUCTIVE_ACTIONS :: "correction_action list" where
  "INSTRUCTIVE_ACTIONS = [Retype, Reattribute, Retract, Amend, Reopen]"

record counterexample_query =
  query_types :: "accepted_type list option"
  query_actions :: "correction_action list option"
  query_limit :: "int option"

text \<open>\<open>asRecord\<close> of what a correction logged.\<close>

fun snapshot_fields :: "snapshot \<Rightarrow> fields" where
  "snapshot_fields (SPayload p) = payload_fields p"
| "snapshot_fields (STyped ty p) = [(asc ''type'', jstring (type_name ty)), (asc ''payload'', payload_json p)]"
| "snapshot_fields (SRetracted b) = [(asc ''retracted'', JBool b)]"
| "snapshot_fields (SAnswered ids) = [(asc ''status'', jstring ''answered''), (asc ''answeredBy'', JArr (map JStr ids))]"
| "snapshot_fields (SReopened ids) = [(asc ''status'', jstring ''open''), (asc ''priorAnswers'', JArr (map JStr ids))]"
| "snapshot_fields (SStatus cs) = [(asc ''status'', jstring (commitment_status_name cs))]"

definition objectText :: "core_state \<Rightarrow> correction_record \<Rightarrow> jstr" where
  "objectText s c =
     (case field (snapshot_fields (correction_before c)) (TEXT_FIELD (correction_objectType c)) of
        Some (JStr (x # xs)) \<Rightarrow> x # xs
      | _ \<Rightarrow> (case get (objects s) (correction_objectId c) of
          None \<Rightarrow> correction_objectId c
        | Some r \<Rightarrow> (case field (payload_fields (object_payload (object r))) (TEXT_FIELD (object_type (object r))) of
            Some (JStr t) \<Rightarrow> t | _ \<Rightarrow> correction_objectId c)))"

datatype lesson =
    MisreadType accepted_type "jstr option" jstr
  | Misattributed accepted_type "json option" "json option" jstr
  | ShouldNotHaveBeenRead accepted_type jstr
  | NotSettled accepted_type jstr
  | Worded accepted_type jstr jstr
  | OtherwiseCorrected accepted_type jstr fields fields
  | WasRestored accepted_type jstr

definition counterexampleText :: "core_state \<Rightarrow> correction_record \<Rightarrow> lesson" where
  "counterexampleText s c =
     (let before = snapshot_fields (correction_before c); after = snapshot_fields (correction_after c);
          ty = correction_objectType c; subject = objectText s c in
      case correction_action c of
        Retype \<Rightarrow> MisreadType ty (case field after ''type'' of Some (JStr t) \<Rightarrow> Some t | _ \<Rightarrow> None) subject
      | Reattribute \<Rightarrow> (case ATTRIBUTION_FIELD ty of
            None \<Rightarrow> Misattributed ty None None subject
          | Some f \<Rightarrow> Misattributed ty (field before f) (field after f) subject)
      | Retract \<Rightarrow> ShouldNotHaveBeenRead ty subject
      | Reopen \<Rightarrow> NotSettled ty subject
      | Amend \<Rightarrow> (case (field before (TEXT_FIELD ty), field after (TEXT_FIELD ty)) of
            (Some (JStr was), Some (JStr is)) \<Rightarrow>
              if was \<noteq> is then Worded ty was is else OtherwiseCorrected ty subject before after
          | _ \<Rightarrow> OtherwiseCorrected ty subject before after)
      | Restore \<Rightarrow> WasRestored ty subject)"

record counterexample =
  example_objectId :: jstr
  example_objectType :: accepted_type
  example_action :: correction_action
  example_at :: jstr
  example_text :: lesson
  example_note :: "jstr option"

definition counterexample_of :: "core_state \<Rightarrow> correction_record \<Rightarrow> counterexample" where
  "counterexample_of s c = \<lparr>example_objectId = correction_objectId c, example_objectType = correction_objectType c,
     example_action = correction_action c, example_at = correction_at c, example_text = counterexampleText s c,
     example_note = correction_note c\<rparr>"

definition teaches :: "counterexample_query \<Rightarrow> correction_record \<Rightarrow> bool" where
  "teaches q c \<longleftrightarrow>
     correction_action c \<in> set (case query_actions q of None \<Rightarrow> INSTRUCTIVE_ACTIONS | Some as \<Rightarrow> as) \<and>
     (case query_types q of None \<Rightarrow> True | Some tys \<Rightarrow> tys = [] \<or> correction_objectType c \<in> set tys)"

text \<open>The loop runs from the newest correction down and stops at the limit.\<close>

fun collect_examples :: "core_state \<Rightarrow> counterexample_query \<Rightarrow> int \<Rightarrow> correction_record list \<Rightarrow> counterexample list \<Rightarrow>
    counterexample list" where
  "collect_examples s q limit [] out = out"
| "collect_examples s q limit (c # cs) out =
     (if \<not> int (length out) < limit then out
      else if \<not> teaches q c then collect_examples s q limit cs out
      else collect_examples s q limit cs (out @ [counterexample_of s c]))"

definition correctionCounterexamples :: "core_state \<Rightarrow> counterexample_query \<Rightarrow> counterexample list" where
  "correctionCounterexamples s q = collect_examples s q (case query_limit q of None \<Rightarrow> 5 | Some n \<Rightarrow> n) (rev (corrections s)) []"

section \<open>Rates\<close>

record correction_rate =
  rate_accepted :: nat
  rate_corrected :: nat
  rate :: rat

definition corrected_types :: "core_state \<Rightarrow> accepted_type store" where
  "corrected_types s = foldl (\<lambda>m c. put (correction_objectId c) (correction_objectType c) m) [] (corrections s)"

definition correctionRateByType :: "core_state \<Rightarrow> accepted_type \<Rightarrow> correction_rate" where
  "correctionRateByType s ty =
     (let a = length (filter (\<lambda>(i, r). object_type (object r) = ty) (objects s));
          c = length (filter (\<lambda>(i, t). t = ty) (corrected_types s))
      in \<lparr>rate_accepted = a, rate_corrected = c, rate = (if a = 0 then 0 else of_nat c / of_nat a)\<rparr>)"

text \<open>A room in which one decision is reworded and another is retyped.\<close>

definition retype_row :: "string \<Rightarrow> string \<Rightarrow> string \<Rightarrow> accepted_type \<Rightarrow> fields \<Rightarrow> raw_row" where
  "retype_row u tm i ty fs =
     (event_json (ObjectCorrected \<lparr>corrected_id = asc (''e'' @ tm), corrected_at = sample_time tm,
        corrected_objectId = asc i, corrected_action = Retype, patch = fs, toType = Some ty,
        corrected_provenance = emptyProvenance, corrected_note = None\<rparr>), by_human u)"

definition retyped_rows :: "raw_row list" where
  "retyped_rows =
     [accept_row ''ann'' ''01'' ''d1'' (decision ''use x''),
      accept_row ''ann'' ''02'' ''d2'' (decision ''use y''),
      correct_row ''ann'' ''03'' ''d1'' Amend [(asc ''statement'', jstring ''use z'')],
      retype_row ''ann'' ''04'' ''d2'' OpenQuestion []]"

definition retracted_rows :: "raw_row list" where
  "retracted_rows =
     [accept_row ''ann'' ''01'' ''k2'' (ClaimPayload (asc ''it is small'') (asc ''ann'') Unverified),
      correct_row ''ann'' ''02'' ''k2'' Retract []]"

section \<open>Lemmas\<close>

lemma chains_fold:
  "get (foldl add_to_chain out cs) i =
     (case (get out i, filter (\<lambda>c. correction_objectId c = i) cs) of
        (None, []) \<Rightarrow> None | (None, xs) \<Rightarrow> Some xs | (Some old, xs) \<Rightarrow> Some (old @ xs))"
  by (induction cs arbitrary: out) (auto simp: add_to_chain_def split: option.splits list.splits)

lemma collect_examples_take:
  "collect_examples s q limit cs out =
     out @ map (counterexample_of s) (take (nat (limit - int (length out))) (filter (teaches q) cs))"
proof (induction cs arbitrary: out)
  case (Cons c cs)
  show ?case
  proof (cases "int (length out) < limit")
    case True
    then have "nat (limit - int (length out)) = Suc (nat (limit - int (length out) - 1))" by simp
    with True Cons show ?thesis by (simp add: algebra_simps)
  qed simp
qed simp

section \<open>What the log explains\<close>

text \<open>
  An attribute of a record that acceptance starts and only corrections change is the fold of the object's
  chain.
\<close>

locale explained_by_log =
  fixes attribute :: "object_record \<Rightarrow> 'a" and initially :: 'a and after :: "'a \<Rightarrow> correction_record \<Rightarrow> 'a"
  assumes kept: "bookkept r r' \<Longrightarrow> attribute r' = attribute r"
    and started: "attribute (accepted_record t ob a) = initially"
    and corrected: "planCorrection s c r = Planned p \<Longrightarrow>
      attribute (corrected_record c r a (lapse_plan (object r) p)) =
        after (attribute r) (correction_entry c r a (lapse_plan (object r) p))"
begin

lemma explained_step:
  assumes IH: "\<And>i r. get (objects s) i = Some r \<Longrightarrow> attribute r = foldl after initially (correctionChain s i)"
    and log: "corrections_ok s" and ids: "\<And>i r. get (objects s) i = Some r \<Longrightarrow> object_id (object r) = i"
    and r': "get (objects (fst (dispatch U s x))) i = Some r'"
  shows "attribute r' = foldl after initially (correctionChain (fst (dispatch U s x)) i)"
  using corrections_change [of U s x]
proof (elim disjE exE conjE)
  assume same: "corrections (fst (dispatch U s x)) = corrections s"
  then have chain: "correctionChain (fst (dispatch U s x)) i = correctionChain s i" by (simp add: correctionChain_def)
  from object_change [OF r'] show ?thesis
  proof (elim disjE exE conjE)
    fix r assume "get (objects s) i = Some r" "bookkept r r'"
    then show ?thesis by (simp add: IH kept chain)
  next
    assume a: "accepts U s x i r'"
    then have "correctionChain s i = []"
      using log by (auto simp: accepts_def correctionChain_def corrections_ok_def filter_empty_conv)
    with a show ?thesis by (auto simp: accepts_def started chain)
  next
    fix r assume "corrects s x i r r'"
    then show ?thesis using same corrected_logs by blast
  qed
next
  fix c r p
  assume r: "get (objects s) (corrected_objectId c) = Some r" and p: "planCorrection s c r = Planned p"
    and log': "corrections (fst (dispatch U s x)) = corrections s @ [correction_entry c r (actor x) (lapse_plan (object r) p)]"
    and book: "store_bookkept (put (corrected_objectId c) (corrected_record c r (actor x) (lapse_plan (object r) p)) (objects s))
      (objects (fst (dispatch U s x)))"
  from book r' obtain q where q: "get (put (corrected_objectId c)
      (corrected_record c r (actor x) (lapse_plan (object r) p)) (objects s)) i = Some q" "bookkept q r'"
    by (auto simp: store_bookkept_def)
  have "correctionChain (fst (dispatch U s x)) i = correctionChain s i @
      (if i = corrected_objectId c then [correction_entry c r (actor x) (lapse_plan (object r) p)] else [])"
    using ids [OF r] by (simp add: correctionChain_def log' correction_entry_def)
  with q kept [OF q(2)] IH [OF r] IH corrected [OF p, of "actor x"] show ?thesis by (auto split: if_splits)
qed

lemma explained:
  "folds U xs s \<Longrightarrow> get (objects s) i = Some r \<Longrightarrow> attribute r = foldl after initially (correctionChain s i)"
proof (induction arbitrary: i r rule: folds.induct)
  case start
  then show ?case by (simp add: emptyState_def)
next
  case (step xs s x)
  have "attribute r = foldl after initially (correctionChain (fst (dispatch U s x)) i)"
  proof (rule explained_step)
    show "corrections_ok s" using step.hyps(1) by (rule corrections_ok_reachable)
    show "object_id (object r) = i" if "get (objects s) i = Some r" for i r
      using wf.holds [OF step.hyps(1) that] by (simp add: wf_object_def)
  qed (use step in \<open>simp_all add: consume_simps\<close>)
  then show ?case by (simp add: correctionChain_def consume_simps)
qed

end

fun withdrawn_after :: "jstr option \<Rightarrow> correction_record \<Rightarrow> jstr option" where
  "withdrawn_after w c = (case correction_action c of
     Retract \<Rightarrow> Some (correction_at c) | Restore \<Rightarrow> None | _ \<Rightarrow> w)"

fun remembered_after :: "jstr list \<Rightarrow> correction_record \<Rightarrow> jstr list" where
  "remembered_after old c = (case correction_before c of SAnswered answers \<Rightarrow> add_missing old answers | _ \<Rightarrow> old)"

lemmas planners = planCorrection_def planRetype_def planReopen_def planPayloadEdit_def edit_plan_def Let_def

lemma planned_withdrawal:
  assumes "planCorrection s c r = Planned p"
  shows "(case plan_retractedAt p of None \<Rightarrow> w | Some v \<Rightarrow> v) =
    (case corrected_action c of Retract \<Rightarrow> Some (corrected_at c) | Restore \<Rightarrow> None | _ \<Rightarrow> w)"
  using assms by (auto simp: planners split: if_splits option.splits payload.splits correction_action.splits)

lemma planned_memory:
  assumes "planCorrection s c r = Planned p"
  shows "(case afterCommit p of RememberAnswers answers \<Rightarrow> add_missing old answers | _ \<Rightarrow> old) =
    (case plan_before p of SAnswered answers \<Rightarrow> add_missing old answers | _ \<Rightarrow> old)"
  using assms by (auto simp: planners split: if_splits option.splits payload.splits correction_action.splits)

lemma lapse_before: "plan_before (lapse_plan b p) = plan_before p"
  by (cases "object_payload (plan_object p)") (simp_all add: lapse_plan_def Let_def)

interpretation withdrawal: explained_by_log retractedAt None withdrawn_after
  by unfold_locales
     (auto simp: bookkept_facts(8) accepted_record_def corrected_record_def lapse_plan_facts(7) correction_entry_def planned_withdrawal
       split: correction_action.splits)

interpretation revisions: explained_by_log revision 0 "\<lambda>n c. n + 1"
  by unfold_locales (auto simp: bookkept_facts(9) accepted_record_def corrected_record_def)

interpretation memory: explained_by_log reopenedFromAnswers "[]" remembered_after
  by unfold_locales
     (auto simp: bookkept_def accepted_record_def corrected_record_def lapse_plan_facts(8) correction_entry_def planned_memory lapse_before)

section \<open>Counting\<close>

lemma sum_of_type_counts:
  "sum_list (map (\<lambda>ty. length (filter (\<lambda>x. f x = ty) xs)) [Decision, Commitment, OpenQuestion, Claim, Objective]) = length xs"
proof (induction xs)
  case (Cons x xs)
  then show ?case by (cases "f x") simp_all
qed simp

lemma corrected_types_keys:
  "distinct (keys m) \<Longrightarrow> distinct (keys (foldl (\<lambda>m c. put (correction_objectId c) (correction_objectType c) m) m cs))"
  "set (keys (foldl (\<lambda>m c. put (correction_objectId c) (correction_objectType c) m) m cs)) =
     set (keys m) \<union> correction_objectId ` set cs"
  by (induction cs arbitrary: m) (auto simp: st.dom_distinct_insert keys_get get_put split: if_splits)

lemma corrected_types_bound:
  assumes "corrections_ok s"
  shows "length (corrected_types s) \<le> length (objects s)"
proof -
  have "distinct (keys (corrected_types s))" unfolding corrected_types_def
    by (rule corrected_types_keys) (simp add: keys_def)
  moreover have "set (keys (corrected_types s)) \<subseteq> set (keys (objects s))"
    using assms by (auto simp: corrected_types_def corrected_types_keys(2) corrections_ok_def keys_get)
  ultimately have "length (keys (corrected_types s)) \<le> length (keys (objects s))"
    by (metis card_length card_mono distinct_card finite_set le_trans)
  then show ?thesis by (simp add: keys_def)
qed

lemma counted_in_total:
  "sum_list (map (\<lambda>ty. rate_corrected (correctionRateByType s ty)) [Decision, Commitment, OpenQuestion, Claim, Objective]) = length (corrected_types s)"
  "sum_list (map (\<lambda>ty. rate_accepted (correctionRateByType s ty)) [Decision, Commitment, OpenQuestion, Claim, Objective]) = length (objects s)"
  using sum_of_type_counts [of snd "corrected_types s"] sum_of_type_counts [of "\<lambda>x. object_type (object (snd x))" "objects s"]
  by (simp_all add: correctionRateByType_def Let_def case_prod_unfold)

section \<open>Properties\<close>

text \<open>
  The two readings of the log agree.  The table of chains holds, for every object with a correction, the
  chain \<open>correctionChain\<close> reads for it, oldest first, and has no entry for any other id.
\<close>

theorem chains_agree:
  "get (correctionChains s) i = (if correctionChain s i = [] then None else Some (correctionChain s i))"
  by (auto simp: correctionChains_def chains_fold correctionChain_def split: list.split)

text \<open>
  An object's history is its chain.  For every object of a state the reducer can return, the history shows
  as many revisions as the chain has corrections, the object is withdrawn exactly when the last retraction or
  restoration of the chain is a retraction, at that retraction's instant, and the prior answers are the
  answers its reopenings took away, in order and without repeats.
\<close>

theorem history_is_the_chain:
  assumes "objectHistory (reduce U rows) i = Some h"
  shows "history_revision h = length (history_corrections h) \<and>
    history_retractedAt h = foldl withdrawn_after None (history_corrections h) \<and>
    priorAnswers h = foldl remembered_after [] (history_corrections h)"
proof -
  obtain xs where f: "folds U xs (reduce U rows)" using reduce_folds by blast
  from assms obtain r where r: "get (objects (reduce U rows)) i = Some r"
    and h: "history_revision h = revision r" "history_corrections h = correctionChain (reduce U rows) i"
      "history_retractedAt h = retractedAt r" "priorAnswers h = reopenedFromAnswers r"
    by (auto simp: objectHistory_def)
  have count: "foldl (\<lambda>n c. n + 1) n cs = n + length cs" for n :: nat and cs :: "correction_record list"
    by (induction cs arbitrary: n) simp_all
  have "revision r = length (correctionChain (reduce U rows) i)"
    using revisions.explained [OF f r] by (simp only: count)
  with withdrawal.explained [OF f r] memory.explained [OF f r] show ?thesis by (simp add: h)
qed

theorem history_is_the_chain_witness:
  "history_retractedAt (the (objectHistory (reduce ascii retracted_rows) (asc ''k2''))) = Some (sample_time ''02'') \<and>
   foldl withdrawn_after None (history_corrections (the (objectHistory (reduce ascii retracted_rows) (asc ''k2'')))) =
     Some (sample_time ''02'')"
proof -
  have live: "reduce ascii retracted_rows = fst (live_session ascii emptyState retracted_rows)"
    by (rule reduced_live) code_simp
  have h: "map_option history_retractedAt (objectHistory (fst (live_session ascii emptyState retracted_rows)) (asc ''k2'')) =
      Some (Some (sample_time ''02''))" by code_simp
  then obtain h where "objectHistory (reduce ascii retracted_rows) (asc ''k2'') = Some h" "history_retractedAt h = Some (sample_time ''02'')"
    unfolding live [symmetric] by auto
  with history_is_the_chain [OF this(1)] show ?thesis by simp
qed

text \<open>
  Counterexamples are the newest corrections that teach.  The loop returns the first \<open>limit\<close> of the
  corrections the query admits, newest first, and none for a limit of zero or less.
\<close>

theorem counterexamples_newest_first:
  "correctionCounterexamples s q = map (counterexample_of s)
     (take (nat (case query_limit q of None \<Rightarrow> 5 | Some n \<Rightarrow> n)) (filter (teaches q) (rev (corrections s))))"
  by (simp add: correctionCounterexamples_def collect_examples_take)

text \<open>
  Rates are bounded in total and not by type.  Over all types the corrected objects are no more than the
  accepted ones, in every state the reducer can return.  Of one type they can be more: a retype counts against
  the type it left, and the object counts for the type it became.
\<close>

theorem rates_bounded_in_total:
  "sum_list (map (\<lambda>ty. rate_corrected (correctionRateByType (reduce U rows) ty)) [Decision, Commitment, OpenQuestion, Claim, Objective])
     \<le> sum_list (map (\<lambda>ty. rate_accepted (correctionRateByType (reduce U rows) ty)) [Decision, Commitment, OpenQuestion, Claim, Objective]) \<and>
   rate (correctionRateByType (reduce ascii retyped_rows) Decision) = 2"
proof
  obtain xs where f: "folds U xs (reduce U rows)" using reduce_folds by blast
  then show "sum_list (map (\<lambda>ty. rate_corrected (correctionRateByType (reduce U rows) ty)) [Decision, Commitment, OpenQuestion, Claim, Objective])
     \<le> sum_list (map (\<lambda>ty. rate_accepted (correctionRateByType (reduce U rows) ty)) [Decision, Commitment, OpenQuestion, Claim, Objective])"
    unfolding counted_in_total by (intro corrected_types_bound corrections_ok_reachable)
  have "reduce ascii retyped_rows = fst (live_session ascii emptyState retyped_rows)"
    by (rule reduced_live) code_simp
  moreover have "rate (correctionRateByType (fst (live_session ascii emptyState retyped_rows)) Decision) = 2" by code_simp
  ultimately show "rate (correctionRateByType (reduce ascii retyped_rows) Decision) = 2" by simp
qed

end
