(* ===== verification/Routing.thy ===== *)
theory Routing
  imports Escalation
begin

text \<open>
  \<open>escalation.ts\<close>, the pass before any model call: which messages of a window fire a trigger, and whether the
  window goes to the stronger tier.  Text is read up to a cap, so \<open>String#slice\<close> counts UTF-16 code units.
\<close>

section \<open>Text\<close>

text \<open>\<open>slice(0, n)\<close>; a code point outside the BMP that the cut divides leaves its high surrogate.\<close>

fun js_prefix :: "nat \<Rightarrow> jstr \<Rightarrow> jstr" where
  "js_prefix n [] = []"
| "js_prefix n (c # s) =
     (if n = 0 then []
      else if c < 65536 then c # js_prefix (n - 1) s
      else if n = 1 then [55296 + (c - 65536) div 1024 mod 1024]
      else c # js_prefix (n - 2) s)"

definition slice_to :: "nat \<Rightarrow> jstr \<Rightarrow> jstr" where
  "slice_to n s = (if js_length s \<le> n then s else js_prefix n s)"

definition clip :: "nat \<Rightarrow> jstr \<Rightarrow> jstr" where
  "clip limit t = (let flat = trim (replace_all spaces1 (\<lambda>_ _. [32]) t) in
     if js_length flat \<le> limit then flat else slice_to (limit - 1) flat @ [8230])"

section \<open>Reply blockquotes\<close>

definition strip_marker :: "jstr \<Rightarrow> jstr" where
  "strip_marker l = (case dropWhile (\<lambda>c. c = 62) (dropWhile js_space l) of
     [] \<Rightarrow> [] | c # rest \<Rightarrow> if js_space c then rest else c # rest)"

fun collect_blocks :: "jstr list \<Rightarrow> jstr list \<Rightarrow> jstr list \<Rightarrow> jstr list" where
  "collect_blocks blocks current [] = (if current \<noteq> [] then blocks @ [join_lines current] else blocks)"
| "collect_blocks blocks current (l # ls) =
     (if BLOCKQUOTE_LINE l then collect_blocks blocks (current @ [strip_marker l]) ls
      else if trim l = [] \<and> current \<noteq> [] then collect_blocks blocks current ls
      else if current \<noteq> [] then collect_blocks (blocks @ [join_lines current]) [] ls
      else collect_blocks blocks current ls)"

definition replyBlockquotes :: "jstr \<Rightarrow> jstr list" where
  "replyBlockquotes t = filter (\<lambda>b. b \<noteq> []) (map trim (collect_blocks [] [] (break_lines [] t)))"

definition hasReplyBlockquote :: "jstr \<Rightarrow> bool" where
  "hasReplyBlockquote t = list_ex BLOCKQUOTE_LINE (break_lines [] t)"

section \<open>Triggers\<close>

type_synonym escalation_message = provenance_message

datatype trigger_kind = ReplyBlockquote | ConcessionMarker | NamedPersonFuture | AcceptedDecisionOverlap

fun trigger_name :: "trigger_kind \<Rightarrow> string" where
  "trigger_name ReplyBlockquote = ''reply_blockquote''"
| "trigger_name ConcessionMarker = ''concession_marker''"
| "trigger_name NamedPersonFuture = ''named_person_future''"
| "trigger_name AcceptedDecisionOverlap = ''accepted_decision_overlap''"

record trigger =
  trigger_kind :: trigger_kind
  trigger_messageId :: jstr
  trigger_evidence :: jstr
  matched :: "jstr option"

record escalation_config =
  config_minQuoteLength :: nat
  decisionOverlapThreshold :: rat
  decisionOverlapMinTokens :: nat
  maxScanChars :: nat
  maxHistoryScanned :: nat
  maxComparedDecisions :: nat

definition defaultEscalationConfig :: escalation_config where
  "defaultEscalationConfig = \<lparr>config_minQuoteLength = minQuoteLength RECEIPT_POLICY, decisionOverlapThreshold = 1/2,
     decisionOverlapMinTokens = 3, maxScanChars = 20000, maxHistoryScanned = 200, maxComparedDecisions = 200\<rparr>"

definition CONCESSION_MARKERS :: "jstr list" where
  "CONCESSION_MARKERS = [asc ''you are right'', asc ''you'' @ 39 # asc ''re right'', asc ''you were right'',
     asc ''i was wrong'', asc ''i'' @ 39 # asc ''m wrong'', asc ''i am wrong'', asc ''i stand corrected'',
     asc ''my mistake'', asc ''my bad'', asc ''correction'', asc ''corrected'', asc ''actually'', asc ''never mind'',
     asc ''nevermind'', asc ''scratch that'', asc ''disregard that'', asc ''on second thought'', asc ''fair enough'',
     asc ''good point'', asc ''i take that back'', asc ''withdrawn'']"

definition at_name :: re where
  "at_name = Seq (lit ''@'') (many1 (Cls (\<lambda>c. word_char c \<or> c = 45)))"

definition FUTURE_PATTERNS :: "re list" where
  "FUTURE_PATTERNS =
     [seq [at_name, spaces1, alt [lit_i ''will'', lit_i ''should'', lit_i ''can'', lit_i ''could'',
        seq [lit_i ''need'', opt (lit_i ''s''), lit_i '' to''], lit_i ''is going to'', lit_i ''has to'', lit_i ''must'',
        lit_i ''please''], Bound],
      seq [Bound, lit_i ''you'', spaces1, one_of_lits [''will'', ''should'', ''need to'', ''needs to'', ''ought to'',
        ''have to'', ''must'', ''can'', ''could''], Bound],
      seq [Bound, one_of_lits [''can'', ''could'', ''would'', ''will''], spaces1, lit_i ''you'', Bound],
      seq [at_name, opt (Cls (one_of_chars '',:'')), spaces1, one_of_lits [''please'', ''take'', ''handle'', ''own'',
        ''pick up''], Bound],
      seq [Bound, lit_i ''please'', spaces1, one_of_lits [''can'', ''could'', ''take'', ''handle'', ''own'', ''pick up'',
        ''review'', ''land'', ''ship''], Bound]]"

definition STOPWORDS :: "jstr list" where
  "STOPWORDS = map asc [''the'', ''and'', ''for'', ''that'', ''this'', ''with'', ''from'', ''have'', ''has'', ''had'',
     ''not'', ''but'', ''are'', ''was'', ''were'', ''will'', ''would'', ''should'', ''could'', ''can'', ''its'', ''it'',
     ''you'', ''your'', ''our'', ''their'', ''they'', ''them'', ''his'', ''her'', ''she'', ''him'', ''all'', ''any'',
     ''out'', ''get'', ''got'', ''let'', ''lets'', ''into'', ''onto'', ''than'', ''then'', ''there'', ''here'', ''what'',
     ''when'', ''which'', ''who'', ''why'', ''how'', ''been'', ''being'', ''does'', ''did'', ''done'', ''just'', ''also'',
     ''very'', ''more'', ''most'', ''some'', ''such'', ''only'', ''own'', ''same'', ''too'', ''about'']"

definition token_char :: "int \<Rightarrow> bool" where
  "token_char c \<longleftrightarrow> is_digit c \<or> 97 \<le> c \<and> c \<le> 122 \<or> c = 39"

definition contentTokens :: "unicode \<Rightarrow> jstr \<Rightarrow> jstr list" where
  "contentTokens U t = dedup (filter (\<lambda>w. \<not> js_length w < 3 \<and> w \<notin> set STOPWORDS)
     (split_drop (many1 (Cls (\<lambda>c. \<not> token_char c))) (normalizeForRouting U t)))"

definition overlapOf :: "unicode \<Rightarrow> jstr list \<Rightarrow> jstr \<Rightarrow> rat \<times> nat" where
  "overlapOf U have_tokens st = (let wanted = contentTokens U st;
     shared = length (filter (\<lambda>w. w \<in> set have_tokens) wanted) in
     (if length wanted = 0 then 0 else of_nat shared / of_nat (length wanted), shared))"

definition lexicalOverlap :: "unicode \<Rightarrow> jstr \<Rightarrow> jstr \<Rightarrow> rat" where
  "lexicalOverlap U t st = fst (overlapOf U (contentTokens U t) st)"

definition sharedTokenCount :: "unicode \<Rightarrow> jstr \<Rightarrow> jstr \<Rightarrow> nat" where
  "sharedTokenCount U t st = snd (overlapOf U (contentTokens U t) st)"

record decision_ref =
  ref_objectId :: jstr
  ref_statement :: jstr

text \<open>The look-back of \<open>matchEarlier\<close>: newest first, over at most \<open>maxHistoryScanned\<close> messages.\<close>

definition matchEarlier :: "unicode \<Rightarrow> escalation_config \<Rightarrow> jstr \<Rightarrow> escalation_message list \<Rightarrow> jstr option" where
  "matchEarlier U cfg normalized earlier = map_option message_id
     (List.find (\<lambda>m. contains_text (normalizeForRouting U (slice_to (maxScanChars cfg) (body m))) normalized)
        (take (maxHistoryScanned cfg) (rev earlier)))"

definition quote_trigger :: "unicode \<Rightarrow> escalation_config \<Rightarrow> escalation_message \<Rightarrow> jstr \<Rightarrow> escalation_message list \<Rightarrow> trigger list" where
  "quote_trigger U cfg m text earlier =
     (case List.find (\<lambda>q. \<not> js_length (normalizeForRouting U q) < config_minQuoteLength cfg) (replyBlockquotes text) of
        None \<Rightarrow> []
      | Some q \<Rightarrow> [\<lparr>trigger_kind = ReplyBlockquote, trigger_messageId = message_id m, trigger_evidence = clip 120 q,
          matched = matchEarlier U cfg (normalizeForRouting U q) earlier\<rparr>])"

definition concession_trigger :: "unicode \<Rightarrow> escalation_message \<Rightarrow> jstr \<Rightarrow> trigger list" where
  "concession_trigger U m own =
     (case List.find (containsPhrase (normalizeForRouting U own)) CONCESSION_MARKERS of
        Some marker \<Rightarrow> [\<lparr>trigger_kind = ConcessionMarker, trigger_messageId = message_id m, trigger_evidence = marker, matched = None\<rparr>]
      | None \<Rightarrow> (case exec SED_CORRECTION own of
          Some (hit, _) \<Rightarrow> [\<lparr>trigger_kind = ConcessionMarker, trigger_messageId = message_id m, trigger_evidence = hit, matched = None\<rparr>]
        | None \<Rightarrow> []))"

definition future_trigger :: "escalation_message \<Rightarrow> jstr \<Rightarrow> trigger list" where
  "future_trigger m own = (case List.find (\<lambda>p. exec p own \<noteq> None) FUTURE_PATTERNS of
     None \<Rightarrow> []
   | Some p \<Rightarrow> (case exec p own of None \<Rightarrow> []
       | Some (hit, _) \<Rightarrow> [\<lparr>trigger_kind = NamedPersonFuture, trigger_messageId = message_id m, trigger_evidence = trim hit, matched = None\<rparr>]))"

definition overlaps_decision :: "unicode \<Rightarrow> escalation_config \<Rightarrow> jstr list \<Rightarrow> decision_ref \<Rightarrow> bool" where
  "overlaps_decision U cfg tokens d = (case overlapOf U tokens (ref_statement d) of (overlap, shared) \<Rightarrow>
     \<not> overlap < decisionOverlapThreshold cfg \<and> \<not> shared < decisionOverlapMinTokens cfg)"

definition overlap_trigger :: "unicode \<Rightarrow> escalation_config \<Rightarrow> escalation_message \<Rightarrow> jstr \<Rightarrow> decision_ref list \<Rightarrow> trigger list" where
  "overlap_trigger U cfg m own decisions =
     (case List.find (overlaps_decision U cfg (contentTokens U own)) (take (maxComparedDecisions cfg) decisions) of
        None \<Rightarrow> []
      | Some d \<Rightarrow> [\<lparr>trigger_kind = AcceptedDecisionOverlap, trigger_messageId = message_id m,
          trigger_evidence = clip 120 (ref_statement d), matched = Some (ref_objectId d)\<rparr>])"

definition triggersForMessage ::
    "unicode \<Rightarrow> escalation_config \<Rightarrow> escalation_message \<Rightarrow> escalation_message list \<Rightarrow> decision_ref list \<Rightarrow> trigger list" where
  "triggersForMessage U cfg m earlier decisions =
     (let text = slice_to (maxScanChars cfg) (body m); own = stripReplyBlockquotes text in
      quote_trigger U cfg m text earlier @ concession_trigger U m own @ future_trigger m own @
        overlap_trigger U cfg m own decisions)"

section \<open>The verdict\<close>

record escalation_window =
  window_messages :: "escalation_message list"
  priorMessages :: "escalation_message list"
  acceptedDecisions :: "decision_ref list"

record escalation_verdict =
  escalate :: bool
  triggers :: "trigger list"
  kinds :: "trigger_kind list"

fun collect_triggers :: "unicode \<Rightarrow> escalation_config \<Rightarrow> decision_ref list \<Rightarrow> escalation_message list \<Rightarrow>
    escalation_message list \<Rightarrow> trigger list \<Rightarrow> trigger list" where
  "collect_triggers U cfg ds history [] out = out"
| "collect_triggers U cfg ds history (m # ms) out =
     collect_triggers U cfg ds (history @ [m]) ms (out @ triggersForMessage U cfg m history ds)"

definition evaluateEscalation :: "unicode \<Rightarrow> escalation_config \<Rightarrow> escalation_window \<Rightarrow> escalation_verdict" where
  "evaluateEscalation U cfg w =
     (let ts = collect_triggers U cfg (acceptedDecisions w) (priorMessages w) (window_messages w) [] in
      \<lparr>escalate = (ts \<noteq> []), triggers = ts, kinds = sort_key (asc \<circ> trigger_name) (dedup (map trigger_kind ts))\<rparr>)"

text \<open>What the caps let a verdict see of a window.\<close>

definition capped_message :: "escalation_config \<Rightarrow> escalation_message \<Rightarrow> escalation_message" where
  "capped_message cfg m = m\<lparr>body := slice_to (maxScanChars cfg) (body m)\<rparr>"

definition capped :: "escalation_config \<Rightarrow> escalation_window \<Rightarrow> escalation_window" where
  "capped cfg w = \<lparr>window_messages = map (capped_message cfg) (window_messages w),
     priorMessages = rev (take (maxHistoryScanned cfg) (rev (map (capped_message cfg) (priorMessages w)))),
     acceptedDecisions = take (maxComparedDecisions cfg) (acceptedDecisions w)\<rparr>"

section \<open>Lemmas\<close>

lemma js_prefix_length: "js_length (js_prefix n s) \<le> n"
  by (induction n s rule: js_prefix.induct) auto

lemma slice_to_length: "js_length (slice_to n s) \<le> n"
  by (simp add: slice_to_def js_prefix_length)

lemma slice_to_again [simp]: "slice_to n (slice_to n s) = slice_to n s"
  using slice_to_length [of n s] by (simp add: slice_to_def [of n "slice_to n s"])

lemma capped_message_simps [simp]:
  "message_id (capped_message cfg m) = message_id m"
  "slice_to (maxScanChars cfg) (body (capped_message cfg m)) = slice_to (maxScanChars cfg) (body m)"
  by (simp_all add: capped_message_def)

lemma find_map_same: "(\<And>x. P (f x) = P x) \<Longrightarrow> List.find P (map f xs) = map_option f (List.find P xs)"
  by (induction xs) auto

lemma matchEarlier_capped:
  assumes "take (maxHistoryScanned cfg) (rev earlier') = map (capped_message cfg) (take (maxHistoryScanned cfg) (rev earlier))"
  shows "matchEarlier U cfg q earlier' = matchEarlier U cfg q earlier"
  unfolding matchEarlier_def assms by (subst find_map_same) (auto simp: option.map_comp comp_def)

lemma triggers_capped:
  assumes "take (maxHistoryScanned cfg) (rev earlier') = map (capped_message cfg) (take (maxHistoryScanned cfg) (rev earlier))"
  shows "triggersForMessage U cfg (capped_message cfg m) earlier' (take (maxComparedDecisions cfg) ds) =
    triggersForMessage U cfg m earlier ds"
  by (simp add: triggersForMessage_def quote_trigger_def concession_trigger_def future_trigger_def overlap_trigger_def
      Let_def matchEarlier_capped [OF assms] split: option.split)

lemma collect_capped:
  assumes "take (maxHistoryScanned cfg) (rev history') = map (capped_message cfg) (take (maxHistoryScanned cfg) (rev history))"
  shows "collect_triggers U cfg (take (maxComparedDecisions cfg) ds) history' (map (capped_message cfg) ms) out =
    collect_triggers U cfg ds history ms out"
  using assms
proof (induction ms arbitrary: history history' out)
  case (Cons m ms)
  have "take (maxHistoryScanned cfg) (rev (history' @ [capped_message cfg m])) =
      map (capped_message cfg) (take (maxHistoryScanned cfg) (rev (history @ [m])))"
    using arg_cong [OF Cons.prems, of "take (maxHistoryScanned cfg - 1)"]
    by (cases "maxHistoryScanned cfg") (auto simp: take_map min_def)
  from Cons.IH [OF this] show ?case by (simp add: triggers_capped [OF Cons.prems])
qed simp

lemma collect_triggers_append:
  "collect_triggers U cfg ds history ms out = out @ collect_triggers U cfg ds history ms []"
proof (induction ms arbitrary: history out)
  case (Cons m ms)
  show ?case
    using Cons [of "history @ [m]" "out @ triggersForMessage U cfg m history ds"]
      Cons [of "history @ [m]" "triggersForMessage U cfg m history ds"] by simp
qed simp

lemma trigger_shapes:
  "quote_trigger U cfg m t e = [] \<or> (\<exists>x. quote_trigger U cfg m t e = [x] \<and> trigger_kind x = ReplyBlockquote \<and> trigger_messageId x = message_id m)"
  "concession_trigger U m own = [] \<or> (\<exists>x. concession_trigger U m own = [x] \<and> trigger_kind x = ConcessionMarker \<and> trigger_messageId x = message_id m)"
  "future_trigger m own = [] \<or> (\<exists>x. future_trigger m own = [x] \<and> trigger_kind x = NamedPersonFuture \<and> trigger_messageId x = message_id m)"
  "overlap_trigger U cfg m own ds = [] \<or> (\<exists>x. overlap_trigger U cfg m own ds = [x] \<and> trigger_kind x = AcceptedDecisionOverlap \<and> trigger_messageId x = message_id m)"
  by (auto simp: quote_trigger_def concession_trigger_def future_trigger_def overlap_trigger_def split: option.split)

lemma message_triggers:
  shows "distinct (map trigger_kind (triggersForMessage U cfg m earlier ds))"
    and "length (triggersForMessage U cfg m earlier ds) \<le> 4"
    and "x \<in> set (triggersForMessage U cfg m earlier ds) \<Longrightarrow> trigger_messageId x = message_id m"
  using trigger_shapes(1) [of U cfg m "slice_to (maxScanChars cfg) (body m)" earlier]
    trigger_shapes(2) [of U m "stripReplyBlockquotes (slice_to (maxScanChars cfg) (body m))"]
    trigger_shapes(3) [of m "stripReplyBlockquotes (slice_to (maxScanChars cfg) (body m))"]
    trigger_shapes(4) [of U cfg m "stripReplyBlockquotes (slice_to (maxScanChars cfg) (body m))" ds]
  by (auto simp: triggersForMessage_def Let_def)

lemma kinds_any_history:
  "map trigger_kind (triggersForMessage U cfg m earlier ds) = map trigger_kind (triggersForMessage U cfg m earlier' ds)"
  by (simp add: triggersForMessage_def quote_trigger_def Let_def split: option.split)

lemma collect_kinds:
  "map trigger_kind (collect_triggers U cfg ds history ms []) = map trigger_kind (collect_triggers U cfg ds history' ms [])"
proof (induction ms arbitrary: history history')
  case (Cons m ms)
  show ?case
    using Cons [of "history @ [m]" "history' @ [m]"] kinds_any_history [of U cfg m history ds history']
    by (simp add: collect_triggers_append [of U cfg ds _ ms "triggersForMessage U cfg m _ ds"])
qed simp

section \<open>Properties\<close>

text \<open>
  C20. The caps bound what routing reads.  The verdict on a window is the verdict on the window in which every
  message is cut to \<open>maxScanChars\<close>, the prior messages to the newest \<open>maxHistoryScanned\<close> and the decisions to
  the first \<open>maxComparedDecisions\<close>: the same triggers with the same evidence, in the same order.
\<close>

theorem routing_reads_capped: "evaluateEscalation U cfg (capped cfg w) = evaluateEscalation U cfg w"
proof -
  have "collect_triggers U cfg (acceptedDecisions (capped cfg w)) (priorMessages (capped cfg w)) (window_messages (capped cfg w)) [] =
      collect_triggers U cfg (acceptedDecisions w) (priorMessages w) (window_messages w) []"
    unfolding capped_def by (simp only: escalation_window.simps) (rule collect_capped, simp add: rev_map take_map)
  then show ?thesis by (simp add: evaluateEscalation_def)
qed

text \<open>
  The look-back is evidence and not a condition.  Whatever messages came before the window, the decision
  to escalate and the kinds that fired are the same: prior messages only change which message a quote is
  matched to.
\<close>

theorem lookback_is_evidence:
  "escalate (evaluateEscalation U cfg (w\<lparr>priorMessages := prior\<rparr>)) = escalate (evaluateEscalation U cfg w) \<and>
   kinds (evaluateEscalation U cfg (w\<lparr>priorMessages := prior\<rparr>)) = kinds (evaluateEscalation U cfg w)"
  using collect_kinds [of U cfg "acceptedDecisions w" prior "window_messages w" "priorMessages w"]
  by (auto simp: evaluateEscalation_def Let_def dest: arg_cong [of _ _ "\<lambda>xs. xs = []"])

end
