(* ===== verification/Command.thy ===== *)
theory Command
  imports Regex Objects
begin

text \<open>
  \<open>semantic-command.ts\<close>: the authored-command grammar (\<open>/goal\<close>, \<open>/decision\<close>, ...), as the source's
  regular expression reads it, and a reference definition of what it admits.
\<close>

section \<open>The parser\<close>

datatype command_name = GoalCommand | DecisionCommand | QuestionCommand | CommitmentCommand | ClaimCommand

fun command_word :: "command_name \<Rightarrow> string" where
  "command_word GoalCommand = ''goal''"
| "command_word DecisionCommand = ''decision''"
| "command_word QuestionCommand = ''question''"
| "command_word CommitmentCommand = ''commitment''"
| "command_word ClaimCommand = ''claim''"

definition command_names :: "command_name list" where
  "command_names = [GoalCommand, DecisionCommand, QuestionCommand, CommitmentCommand, ClaimCommand]"

definition blank :: "int \<Rightarrow> bool" where
  "blank c \<longleftrightarrow> c = 32 \<or> c = 9"

definition COMMAND :: re where
  "COMMAND = seq [Start, lit ''/'', Cap 1 (alt (map (\<lambda>n. lit (command_word n)) command_names)), many1 (Cls blank),
     Cap 2 (Seq (many (Cls (\<lambda>_. True))) (Cls (\<lambda>c. \<not> js_space c))), many (Cls blank), Finish]"

fun command_payload :: "command_name \<Rightarrow> jstr \<Rightarrow> jstr \<Rightarrow> payload" where
  "command_payload GoalCommand content actorId = ObjectivePayload content ObjectiveOpen"
| "command_payload DecisionCommand content actorId = DecisionPayload content None Active"
| "command_payload QuestionCommand content actorId = OpenQuestionPayload content QuestionOpen"
| "command_payload CommitmentCommand content actorId = CommitmentPayload content actorId None CommitmentOpen"
| "command_payload ClaimCommand content actorId = ClaimPayload content actorId Unverified"

definition parseSemanticCommand :: "jstr \<Rightarrow> jstr \<Rightarrow> (command_name \<times> payload) option" where
  "parseSemanticCommand body actorId = (case exec COMMAND body of
     None \<Rightarrow> None
   | Some (t, caps) \<Rightarrow>
       (let content = trim (group caps 2) in
        if content = [] then None
        else case List.find (\<lambda>n. asc (command_word n) = group caps 1) command_names of
          None \<Rightarrow> None
        | Some n \<Rightarrow> Some (n, command_payload n content actorId)))"

section \<open>What the pattern matches\<close>

lemma ends_chr [simp]: "ends (chr x) (l, r, c) = (case r of [] \<Rightarrow> [] | y # ys \<Rightarrow> if y = x then [(y # l, ys, c)] else [])"
  by (simp add: chr_def)

lemma ends_lit: "m \<in> set (ends (lit w) (l, r, c)) \<longleftrightarrow> (\<exists>u. r = asc w @ u \<and> m = (rev (asc w) @ l, u, c))"
  by (induction w arbitrary: l r) (auto simp: asc_simps split: list.splits)

lemma ex_split_Cons: "(\<exists>t u. x # xs = t @ u \<and> P t u) \<longleftrightarrow> P [] (x # xs) \<or> (\<exists>t u. xs = t @ u \<and> P (x # t) u)"
  by (auto simp: Cons_eq_append_conv)

lemma iterate_Suc:
  "set (iterate g (Suc n) f m) = insert m (\<Union>x \<in> {x \<in> set (f m). shrinks m x}. set (iterate g n f x))"
  by (auto simp: Let_def)

lemma iterate_Cls:
  "length r \<le> n \<Longrightarrow> m \<in> set (iterate g n (ends (Cls p)) (l, r, c)) \<longleftrightarrow>
     (\<exists>t u. r = t @ u \<and> list_all p t \<and> m = (rev t @ l, u, c))"
proof (induction n arbitrary: l r)
  case (Suc n)
  show ?case
  proof (cases r)
    case (Cons x xs)
    have "ends (Cls p) (l, x # xs, c) = (if p x then [(x # l, xs, c)] else [])" by simp
    then have step: "set (iterate g (Suc n) (ends (Cls p)) (l, x # xs, c)) =
        insert (l, x # xs, c) (if p x then set (iterate g n (ends (Cls p)) (x # l, xs, c)) else {})"
      by (simp only: iterate_Suc) (auto simp del: ends.simps iterate.simps)
    have "m \<in> set (iterate g n (ends (Cls p)) (x # l, xs, c)) \<longleftrightarrow>
        (\<exists>t u. xs = t @ u \<and> list_all p t \<and> m = (rev t @ x # l, u, c))"
      using Suc.prems Cons by (intro Suc.IH) simp
    then show ?thesis unfolding Cons step by (simp add: ex_split_Cons [where P = "\<lambda>t u. list_all p t \<and> m = (rev t @ l, u, c)"] del: ends.simps)
  qed (auto simp: Let_def)
qed auto

lemma ends_many: "m \<in> set (ends (many (Cls p)) (l, r, c)) \<longleftrightarrow> (\<exists>t u. r = t @ u \<and> list_all p t \<and> m = (rev t @ l, u, c))"
  by (simp only: many_def ends.simps(5) fst_conv snd_conv iterate_Cls order_refl)

lemma ends_Cls: "m \<in> set (ends (Cls p) (l, r, c)) \<longleftrightarrow> (\<exists>x u. r = x # u \<and> p x \<and> m = (x # l, u, c))"
  by (auto split: list.splits)

lemma ends_Seq: "m \<in> set (ends (Seq a b) m0) \<longleftrightarrow> (\<exists>x \<in> set (ends a m0). m \<in> set (ends b x))"
  by auto

lemma ends_SeqI: "x \<in> set (ends a m0) \<Longrightarrow> m \<in> set (ends b x) \<Longrightarrow> m \<in> set (ends (Seq a b) m0)"
  by auto

lemma bex_triple: "(\<exists>x \<in> A. P x) \<longleftrightarrow> (\<exists>l r c. (l, r, c) \<in> A \<and> P (l, r, c))"
  by auto

lemma ends_Cap:
  "m \<in> set (ends (Cap i a) (l, r, c)) \<longleftrightarrow>
     (\<exists>l' u c'. (l', u, c') \<in> set (ends a (l, r, c)) \<and> m = (l', u, (i, take (length r - length u) r) # c'))"
  by (force simp: consumed_def)

lemma ends_words:
  "m \<in> set (ends (alt (map (\<lambda>n. lit (command_word n)) command_names)) (l, r, c)) \<longleftrightarrow>
     (\<exists>n u. r = asc (command_word n) @ u \<and> m = (rev (asc (command_word n)) @ l, u, c))"
proof -
  have "(\<exists>n. P n) \<longleftrightarrow> P GoalCommand \<or> P DecisionCommand \<or> P QuestionCommand \<or> P CommitmentCommand \<or> P ClaimCommand" for P
    by (metis command_name.exhaust)
  then show ?thesis by (simp add: command_names_def ends_lit del: lit.simps)
qed

lemma command_matches:
  "m \<in> set (ends COMMAND ([], body, [])) \<longleftrightarrow> (\<exists>n ws g ws' l. body = 47 # asc (command_word n) @ ws @ g @ ws' \<and>
     ws \<noteq> [] \<and> list_all blank ws \<and> g \<noteq> [] \<and> \<not> js_space (last g) \<and> list_all blank ws' \<and>
     m = (l, [], [(2, g), (1, asc (command_word n))]) \<and> l = rev body)"
  (is "?lhs \<longleftrightarrow> ?rhs")
proof
  assume ?lhs
  then obtain n u x r1 t r2 a y r3 ws' where
      "body = 47 # asc (command_word n) @ u" "u = x # r1" "blank x" "r1 = t @ r2" "list_all blank t"
      "r2 = a @ y # r3" "\<not> js_space y" "r3 = ws'" "list_all blank ws'"
      "m = (rev body, [], [(2, a @ [y]), (1, asc (command_word n))])"
    unfolding COMMAND_def seq.simps many1_def many_def [symmetric] ends_Seq ends_words
    by (auto simp: ends_lit ends_many ends_Cap ends_Seq ends_words ends_Cls asc_simps simp del: ends.simps(2-7) split: if_splits)
  then show ?rhs
    by (intro exI [of _ n] exI [of _ "x # t"] exI [of _ "a @ [y]"] exI [of _ ws'] exI [of _ "rev body"]) simp
next
  assume ?rhs
  then obtain n ws g ws' where b: "body = 47 # asc (command_word n) @ ws @ g @ ws'" "ws \<noteq> []" "list_all blank ws" "g \<noteq> []"
      "\<not> js_space (last g)" "list_all blank ws'" "m = (rev body, [], [(2, g), (1, asc (command_word n))])" by auto
  obtain x t where ws: "ws = x # t" using b(2) by (cases ws) auto
  obtain a y where g: "g = a @ [y]" using b(4) by (cases g rule: rev_cases) auto
  let ?w = "asc (command_word n)"
  have f1: "([47], ?w @ ws @ g @ ws', []) \<in> set (ends (lit ''/'') ([], body, []))"
    by (simp add: ends_lit b(1) asc_simps del: lit.simps)
  have f2: "(rev ?w @ [47], ws @ g @ ws', [(1, ?w)]) \<in>
      set (ends (Cap 1 (alt (map (\<lambda>n. lit (command_word n)) command_names))) ([47], ?w @ ws @ g @ ws', []))"
    by (simp only: ends_Cap ends_words) auto
  have f3: "(x # rev ?w @ [47], t @ g @ ws', [(1, ?w)]) \<in> set (ends (Cls blank) (rev ?w @ [47], ws @ g @ ws', [(1, ?w)]))"
    using b(3) by (simp add: ws)
  have f4: "(rev t @ x # rev ?w @ [47], g @ ws', [(1, ?w)]) \<in>
      set (ends (many (Cls blank)) (x # rev ?w @ [47], t @ g @ ws', [(1, ?w)]))"
    using b(3) by (auto simp: ends_many ws)
  have f5: "(rev g @ rev t @ x # rev ?w @ [47], ws', [(2, g), (1, ?w)]) \<in>
      set (ends (Cap 2 (Seq (many (Cls (\<lambda>_. True))) (Cls (\<lambda>c. \<not> js_space c)))) (rev t @ x # rev ?w @ [47], g @ ws', [(1, ?w)]))"
    using b(5) by (simp only: ends_Cap ends_Seq bex_triple ends_many ends_Cls) (auto simp: g list_all_iff)
  have f6: "(rev ws' @ rev g @ rev t @ x # rev ?w @ [47], [], [(2, g), (1, ?w)]) \<in>
      set (ends (many (Cls blank)) (rev g @ rev t @ x # rev ?w @ [47], ws', [(2, g), (1, ?w)]))"
    using b(6) by (auto simp: ends_many)
  have end_ok: "(rev body, [], [(2, g), (1, ?w)]) \<in> set (ends Finish (rev ws' @ rev g @ rev t @ x # rev ?w @ [47], [], [(2, g), (1, ?w)]))"
    by (simp add: b(1) ws)
  have start: "([], body, []) \<in> set (ends Start ([], body, []))" by simp
  show ?lhs
    unfolding COMMAND_def seq.simps many1_def many_def [symmetric] b(7)
    by (rule ends_SeqI [OF start ends_SeqI [OF f1 ends_SeqI [OF f2 ends_SeqI [OF ends_SeqI [OF f3 f4]
          ends_SeqI [OF f5 ends_SeqI [OF f6 end_ok]]]]]])
qed

section \<open>The reference\<close>

lemma search_anchored:
  "search (Seq Start p) l r = (if l = [] then case ends p ([], r, []) of [] \<Rightarrow> None | m # _ \<Rightarrow> Some ([], r, m) else None)"
proof -
  have late: "search (Seq Start p) l r = None" if "l \<noteq> []" for l r
    using that by (induction r arbitrary: l) simp_all
  show ?thesis by (cases r) (auto simp: late split: list.splits)
qed

lemma exec_command:
  "exec COMMAND body = None \<longleftrightarrow> ends COMMAND ([], body, []) = []"
  "exec COMMAND body = Some (t, caps) \<Longrightarrow> \<exists>m \<in> set (ends COMMAND ([], body, [])). snd (snd m) = caps"
proof -
  obtain p where p: "COMMAND = Seq Start p" by (simp add: COMMAND_def)
  have e: "ends (Seq Start p) ([], body, []) = ends p ([], body, [])" by simp
  show "exec COMMAND body = None \<longleftrightarrow> ends COMMAND ([], body, []) = []"
    unfolding exec_def p search_anchored e by (cases "ends p ([], body, [])") auto
  show "exec COMMAND body = Some (t, caps) \<Longrightarrow> \<exists>m \<in> set (ends COMMAND ([], body, [])). snd (snd m) = caps"
    unfolding exec_def p search_anchored e by (cases "ends p ([], body, [])") auto
qed

lemma blank_space: "blank c \<Longrightarrow> js_space c"
  by (auto simp: blank_def js_space_def white_space_def)

lemma trim_pad:
  assumes "list_all js_space a" "list_all js_space b"
  shows "trim (a @ g @ b) = trim g"
proof (cases "list_all js_space g")
  case True
  with assms have e: "dropWhile js_space (a @ g @ b) = []" "dropWhile js_space g = []"
    by (auto simp: dropWhile_eq_Nil_conv list_all_iff)
  show ?thesis by (simp only: trim_def e)
next
  case False
  then obtain x where "x \<in> set g" "\<not> js_space x" by (auto simp: list_all_iff)
  with assms show ?thesis
    by (simp add: trim_def list_all_iff dropWhile_append1 dropWhile_append2)
       (metis dropWhile_append2 rev_append set_rev rev_rev_ident dropWhile_append1)
qed

lemma trim_Nil: "trim g = [] \<longleftrightarrow> list_all js_space g"
proof (cases "dropWhile js_space g")
  case Nil
  then show ?thesis by (auto simp: trim_def dropWhile_eq_Nil_conv list_all_iff dest: set_dropWhileD)
next
  case (Cons x xs)
  then have "\<not> js_space x" using hd_dropWhile [of js_space g] by simp
  moreover from Cons have "x \<in> set g" by (metis list.set_intros(1) set_dropWhileD)
  ultimately show ?thesis by (auto simp: trim_def Cons dropWhile_eq_Nil_conv list_all_iff)
qed

text \<open>What a command is: the token, blanks or tabs, some content, and nothing but blanks or tabs after it.\<close>

definition command_reads :: "jstr \<Rightarrow> command_name \<Rightarrow> jstr \<Rightarrow> bool" where
  "command_reads body n rest \<longleftrightarrow> body = 47 # asc (command_word n) @ rest \<and> rest \<noteq> [] \<and> blank (hd rest) \<and>
     trim rest \<noteq> [] \<and> list_all blank (takeWhile js_space (rev rest))"

lemma match_reads:
  assumes "m \<in> set (ends COMMAND ([], body, []))"
  obtains n rest g where "command_reads body n rest" "snd (snd m) = [(2, g), (1, asc (command_word n))]" "trim g = trim rest"
proof -
  from assms obtain n ws g ws' where b: "body = 47 # asc (command_word n) @ ws @ g @ ws'" "ws \<noteq> []" "list_all blank ws" "g \<noteq> []"
      "\<not> js_space (last g)" "list_all blank ws'" "snd (snd m) = [(2, g), (1, asc (command_word n))]"
    by (auto simp: command_matches)
  have sp: "list_all js_space ws" "list_all js_space ws'" using b(3,6) blank_space by (auto simp: list_all_iff)
  have pad: "trim (ws @ g @ ws') = trim g" by (rule trim_pad [OF sp])
  have "trim g \<noteq> []" using b(4,5) by (auto simp: trim_Nil list_all_iff)
  moreover have "takeWhile js_space (rev (ws @ g @ ws')) = rev ws'"
    using b(4,5) sp(2) by (cases g rule: rev_cases) (auto simp: list_all_iff takeWhile_append)
  moreover have "blank (hd (ws @ g @ ws'))" using b(2,3) by (cases ws) auto
  ultimately have "command_reads body n (ws @ g @ ws')"
    using b by (auto simp: command_reads_def pad)
  with that b(7) pad show thesis by simp
qed

lemma reads_match:
  assumes "command_reads body n rest"
  shows "ends COMMAND ([], body, []) \<noteq> []"
proof -
  from assms obtain x r where rest: "rest = x # r" "blank x" by (cases rest) (auto simp: command_reads_def)
  let ?g = "rev (dropWhile js_space (rev r))" and ?w = "rev (takeWhile js_space (rev r))"
  from assms rest blank_space have "\<not> list_all js_space r" by (auto simp: command_reads_def trim_Nil)
  then have g: "dropWhile js_space (rev r) \<noteq> []" by (auto simp: dropWhile_eq_Nil_conv list_all_iff)
  then have "\<not> js_space (last ?g)" by (simp add: last_rev hd_dropWhile)
  moreover have "r = ?g @ ?w" by (metis rev_append rev_rev_ident takeWhile_dropWhile_id)
  moreover have "list_all blank ?w"
  proof -
    have "takeWhile js_space (rev rest) = takeWhile js_space (rev r)"
      using g by (auto simp: rest dropWhile_eq_Nil_conv takeWhile_append1)
    with assms show ?thesis by (simp add: command_reads_def list_all_iff)
  qed
  ultimately have "(rev body, [], [(2, ?g), (1, asc (command_word n))]) \<in> set (ends COMMAND ([], body, []))"
    using assms g rest unfolding command_matches
    by (intro exI [of _ n] exI [of _ "[x]"] exI [of _ ?g] exI [of _ ?w] exI [of _ "rev body"]) (simp add: command_reads_def)
  then show ?thesis by auto
qed

text \<open>The token is determined by the text: no command word runs on into a blank.\<close>

lemma word_no_blank: "c \<in> set (asc (command_word n)) \<Longrightarrow> \<not> blank c"
  by (cases n) (auto simp: asc_simps blank_def)

lemma reads_unique:
  assumes "command_reads body n rest" and "command_reads body n' rest'"
  shows "n = n' \<and> rest = rest'"
proof -
  have "takeWhile (\<lambda>c. \<not> blank c) (asc (command_word n) @ rest) = asc (command_word n)"
    if "command_reads body n rest" for n rest
    using that by (cases rest) (auto simp: command_reads_def takeWhile_append2 word_no_blank)
  with assms have "asc (command_word n) = asc (command_word n')"
    by (metis (no_types) command_reads_def list.inject)
  moreover have "command_word n = command_word n' \<Longrightarrow> n = n'" by (cases n; cases n') simp_all
  ultimately show ?thesis using assms by (auto simp: command_reads_def)
qed

lemma word_of: "List.find (\<lambda>k. command_word k = command_word n) command_names = Some n"
  by (cases n) (simp_all add: command_names_def)

section \<open>Property\<close>

text \<open>
  The command grammar.  A message is read as a command exactly when it is a slash, one of the five
  words, at least one blank or tab and some content, followed by nothing but blanks and tabs; the payload is
  the content with white space trimmed, in its author's own name and never settled; everything else is
  an ordinary message.
\<close>

theorem command_grammar:
  "parseSemanticCommand body u = Some (n, p) \<longleftrightarrow>
     (\<exists>rest. command_reads body n rest \<and> p = command_payload n (trim rest) u)"
proof
  assume "parseSemanticCommand body u = Some (n, p)"
  then obtain t caps where e: "exec COMMAND body = Some (t, caps)"
    and p: "List.find (\<lambda>k. asc (command_word k) = group caps 1) command_names = Some n"
      "p = command_payload n (trim (group caps 2)) u"
    by (auto simp: parseSemanticCommand_def Let_def split: option.splits if_splits)
  from exec_command(2) [OF e] obtain m where m: "m \<in> set (ends COMMAND ([], body, []))" "snd (snd m) = caps" by blast
  from m(1) obtain k rest g where k: "command_reads body k rest" "snd (snd m) = [(2, g), (1, asc (command_word k))]"
      "trim g = trim rest" by (rule match_reads)
  with m(2) p show "\<exists>rest. command_reads body n rest \<and> p = command_payload n (trim rest) u"
    by (auto simp: group_def word_of)
next
  assume "\<exists>rest. command_reads body n rest \<and> p = command_payload n (trim rest) u"
  then obtain rest where rest: "command_reads body n rest" "p = command_payload n (trim rest) u" by blast
  from reads_match [OF rest(1)] exec_command(1) [of body] obtain t caps where e: "exec COMMAND body = Some (t, caps)" by auto
  from exec_command(2) [OF e] obtain m where m: "m \<in> set (ends COMMAND ([], body, []))" "snd (snd m) = caps" by blast
  from m(1) obtain k rest' g where k: "command_reads body k rest'" "snd (snd m) = [(2, g), (1, asc (command_word k))]"
      "trim g = trim rest'" by (rule match_reads)
  have "trim g \<noteq> []" using k by (simp add: command_reads_def)
  moreover have "k = n" "rest' = rest" using reads_unique [OF rest(1) k(1)] by simp_all
  ultimately show "parseSemanticCommand body u = Some (n, p)"
    using k(2,3) m(2) rest(2) by (auto simp: parseSemanticCommand_def e group_def word_of)
qed

end
