(* ===== verification/JsData.thy ===== *)
theory JsData
  imports JsText
begin

text \<open>
  What the server's small components use of the language: deletion from an insertion-ordered map (\<open>Map#delete\<close>
  on the stores of the prelude) and \<open>String#split\<close> on one character.
\<close>

section \<open>Maps\<close>

definition del :: "jstr \<Rightarrow> 'v store \<Rightarrow> 'v store" where
  "del k s = filter (\<lambda>e. fst e \<noteq> k) s"

lemma get_del [simp]: "get (del k s) k' = (if k' = k then None else get s k')"
  by (induction s) (auto simp: del_def get_def)

lemma keys_del [simp]: "keys (del k s) = filter (\<lambda>k'. k' \<noteq> k) (keys s)"
  by (simp add: del_def keys_def filter_map comp_def)

lemma length_del_less: "k \<in> set (keys s) \<Longrightarrow> length (del k s) < length s"
  by (auto simp: del_def keys_def length_filter_less)

lemma del_absent: "k \<notin> set (keys s) \<Longrightarrow> del k s = s"
  by (auto simp: del_def keys_def intro!: filter_True)

lemma put_absent: "k \<notin> set (keys s) \<Longrightarrow> put k v s = s @ [(k, v)]"
  by (induction s) (auto simp: keys_def)

lemma del_put_absent: "k \<notin> set (keys s) \<Longrightarrow> del k (put k v s) = s"
  by (auto simp: put_absent del_def keys_def intro!: filter_True)

lemma length_keys [simp]: "length (keys s) = length s"
  by (simp add: keys_def)

lemma set_del: "set (del k s) = {e \<in> set s. fst e \<noteq> k}"
  by (auto simp: del_def)

section \<open>Splitting\<close>

fun split_on :: "int \<Rightarrow> jstr \<Rightarrow> jstr \<Rightarrow> jstr list" where
  "split_on sep acc [] = [rev acc]"
| "split_on sep acc (c # s) = (if c = sep then rev acc # split_on sep [] s else split_on sep (c # acc) s)"

definition split_at :: "int \<Rightarrow> jstr \<Rightarrow> jstr list" where
  "split_at sep s = split_on sep [] s"

lemma split_on_nonempty [simp]: "split_on sep acc s \<noteq> []"
  by (induction sep acc s rule: split_on.induct) auto

lemma split_at_nonempty [simp]: "split_at sep s \<noteq> []"
  by (simp add: split_at_def)

lemma split_on_sep: "split_on sep acc (s @ sep # t) = split_on sep acc s @ split_on sep [] t"
  by (induction sep acc s rule: split_on.induct) auto

lemma split_at_sep: "split_at sep (s @ sep # t) = split_at sep s @ split_at sep t"
  by (simp add: split_at_def split_on_sep)

end
