(* ===== verification/Throttle.thy ===== *)
theory Throttle
  imports JsData
begin

text \<open>
  \<open>throttle.ts\<close>: the in-process rate limiter in front of sign-in, sign-up and resend.  A limiter is a map from a
  key to the instants of its recorded attempts, in least-recently-used order; the clock is an argument.
\<close>

section \<open>The limiter\<close>

record throttle_options =
  limit :: nat
  windowMs :: int
  maxKeys_option :: "nat option"
  protectAfter_option :: "nat option"

definition maxKeys :: "throttle_options \<Rightarrow> nat" where
  "maxKeys opts = (case maxKeys_option opts of None \<Rightarrow> 10000 | Some n \<Rightarrow> n)"

definition protectAfter :: "throttle_options \<Rightarrow> nat" where
  "protectAfter opts = (case protectAfter_option opts of None \<Rightarrow> limit opts | Some n \<Rightarrow> n)"

type_synonym hits = "int list store"

abbreviation recent :: "int \<Rightarrow> int list \<Rightarrow> int list" where
  "recent cutoff ts \<equiv> filter (\<lambda>t. cutoff < t) ts"

fun least_valuable :: "nat \<Rightarrow> int \<Rightarrow> jstr option \<Rightarrow> hits \<Rightarrow> jstr option" where
  "least_valuable protect cutoff oldest [] = oldest"
| "least_valuable protect cutoff oldest ((key, ts) # rest) =
     (if length (recent cutoff ts) < protect then Some key
      else least_valuable protect cutoff (if oldest = None then Some key else oldest) rest)"

definition leastValuableKey :: "throttle_options \<Rightarrow> int \<Rightarrow> hits \<Rightarrow> jstr option" where
  "leastValuableKey opts cutoff h = least_valuable (protectAfter opts) cutoff None h"

lemma least_valuable_key:
  "least_valuable protect cutoff oldest h = Some k \<Longrightarrow> k \<in> set (keys h) \<or> oldest = Some k"
  by (induction protect cutoff oldest h rule: least_valuable.induct) (auto simp: keys_def split: if_splits)

function evict :: "throttle_options \<Rightarrow> int \<Rightarrow> hits \<Rightarrow> hits" where
  "evict opts tm h =
     (if length h > maxKeys opts then
        case leastValuableKey opts (tm - windowMs opts) h of None \<Rightarrow> h | Some victim \<Rightarrow> evict opts tm (del victim h)
      else h)"
  by pat_completeness auto
termination
  by (relation "measure (\<lambda>(opts, tm, h). length h)")
     (auto simp: leastValuableKey_def dest!: least_valuable_key intro: length_del_less)

declare evict.simps [simp del]

definition times_of :: "hits \<Rightarrow> jstr \<Rightarrow> int list" where
  "times_of h key = (case get h key of None \<Rightarrow> [] | Some ts \<Rightarrow> ts)"

definition record_attempt :: "throttle_options \<Rightarrow> int \<Rightarrow> jstr \<Rightarrow> hits \<Rightarrow> hits \<times> bool" where
  "record_attempt opts tm key h =
     (let previous = recent (tm - windowMs opts) (times_of h key); rest = del key h in
      if length previous \<ge> limit opts then (evict opts tm (put key (tl previous @ [tm]) rest), False)
      else (evict opts tm (put key (previous @ [tm]) rest), True))"

text \<open>\<open>attemptAll\<close> records every key, with the instant the clock shows at its turn, also after a refusal.\<close>

fun attempt_each :: "throttle_options \<Rightarrow> (int \<times> jstr) list \<Rightarrow> hits \<Rightarrow> bool \<Rightarrow> hits \<times> bool" where
  "attempt_each opts [] h allowed = (h, allowed)"
| "attempt_each opts ((tm, key) # rest) h allowed =
     (case record_attempt opts tm key h of (h', ok) \<Rightarrow> attempt_each opts rest h' (ok \<and> allowed))"

definition attemptAll :: "throttle_options \<Rightarrow> (int \<times> jstr option) list \<Rightarrow> hits \<Rightarrow> hits \<times> bool" where
  "attemptAll opts ks h = attempt_each opts
     (concat (map (\<lambda>(tm, k). case k of Some (c # cs) \<Rightarrow> [(tm, c # cs)] | _ \<Rightarrow> []) ks)) h True"

definition reset :: "jstr \<Rightarrow> hits \<Rightarrow> hits" where
  "reset key h = del key h"

fun resetAll :: "jstr option list \<Rightarrow> hits \<Rightarrow> hits" where
  "resetAll [] h = h"
| "resetAll (k # ks) h = resetAll ks (case k of Some (c # cs) \<Rightarrow> del (c # cs) h | _ \<Rightarrow> h)"

definition unresolvedIpKey :: jstr where
  "unresolvedIpKey = asc ''ip:unresolved''"

definition attemptWithIp ::
    "throttle_options \<Rightarrow> throttle_options \<Rightarrow> int \<Rightarrow> int \<Rightarrow> jstr \<Rightarrow> jstr option \<Rightarrow> hits \<times> hits \<Rightarrow> (hits \<times> hits) \<times> bool" where
  "attemptWithIp byKey byIp tm tm' key ip h =
     (case record_attempt byKey tm key (fst h) of (h1, ok1) \<Rightarrow>
      (case record_attempt byIp tm' (case ip of None \<Rightarrow> unresolvedIpKey | Some a \<Rightarrow> a) (snd h) of (h2, ok2) \<Rightarrow>
        ((h1, h2), ok1 \<and> ok2)))"

text \<open>A session of the limiter: attempts, newest last, from an empty map, with the decisions made.\<close>

definition session :: "throttle_options \<Rightarrow> (int \<times> jstr) list \<Rightarrow> hits" where
  "session opts trace = foldl (\<lambda>h (tm, key). fst (record_attempt opts tm key h)) [] trace"

text \<open>The reference: every attempt of the key is remembered, and the ones inside the window are counted.\<close>

definition attempts_of :: "jstr \<Rightarrow> (int \<times> jstr) list \<Rightarrow> int list" where
  "attempts_of key trace = map fst (filter (\<lambda>e. snd e = key) trace)"

definition window_admits :: "throttle_options \<Rightarrow> (int \<times> jstr) list \<Rightarrow> int \<Rightarrow> jstr \<Rightarrow> bool" where
  "window_admits opts trace tm key \<longleftrightarrow> length (recent (tm - windowMs opts) (attempts_of key trace)) < limit opts"

section \<open>Eviction\<close>

definition protected_at :: "throttle_options \<Rightarrow> int \<Rightarrow> jstr \<times> int list \<Rightarrow> bool" where
  "protected_at opts tm e \<longleftrightarrow> protectAfter opts \<le> length (recent (tm - windowMs opts) (snd e))"

lemma least_valuable_unprotected:
  "least_valuable protect cutoff oldest h = Some k \<Longrightarrow>
    (\<exists>e \<in> set h. fst e = k \<and> length (recent cutoff (snd e)) < protect) \<or> (\<forall>e \<in> set h. protect \<le> length (recent cutoff (snd e)))"
  by (induction protect cutoff oldest h rule: least_valuable.induct) (auto split: if_splits)

lemma least_valuable_none: "least_valuable protect cutoff oldest h = None \<Longrightarrow> h = [] \<and> oldest = None"
  by (induction protect cutoff oldest h rule: least_valuable.induct) (auto split: if_splits)

lemma evict_small: "length h \<le> maxKeys opts \<Longrightarrow> evict opts tm h = h"
  by (simp add: evict.simps)

lemma evict_bound: "length (evict opts tm h) \<le> maxKeys opts"
proof (induction opts tm h rule: evict.induct)
  case (1 opts tm h)
  show ?case
  proof (cases "leastValuableKey opts (tm - windowMs opts) h")
    case None
    then have "h = []" by (auto simp: leastValuableKey_def dest: least_valuable_none)
    then show ?thesis by (simp add: evict.simps)
  next
    case (Some v)
    with 1 show ?thesis by (subst evict.simps) simp
  qed
qed

lemma evict_subset: "set (evict opts tm h) \<subseteq> set h"
proof (induction opts tm h rule: evict.induct)
  case (1 opts tm h)
  then show ?case by (subst evict.simps) (auto simp: set_del split: option.splits)
qed

lemma evict_distinct: "distinct (keys h) \<Longrightarrow> distinct (keys (evict opts tm h))"
proof (induction opts tm h rule: evict.induct)
  case (1 opts tm h)
  then show ?case by (subst evict.simps) (auto split: option.splits)
qed

lemma evict_spares_protected:
  assumes "distinct (keys h)" "e \<in> set h" "protected_at opts tm e" "e \<notin> set (evict opts tm h)"
  shows "\<forall>x \<in> set (evict opts tm h). protected_at opts tm x"
  using assms
proof (induction opts tm h rule: evict.induct)
  case (1 opts tm h)
  show ?case
  proof (cases "length h > maxKeys opts")
    case True
    then have "h \<noteq> []" by auto
    then obtain v where v: "leastValuableKey opts (tm - windowMs opts) h = Some v"
      by (cases "leastValuableKey opts (tm - windowMs opts) h") (auto simp: leastValuableKey_def dest: least_valuable_none)
    have ev: "evict opts tm h = evict opts tm (del v h)" using True v by (subst evict.simps) simp
    show ?thesis
    proof (cases "fst e = v")
      case False
      with 1 True v ev show ?thesis by (auto simp: set_del)
    next
      case e: True
      from least_valuable_unprotected [OF v [unfolded leastValuableKey_def]] show ?thesis
      proof
        assume "\<exists>e \<in> set h. fst e = v \<and> length (recent (tm - windowMs opts) (snd e)) < protectAfter opts"
        then obtain e' where e': "e' \<in> set h" "fst e' = v" "\<not> protected_at opts tm e'"
          by (auto simp: protected_at_def)
        with e 1(2) 1(3) have "e' = e" by (metis eq_key_imp_eq_value keys_def prod.collapse)
        with e' 1(4) show ?thesis by simp
      next
        assume "\<forall>e \<in> set h. protectAfter opts \<le> length (recent (tm - windowMs opts) (snd e))"
        then show ?thesis using evict_subset [of opts tm h] by (auto simp: protected_at_def)
      qed
    qed
  qed (use 1 in \<open>simp add: evict_small\<close>)
qed

section \<open>The sliding window\<close>

text \<open>
  The stored instants are the end of the key's history, and what was dropped is either expired at the last
  attempt or no longer needed, because as many as the limit are kept.
\<close>

definition remembers :: "throttle_options \<Rightarrow> int list \<Rightarrow> int list \<Rightarrow> bool" where
  "remembers opts history ts \<longleftrightarrow>
     (\<exists>dropped. history = dropped @ ts \<and> ((\<exists>x \<in> set dropped. last history - windowMs opts < x) \<longrightarrow> limit opts \<le> length ts))"

definition kept_times :: "throttle_options \<Rightarrow> int \<Rightarrow> int list \<Rightarrow> int list" where
  "kept_times opts tm ts = (let previous = recent (tm - windowMs opts) ts in
     if limit opts \<le> length previous then tl previous @ [tm] else previous @ [tm])"

lemma record_attempt_fst:
  "fst (record_attempt opts tm key h) = evict opts tm (put key (kept_times opts tm (times_of h key)) (del key h))"
  by (simp add: record_attempt_def kept_times_def Let_def)

lemma recent_after: "sorted (d @ ts) \<Longrightarrow> x \<in> set d \<Longrightarrow> c < x \<Longrightarrow> recent c ts = ts"
  by (intro filter_True) (fastforce simp: sorted_append)

lemma sorted_recent: "sorted ts \<Longrightarrow> filter (\<lambda>t. \<not> c < t) ts @ recent c ts = ts"
proof (induction ts)
  case (Cons a ts)
  show ?case
  proof (cases "c < a")
    case True
    with Cons.prems have "\<forall>x \<in> set (a # ts). c < x" by auto
    then show ?thesis by (simp add: filter_empty_conv)
  qed (use Cons in simp)
qed simp

lemma remembers_counts:
  assumes "remembers opts history ts" "sorted history" "\<forall>x \<in> set history. x \<le> tm"
  shows "length (recent (tm - windowMs opts) ts) < limit opts \<longleftrightarrow> length (recent (tm - windowMs opts) history) < limit opts"
proof -
  from assms(1) obtain d where d: "history = d @ ts" "(\<exists>x \<in> set d. last history - windowMs opts < x) \<longrightarrow> limit opts \<le> length ts"
    by (auto simp: remembers_def)
  show ?thesis
  proof (cases "\<exists>x \<in> set d. tm - windowMs opts < x")
    case True
    then obtain x where x: "x \<in> set d" "tm - windowMs opts < x" by blast
    then have "last history \<le> tm" using assms(3) d(1) by (metis append_is_Nil_conv empty_set equals0D last_in_set)
    with x d(2) have "limit opts \<le> length ts" by force
    moreover have "recent (tm - windowMs opts) ts = ts"
      using x assms(2) d(1) by (intro recent_after) auto
    ultimately show ?thesis by (simp add: d(1))
  next
    case False
    then have "recent (tm - windowMs opts) d = []" by (simp add: filter_empty_conv)
    then show ?thesis by (simp add: d(1))
  qed
qed

lemma remembers_step:
  assumes "remembers opts history ts" "sorted history" "\<forall>x \<in> set history. x \<le> tm"
  shows "remembers opts (history @ [tm]) (kept_times opts tm ts)"
proof -
  let ?c = "tm - windowMs opts" let ?p = "recent ?c ts"
  from assms(1) obtain d where d: "history = d @ ts" "(\<exists>x \<in> set d. last history - windowMs opts < x) \<longrightarrow> limit opts \<le> length ts"
    by (auto simp: remembers_def)
  have "sorted ts" using assms(2) d(1) by (simp add: sorted_append)
  then have split: "ts = filter (\<lambda>t. \<not> ?c < t) ts @ ?p" by (rule sorted_recent [symmetric])
  show ?thesis
  proof (cases "limit opts \<le> length ?p")
    case True
    then have "limit opts \<le> length (tl ?p @ [tm])" by (cases ?p) auto
    moreover have "history @ [tm] = (d @ filter (\<lambda>t. \<not> ?c < t) ts @ take 1 ?p) @ (tl ?p @ [tm])"
      using split d(1) by (cases ?p) auto
    ultimately show ?thesis unfolding remembers_def kept_times_def Let_def if_P [OF True] by blast
  next
    case False
    have "\<not> ?c < x" if "x \<in> set d" for x
    proof
      assume x: "?c < x"
      with that have "last history \<le> tm" using assms(3) d(1) by (metis append_is_Nil_conv empty_set equals0D last_in_set)
      with x that d(2) have "limit opts \<le> length ts" by force
      moreover have "?p = ts" using x that assms(2) d(1) by (intro recent_after) auto
      ultimately show False using False by simp
    qed
    then have "\<forall>x \<in> set (d @ filter (\<lambda>t. \<not> ?c < t) ts). \<not> ?c < x" by auto
    moreover have "history @ [tm] = (d @ filter (\<lambda>t. \<not> ?c < t) ts) @ (?p @ [tm])" using split d(1) by simp
    moreover have "last (history @ [tm]) = tm" by simp
    ultimately show ?thesis unfolding remembers_def kept_times_def Let_def if_not_P [OF False] by metis
  qed
qed

lemma session_snoc: "session opts (trace @ [(tm, key)]) = fst (record_attempt opts tm key (session opts trace))"
  by (simp add: session_def)

text \<open>While every key fits, nothing is evicted and each key is remembered.\<close>

definition faithful :: "throttle_options \<Rightarrow> (int \<times> jstr) list \<Rightarrow> hits \<Rightarrow> bool" where
  "faithful opts trace h \<longleftrightarrow> distinct (keys h) \<and> set (keys h) = set (map snd trace) \<and>
     (\<forall>key. remembers opts (attempts_of key trace) (times_of h key))"

lemma session_faithful:
  assumes "sorted (map fst trace)" "card (set (map snd trace)) \<le> maxKeys opts"
  shows "faithful opts trace (session opts trace)"
  using assms
proof (induction trace rule: rev_induct)
  case Nil
  then show ?case by (simp add: faithful_def session_def remembers_def attempts_of_def times_of_def keys_def get_def)
next
  case (snoc e trace)
  obtain tm key where e: "e = (tm, key)" by fastforce
  let ?h = "session opts trace" let ?new = "kept_times opts tm (times_of ?h key)"
  have "card (set (map snd trace)) \<le> maxKeys opts"
    by (rule order.trans [OF card_mono snoc.prems(2)]) auto
  with snoc have IH: "faithful opts trace ?h" by (simp add: sorted_append)
  have times: "sorted (attempts_of key trace)" "\<forall>x \<in> set (attempts_of key trace). x \<le> tm"
    using snoc.prems(1) by (auto simp: attempts_of_def sorted_append e sorted_filter)
  let ?h' = "put key ?new (del key ?h)"
  have keys': "distinct (keys ?h')" "set (keys ?h') = insert key (set (keys ?h))"
    using IH by (auto simp: faithful_def keys_put)
  then have "length ?h' \<le> maxKeys opts"
    using snoc.prems(2) IH distinct_card [OF keys'(1)] by (simp add: faithful_def e)
  then have h': "session opts (trace @ [e]) = ?h'"
    by (simp add: e session_snoc record_attempt_fst evict_small)
  have "remembers opts (attempts_of k (trace @ [e])) (times_of ?h' k)" for k
  proof (cases "k = key")
    case True
    with remembers_step [of opts "attempts_of key trace" "times_of ?h key" tm] IH times show ?thesis
      by (simp add: e attempts_of_def faithful_def times_of_def)
  next
    case False
    with IH show ?thesis by (auto simp: e attempts_of_def faithful_def times_of_def)
  qed
  with keys' IH show ?case unfolding h' by (auto simp: faithful_def e)
qed

lemma record_bounded:
  assumes "\<forall>e \<in> set h. length (snd e) \<le> max 1 (limit opts)"
  shows "\<forall>e \<in> set (fst (record_attempt opts tm key h)). length (snd e) \<le> max 1 (limit opts)"
proof -
  have "length (times_of h key) \<le> max 1 (limit opts)"
    using assms by (fastforce simp: times_of_def get_def split: option.split dest: map_of_SomeD)
  then have ts: "length (recent c (times_of h key)) \<le> max 1 (limit opts)" for c
    by (rule order.trans [OF length_filter_le])
  have "\<forall>e \<in> set (put key v (del key h)). length (snd e) \<le> max 1 (limit opts)" if "length v \<le> max 1 (limit opts)" for v
    using assms that by (auto simp: put_absent set_del)
  moreover have "length (kept_times opts tm (times_of h key)) \<le> max 1 (limit opts)"
    using ts [of "tm - windowMs opts"] by (cases "recent (tm - windowMs opts) (times_of h key)") (auto simp: kept_times_def Let_def)
  ultimately show ?thesis unfolding record_attempt_fst using evict_subset by blast
qed

lemma session_bounded:
  "length (session opts trace) \<le> maxKeys opts \<and> (\<forall>e \<in> set (session opts trace). length (snd e) \<le> max 1 (limit opts)) \<and>
   distinct (keys (session opts trace))"
proof (induction trace rule: rev_induct)
  case Nil
  show ?case by (simp add: session_def keys_def)
next
  case (snoc e trace)
  obtain tm key where e: "e = (tm, key)" by fastforce
  have "distinct (keys (put key v (del key (session opts trace))))" for v
    using snoc by (simp add: keys_put)
  then show ?case
    using record_bounded [of "session opts trace" opts tm key] snoc evict_bound
    by (simp add: e session_snoc record_attempt_fst evict_distinct)
qed

lemma newcomer_evicted:
  assumes "length h = maxKeys opts" "\<forall>e \<in> set h. protected_at opts tm e" "key \<notin> set (keys h)"
    and "1 < protectAfter opts" "0 < limit opts"
  shows "record_attempt opts tm key h = (h, True)"
proof -
  have none: "times_of h key = []" using assms(3) by (simp add: times_of_def keys_get)
  have "least_valuable (protectAfter opts) c oldest (xs @ [(key, [tm])]) = Some key"
    if "\<forall>e \<in> set xs. protectAfter opts \<le> length (recent c (snd e))" for c oldest and xs :: hits
    using that assms(4) by (induction xs arbitrary: oldest) (auto simp: not_less [symmetric])
  then have "leastValuableKey opts (tm - windowMs opts) (h @ [(key, [tm])]) = Some key"
    using assms(2) by (simp add: leastValuableKey_def protected_at_def)
  moreover have "del key (h @ [(key, [tm])]) = h" using del_put_absent [OF assms(3), of "[tm]"] by (simp add: put_absent assms(3))
  ultimately have "evict opts tm (h @ [(key, [tm])]) = evict opts tm h" using assms(1) by (subst evict.simps) simp
  then show ?thesis
    using assms by (simp add: record_attempt_def none Let_def del_absent put_absent evict_small)
qed

section \<open>Properties\<close>

text \<open>
  C28. The limiter is a sliding window.  As long as the clock does not run backwards and no more keys than
  \<open>maxKeys\<close> have been seen, an attempt is admitted exactly when fewer than \<open>limit\<close> attempts on its key, admitted
  or refused, fall inside the window that ends at it, although the limiter keeps at most \<open>limit\<close> instants.
\<close>

theorem limiter_is_sliding_window:
  assumes "sorted (map fst (trace @ [(tm, key)]))" "card (set (map snd trace)) \<le> maxKeys opts"
  shows "snd (record_attempt opts tm key (session opts trace)) = window_admits opts trace tm key"
proof -
  have "faithful opts trace (session opts trace)" using assms by (intro session_faithful) (simp_all add: sorted_append)
  moreover have "sorted (attempts_of key trace)" "\<forall>x \<in> set (attempts_of key trace). x \<le> tm"
    using assms(1) by (auto simp: attempts_of_def sorted_append sorted_filter)
  ultimately show ?thesis
    using remembers_counts [of opts "attempts_of key trace" "times_of (session opts trace) key" tm]
    by (auto simp: faithful_def record_attempt_def window_admits_def Let_def not_less)
qed

theorem limiter_is_sliding_window_witness:
  "snd (record_attempt \<lparr>limit = 2, windowMs = 10, maxKeys_option = None, protectAfter_option = None\<rparr> 9 (asc ''a'')
     (session \<lparr>limit = 2, windowMs = 10, maxKeys_option = None, protectAfter_option = None\<rparr> [(1, asc ''a''), (2, asc ''b''), (3, asc ''a'')]))
   = window_admits \<lparr>limit = 2, windowMs = 10, maxKeys_option = None, protectAfter_option = None\<rparr>
       [(1, asc ''a''), (2, asc ''b''), (3, asc ''a'')] 9 (asc ''a'') \<and>
   \<not> window_admits \<lparr>limit = 2, windowMs = 10, maxKeys_option = None, protectAfter_option = None\<rparr>
       [(1, asc ''a''), (2, asc ''b''), (3, asc ''a'')] 9 (asc ''a'')"
proof
  let ?o = "\<lparr>limit = 2, windowMs = 10, maxKeys_option = None, protectAfter_option = None\<rparr>"
  let ?t = "[(1 :: int, asc ''a''), (2, asc ''b''), (3, asc ''a'')]"
  have "card (set (map snd ?t)) \<le> length (map snd ?t)" by (rule card_length)
  then show "snd (record_attempt ?o 9 (asc ''a'') (session ?o ?t)) = window_admits ?o ?t 9 (asc ''a'')"
    by (intro limiter_is_sliding_window) (simp_all add: maxKeys_def)
  show "\<not> window_admits ?o ?t 9 (asc ''a'')" by (simp add: window_admits_def attempts_of_def)
qed

text \<open>
  The map is bounded.  After any session the limiter tracks at most \<open>maxKeys\<close> keys, each with at most
  \<open>limit\<close> instants (one when the limit is zero).
\<close>

theorem limiter_bounded:
  "length (session opts trace) \<le> maxKeys opts \<and> list_all (\<lambda>e. length (snd e) \<le> max 1 (limit opts)) (session opts trace)"
  using session_bounded [of opts trace] by (simp add: list_all_iff)

text \<open>
  A blocked key is the last to be forgotten.  When an attempt evicts an entry of another key that is
  protected at that instant, every entry that stays is protected too.
\<close>

theorem protected_evicted_last:
  assumes "e \<in> set (session opts trace)" "fst e \<noteq> key" "protected_at opts tm e"
    and "e \<notin> set (fst (record_attempt opts tm key (session opts trace)))"
  shows "list_all (protected_at opts tm) (fst (record_attempt opts tm key (session opts trace)))"
proof -
  let ?h = "put key (kept_times opts tm (times_of (session opts trace) key)) (del key (session opts trace))"
  have "distinct (keys ?h)" using session_bounded [of opts trace] by (simp add: keys_put)
  moreover have "e \<in> set ?h" using assms(1,2) by (simp add: put_absent set_del)
  ultimately show ?thesis
    using evict_spares_protected [of ?h e opts tm] assms(3,4) by (simp add: record_attempt_fst list_all_iff)
qed

theorem protected_evicted_last_witness:
  "list_all (protected_at \<lparr>limit = 1, windowMs = 10, maxKeys_option = Some 1, protectAfter_option = None\<rparr> 3)
     (fst (record_attempt \<lparr>limit = 1, windowMs = 10, maxKeys_option = Some 1, protectAfter_option = None\<rparr> 3 (asc ''b'')
       (session \<lparr>limit = 1, windowMs = 10, maxKeys_option = Some 1, protectAfter_option = None\<rparr> [(1, asc ''a'')])))"
proof (rule protected_evicted_last [of "(asc ''a'', [1])"])
  let ?o = "\<lparr>limit = 1, windowMs = 10, maxKeys_option = Some 1, protectAfter_option = None\<rparr>"
  show "(asc ''a'', [1]) \<in> set (session ?o [(1, asc ''a'')])" by code_simp
  show "protected_at ?o 3 (asc ''a'', [1])" by code_simp
  show "(asc ''a'', [1]) \<notin> set (fst (record_attempt ?o 3 (asc ''b'') (session ?o [(1, asc ''a'')])))" by code_simp
qed simp

text \<open>
  A newcomer that is protected by its first attempt takes the place of the oldest key: with \<open>protectAfter\<close> at most
  one, a full map of protected keys goes on counting.
\<close>

theorem newcomer_displaces_oldest:
  assumes "length h = maxKeys opts" "h \<noteq> []" "distinct (keys h)" "list_all (protected_at opts tm) h" "key \<notin> set (keys h)"
    and "protectAfter opts \<le> 1" "0 < limit opts" "0 < windowMs opts"
  shows "record_attempt opts tm key h = (tl h @ [(key, [tm])], True)"
proof -
  obtain k ts rest where h: "h = (k, ts) # rest" using assms(2) by (cases h) auto
  have none: "times_of h key = []" using assms(5) by (simp add: times_of_def keys_get)
  have "least_valuable (protectAfter opts) c (Some o') (xs @ [(key, [tm])]) = Some o'"
    if "\<forall>e \<in> set xs. protectAfter opts \<le> length (recent c (snd e))" "c < tm" for c o' and xs :: hits
    using that assms(6) by (induction xs) (auto simp: not_less [symmetric])
  then have "leastValuableKey opts (tm - windowMs opts) (h @ [(key, [tm])]) = Some k"
    using assms(4,8) by (simp add: h leastValuableKey_def protected_at_def list_all_iff not_less)
  moreover have "del k (h @ [(key, [tm])]) = rest @ [(key, [tm])]"
    using assms(3,5) by (auto simp: h del_def keys_def intro!: filter_True)
  ultimately have "evict opts tm (h @ [(key, [tm])]) = evict opts tm (rest @ [(key, [tm])])" using assms(1) by (subst evict.simps) simp
  also have "\<dots> = rest @ [(key, [tm])]" using assms(1) by (simp add: evict_small h)
  also have "rest = tl h" by (simp add: h)
  finally show ?thesis using assms(5,7) by (simp add: record_attempt_def none Let_def del_absent put_absent)
qed

text \<open>
  C29. A full map of blocked keys stops counting, when it takes more than one attempt to protect a key.  Let the map
  hold \<open>maxKeys\<close> entries, \<open>protectAfter\<close> be more than one and \<open>limit\<close> positive.  Any attempts on keys it does not track,
  at any instants at which all its entries are protected, are all admitted and leave the map as it was: each records
  an entry that is the only unprotected one and is evicted again.
\<close>

theorem crowded_map_admits_newcomers:
  assumes "length h = maxKeys opts" "1 < protectAfter opts" "0 < limit opts"
    and "list_all (\<lambda>(tm, key). key \<notin> set (keys h) \<and> list_all (protected_at opts tm) h) attempts"
  shows "attempt_each opts attempts h True = (h, True)"
  using assms(4)
proof (induction attempts)
  case (Cons x xs)
  obtain tm key where x: "x = (tm, key)" by fastforce
  have "record_attempt opts tm key h = (h, True)"
    using Cons.prems by (intro newcomer_evicted [OF assms(1) _ _ assms(2,3)]) (simp_all add: x list_all_iff)
  with Cons show ?case by (simp add: x)
qed simp

theorem crowded_map_admits_newcomers_witness:
  "attempt_each \<lparr>limit = 2, windowMs = 10, maxKeys_option = Some 1, protectAfter_option = None\<rparr>
     (concat (replicate 50 [(3, asc ''b''), (4, asc ''c''), (9, asc ''b'')]))
     (session \<lparr>limit = 2, windowMs = 10, maxKeys_option = Some 1, protectAfter_option = None\<rparr> [(1, asc ''a''), (2, asc ''a'')]) True =
   (session \<lparr>limit = 2, windowMs = 10, maxKeys_option = Some 1, protectAfter_option = None\<rparr> [(1, asc ''a''), (2, asc ''a'')], True)"
proof (rule crowded_map_admits_newcomers)
  let ?o = "\<lparr>limit = 2, windowMs = 10, maxKeys_option = Some 1, protectAfter_option = None\<rparr>"
  let ?h = "session ?o [(1, asc ''a''), (2, asc ''a'')]"
  show "length ?h = maxKeys ?o" by code_simp
  show "list_all (\<lambda>(tm, key). key \<notin> set (keys ?h) \<and> list_all (protected_at ?o tm) ?h)
      (concat (replicate 50 [(3, asc ''b''), (4, asc ''c''), (9, asc ''b'')]))" by code_simp
qed (simp_all add: protectAfter_def)

end
