(* ===== verification/Authz.thy ===== *)
theory Authz
  imports JsData
begin

text \<open>
  \<open>authz.ts\<close>: the authorization table and the one function that reads it.  A command and a role arrive as free
  text; the message of a denial is prose and is left out.
\<close>

section \<open>Roles\<close>

datatype role = Member | Admin | Owner

fun role_name :: "role \<Rightarrow> string" where
  "role_name Member = ''member''" | "role_name Admin = ''admin''" | "role_name Owner = ''owner''"

fun rank :: "role \<Rightarrow> nat" where
  "rank Member = 1" | "rank Admin = 2" | "rank Owner = 3"

definition roles :: "role list" where
  "roles = [Owner, Admin, Member]"

definition read_role :: "jstr \<Rightarrow> role option" where
  "read_role s = List.find (\<lambda>r. asc (role_name r) = s) roles"

definition isRole :: "jstr \<Rightarrow> bool" where
  "isRole s \<longleftrightarrow> read_role s \<noteq> None"

fun best_role :: "role option \<Rightarrow> jstr list \<Rightarrow> role option" where
  "best_role best [] = best"
| "best_role best (p # ps) = (case read_role p of
     None \<Rightarrow> None
   | Some r \<Rightarrow> best_role (case best of None \<Rightarrow> Some r | Some b \<Rightarrow> if rank r > rank b then Some r else Some b) ps)"

definition parseRole :: "jstr \<Rightarrow> role option" where
  "parseRole raw = best_role None (map trim (split_at 44 raw))"

definition mayGrantRole :: "jstr \<Rightarrow> jstr \<Rightarrow> bool" where
  "mayGrantRole actorRole requestedRole = (case (parseRole actorRole, parseRole requestedRole) of
     (Some a, Some r) \<Rightarrow> rank r \<le> rank a | _ \<Rightarrow> False)"

section \<open>Commands\<close>

datatype scope = RoomScope | WorkspaceScope

definition commandPolicy :: "(string \<times> scope \<times> role) list" where
  "commandPolicy =
     [(''room.join'', RoomScope, Member), (''room.leave'', RoomScope, Member), (''room.presence'', RoomScope, Member),
      (''message.send'', RoomScope, Member), (''proposal.accept'', RoomScope, Member),
      (''proposal.reject'', RoomScope, Member), (''object.correct'', RoomScope, Member),
      (''room.rename'', RoomScope, Admin), (''room.archive'', RoomScope, Admin),
      (''workspace.read'', WorkspaceScope, Member), (''room.create'', WorkspaceScope, Member),
      (''workspace.invite'', WorkspaceScope, Admin), (''workspace.invitation.revoke'', WorkspaceScope, Admin),
      (''workspace.member.remove'', WorkspaceScope, Admin), (''workspace.member.role'', WorkspaceScope, Admin),
      (''workspace.update'', WorkspaceScope, Admin), (''workspace.delete'', WorkspaceScope, Owner)]"

definition policy_of :: "jstr \<Rightarrow> (scope \<times> role) option" where
  "policy_of command = map_option snd (List.find (\<lambda>e. asc (fst e) = command) commandPolicy)"

definition isCommand :: "jstr \<Rightarrow> bool" where
  "isCommand command \<longleftrightarrow> policy_of command \<noteq> None"

datatype denial = UnknownCommand | WrongScope | NotAMember | UnknownRole | InsufficientRole

datatype authorization = Allowed jstr role scope | Denied denial

definition authorize :: "jstr \<Rightarrow> jstr option \<Rightarrow> scope option \<Rightarrow> authorization" where
  "authorize command membership scope = (case policy_of command of
     None \<Rightarrow> Denied UnknownCommand
   | Some (sc, needed) \<Rightarrow>
       if scope \<noteq> None \<and> scope \<noteq> Some sc then Denied WrongScope
       else (case membership of
         None \<Rightarrow> Denied NotAMember
       | Some raw \<Rightarrow> (case parseRole raw of
           None \<Rightarrow> Denied UnknownRole
         | Some r \<Rightarrow> if rank r < rank needed then Denied InsufficientRole else Allowed command r sc)))"

fun allowed :: "authorization \<Rightarrow> bool" where
  "allowed (Allowed _ _ _) = True" | "allowed (Denied _) = False"

text \<open>Everything a membership may do.\<close>

definition granted :: "jstr \<Rightarrow> (jstr \<times> scope option) set" where
  "granted raw = {(c, sc). allowed (authorize c (Some raw) sc)}"

section \<open>Roles are ordered by rank\<close>

lemma rank_inject: "rank r = rank r' \<longleftrightarrow> r = r'"
  by (cases r; cases r') simp_all

instantiation role :: linorder
begin

definition less_eq_role :: "role \<Rightarrow> role \<Rightarrow> bool" where
  "less_eq_role r r' \<longleftrightarrow> rank r \<le> rank r'"

definition less_role :: "role \<Rightarrow> role \<Rightarrow> bool" where
  "less_role r r' \<longleftrightarrow> rank r < rank r'"

instance
  by standard (auto simp: less_eq_role_def less_role_def rank_inject)

end

lemma rank_order: "rank r \<le> rank r' \<longleftrightarrow> r \<le> r'" "rank r < rank r' \<longleftrightarrow> r < r'"
  by (simp_all add: less_eq_role_def less_role_def)

lemma read_role_name [simp]: "read_role s = Some r \<longleftrightarrow> s = asc (role_name r)"
  by (cases r) (auto simp: read_role_def roles_def)

lemma read_own_name [simp]: "read_role (asc (role_name r)) = Some r"
  by simp

lemma read_role_unknown: "read_role s = None \<Longrightarrow> s \<noteq> asc (role_name x)"
  by (metis option.distinct(1) read_role_name)

lemma role_name_inject [simp]: "role_name x = role_name y \<longleftrightarrow> x = y"
  by (cases x; cases y) simp_all

lemma named_roles_Cons:
  "(\<exists>rs. rs \<noteq> [] \<and> asc (role_name x) # ps = map (asc \<circ> role_name) rs \<and> P rs) \<longleftrightarrow> (\<exists>rs. ps = map (asc \<circ> role_name) rs \<and> P (x # rs))"
  by (auto simp: Cons_eq_map_conv)

lemma best_role_some:
  "best_role (Some b) ps = Some r \<longleftrightarrow> (\<exists>rs. ps = map (asc \<circ> role_name) rs \<and> r = Max (set (b # rs)))"
proof (induction ps arbitrary: b)
  case (Cons p ps)
  show ?case
  proof (cases "read_role p")
    case None
    then show ?thesis by (auto simp: Cons_eq_map_conv dest: read_role_unknown)
  next
    case (Some x)
    then have p: "p = asc (role_name x)" by simp
    have "(case Some b of None \<Rightarrow> Some x | Some b \<Rightarrow> if rank x > rank b then Some x else Some b) = Some (max b x)"
      by (auto simp: rank_order max_def)
    then have "best_role (Some b) (p # ps) = best_role (Some (max b x)) ps" by (simp add: p)
    also have "\<dots> = Some r \<longleftrightarrow> (\<exists>rs. ps = map (asc \<circ> role_name) rs \<and> r = Max (set (max b x # rs)))" by (rule Cons)
    also have "\<dots> \<longleftrightarrow> (\<exists>rs. p # ps = map (asc \<circ> role_name) rs \<and> r = Max (set (b # rs)))"
    proof -
      have "Max (set (max b x # rs)) = Max (set (b # x # rs))" for rs
        by (cases "rs = []") (simp_all add: max.assoc)
      then show ?thesis by (auto simp: Cons_eq_map_conv p)
    qed
    finally show ?thesis .
  qed
qed auto

lemma authorize_allowed:
  "allowed (authorize c (Some raw) sc) \<longleftrightarrow>
     (\<exists>sc' needed r. policy_of c = Some (sc', needed) \<and> (sc = None \<or> sc = Some sc') \<and> parseRole raw = Some r \<and> needed \<le> r)"
  by (auto simp: authorize_def rank_order split: option.splits)

text \<open>Each rank has a command of its own.\<close>

definition own_command :: "role \<Rightarrow> string" where
  "own_command r = (case r of Member \<Rightarrow> ''room.join'' | Admin \<Rightarrow> ''room.rename'' | Owner \<Rightarrow> ''workspace.delete'')"

lemma own_command_policy: "\<exists>sc. policy_of (asc (own_command r)) = Some (sc, r)"
  by (cases r) (simp_all add: own_command_def policy_of_def commandPolicy_def)

section \<open>Properties\<close>

text \<open>
  A stored role is read strictly.  \<open>parseRole\<close> returns a role exactly when every component of the
  comma-separated value, trimmed, is the name of a role, and it is then the strongest of them, whatever their
  order; a value with one unknown component reads as no role at all.
\<close>

theorem role_read_strictly:
  "parseRole raw = Some r \<longleftrightarrow>
     (\<exists>rs. rs \<noteq> [] \<and> map trim (split_at 44 raw) = map (asc \<circ> role_name) rs \<and> r = Max (set rs))"
proof (cases "map trim (split_at 44 raw)")
  case Nil
  then show ?thesis by (simp)
next
  case (Cons p ps)
  show ?thesis
  proof (cases "read_role p")
    case None
    with Cons show ?thesis unfolding parseRole_def Cons by (auto simp: Cons_eq_map_conv dest: read_role_unknown)
  next
    case (Some x)
    then have p: "p = asc (role_name x)" by simp
    show ?thesis unfolding parseRole_def Cons unfolding p named_roles_Cons
      by (simp add: best_role_some)
  qed
qed

text \<open>
  Nobody grants authority they do not hold.  A member may hand out a role exactly when the role is readable
  and everything it authorizes, in every scope, the member's own role authorizes too.
\<close>

theorem grants_only_what_is_held:
  "mayGrantRole mine theirs \<longleftrightarrow> parseRole theirs \<noteq> None \<and> parseRole mine \<noteq> None \<and> granted theirs \<subseteq> granted mine"
proof (cases "parseRole theirs")
  case (Some r)
  show ?thesis
  proof (cases "parseRole mine")
    case mine: (Some a)
    have "r \<le> a" if "granted theirs \<subseteq> granted mine"
    proof -
      obtain sc where p: "policy_of (asc (own_command r)) = Some (sc, r)" using own_command_policy by blast
      then have "(asc (own_command r), Some sc) \<in> granted theirs"
        using Some by (auto simp: granted_def authorize_allowed)
      with that have "(asc (own_command r), Some sc) \<in> granted mine" by blast
      then show ?thesis using mine p by (auto simp: granted_def authorize_allowed)
    qed
    moreover have "granted theirs \<subseteq> granted mine" if "r \<le> a"
      using that Some mine by (auto simp: granted_def authorize_allowed intro: order.trans)
    ultimately show ?thesis by (auto simp: mayGrantRole_def Some mine rank_order)
  qed (simp add: mayGrantRole_def Some)
qed (simp add: mayGrantRole_def split: option.split)

end
