(* ===== verification/Client_Ip.thy ===== *)
theory Client_Ip
  imports JsData Regex "HOL-Library.Word"
begin

unbundle bit_operations_syntax

text \<open>
  \<open>client-ip.ts\<close>: whose address a request is counted against.  Addresses are bytes, \<open>8 word\<close>s as in the source's
  \<open>Uint8Array\<close>; the constructor \<open>Array(n)\<close> raises on a negative length, so parsing an address may raise.  Reading
  the strategy out of the environment is not modelled.
\<close>

section \<open>Addresses\<close>

datatype 'a attempt = RangeError | Returned 'a

fun and_then :: "'a attempt \<Rightarrow> ('a \<Rightarrow> 'b attempt) \<Rightarrow> 'b attempt" where
  "and_then RangeError f = RangeError"
| "and_then (Returned x) f = f x"

definition line_end :: "int \<Rightarrow> bool" where
  "line_end c \<longleftrightarrow> c = 10 \<or> c = 13 \<or> c = 8232 \<or> c = 8233"

definition BRACKETED :: re where
  "BRACKETED = seq [Start, lit ''['', Cap 1 (many1 (Cls (\<lambda>c. \<not> line_end c))), lit '']'',
     opt (Seq (lit '':'') (many1 (Cls is_digit))), Finish]"

definition mapped_prefix :: jstr where
  "mapped_prefix = asc ''::ffff:''"

definition unmapped :: "jstr \<Rightarrow> jstr" where
  "unmapped a = (if take 7 a = mapped_prefix then drop 7 a else a)"

definition host_of :: "jstr \<Rightarrow> jstr" where
  "host_of a = (case split_at 58 a of [host, port] \<Rightarrow> if host \<noteq> [] then host else a | _ \<Rightarrow> a)"

definition normalise :: "jstr option \<Rightarrow> jstr option" where
  "normalise raw = (case raw of None \<Rightarrow> None | Some v \<Rightarrow>
     if trim v = [] then None
     else (let address = unmapped (trim v) in
       case exec BRACKETED address of
         Some (_, caps) \<Rightarrow> Some (group caps 1)
       | None \<Rightarrow> (let a = host_of address in if a = [] then None else Some a)))"

definition octet :: "jstr \<Rightarrow> int option" where
  "octet s = (if 1 \<le> length s \<and> length s \<le> 3 \<and> list_all is_digit s then Some (digits_value 0 s) else None)"

definition ipv4Pattern :: "jstr \<Rightarrow> int list option" where
  "ipv4Pattern s = (case map octet (split_at 46 s) of
     [Some a, Some b, Some c, Some d] \<Rightarrow> Some [a, b, c, d] | _ \<Rightarrow> None)"

definition hex_digit :: "int \<Rightarrow> int option" where
  "hex_digit c = (if is_digit c then Some (c - 48)
     else if 97 \<le> ascii_lower_char c \<and> ascii_lower_char c \<le> 102 then Some (ascii_lower_char c - 87) else None)"

fun hex_value :: "int \<Rightarrow> jstr \<Rightarrow> int option" where
  "hex_value acc [] = Some acc"
| "hex_value acc (c # s) = (case hex_digit c of None \<Rightarrow> None | Some d \<Rightarrow> hex_value (16 * acc + d) s)"

definition hex_group :: "jstr \<Rightarrow> 8 word list option" where
  "hex_group s = (if s = [] \<or> length s > 4 then None
     else map_option (\<lambda>v. [word_of_int (v div 256), word_of_int v]) (hex_value 0 s))"

fun hex_groups :: "jstr list \<Rightarrow> 8 word list option" where
  "hex_groups [] = Some []"
| "hex_groups (g # gs) = (case hex_group g of None \<Rightarrow> None
     | Some bs \<Rightarrow> map_option (\<lambda>rest. bs @ rest) (hex_groups gs))"

text \<open>\<open>split('::')\<close>.\<close>

fun split_double :: "jstr \<Rightarrow> jstr \<Rightarrow> jstr list" where
  "split_double acc [] = [rev acc]"
| "split_double acc [c] = [rev (c # acc)]"
| "split_double acc (c # d # s) = (if c = 58 \<and> d = 58 then rev acc # split_double [] s else split_double (c # acc) (d # s))"

definition groups_of :: "jstr \<Rightarrow> jstr list" where
  "groups_of half = (if half = [] then [] else split_at 58 half)"

definition eight_groups :: "jstr list \<Rightarrow> 8 word list option" where
  "eight_groups gs = (if length gs \<noteq> 8 then None else hex_groups gs)"

definition ipv6ToBytes :: "jstr \<Rightarrow> 8 word list option attempt" where
  "ipv6ToBytes a =
     (if 58 \<notin> set a then Returned None
      else (case split_double [] a of
        [whole] \<Rightarrow> Returned (eight_groups (groups_of whole))
      | [l, r] \<Rightarrow> (let left = groups_of l; right = groups_of r in
          if length left + length right > 8 then RangeError
          else Returned (eight_groups (left @ replicate (8 - length left - length right) (asc ''0'') @ right)))
      | _ \<Rightarrow> Returned None))"

section \<open>Termination of \<open>ipToBytes\<close>\<close>

lemma length_trim: "length (trim s) \<le> length s"
  unfolding trim_def by (metis length_dropWhile_le length_rev order_trans)

definition captures_within :: "nat \<Rightarrow> matching \<Rightarrow> bool" where
  "captures_within n m \<longleftrightarrow> length (fst (snd m)) \<le> n \<and> (\<forall>c \<in> set (snd (snd m)). length (snd c) \<le> n)"

lemma iterate_captures:
  "(\<And>m m'. m' \<in> set (f m) \<Longrightarrow> captures_within n m \<Longrightarrow> captures_within n m') \<Longrightarrow>
   m' \<in> set (iterate greedy k f m) \<Longrightarrow> captures_within n m \<Longrightarrow> captures_within n m'"
proof (induction k arbitrary: m m')
  case (Suc k)
  have "m' = m \<or> (\<exists>x \<in> set (f m). m' \<in> set (iterate greedy k f x))"
    using Suc.prems(2) by (auto simp: Let_def split: if_splits)
  then show ?case
  proof
    assume "\<exists>x \<in> set (f m). m' \<in> set (iterate greedy k f x)"
    then obtain x where x: "x \<in> set (f m)" "m' \<in> set (iterate greedy k f x)" ..
    show ?thesis by (rule Suc.IH [OF Suc.prems(1) x(2) Suc.prems(1) [OF x(1) Suc.prems(3)]])
  qed (use Suc.prems in simp)
qed simp

lemma ends_captures: "m' \<in> set (ends p m) \<Longrightarrow> captures_within n m \<Longrightarrow> captures_within n m'"
proof (induction p arbitrary: m m')
  case (Cls p)
  then show ?case by (auto simp: captures_within_def split: prod.splits list.splits if_splits)
next
  case (Seq a b)
  then obtain x where "x \<in> set (ends a m)" "m' \<in> set (ends b x)" by auto
  with Seq.IH Seq.prems(2) show ?case by blast
next
  case (Star greedy a)
  show ?case by (rule iterate_captures [OF Star.IH]) (use Star.prems in simp_all)
next
  case (Rep greedy k a)
  show ?case by (rule iterate_captures [OF Rep.IH]) (use Rep.prems in simp_all)
next
  case (Cap i a)
  from Cap.prems obtain x where x: "x \<in> set (ends a m)" "m' = (fst x, fst (snd x), (i, consumed m x) # snd (snd x))" by auto
  from Cap.IH [OF x(1) Cap.prems(2)] Cap.prems(2) x(2) show ?case
    by (auto simp: captures_within_def consumed_def)
qed (auto split: if_splits list.splits)

lemma search_captures: "search p l r = Some (l', r', m) \<Longrightarrow> length r \<le> n \<Longrightarrow> captures_within n m"
proof (induction p l r rule: search.induct)
  case (1 p l)
  then obtain ms where "ends p (l, [], []) = m # ms" by (auto split: list.splits)
  then have "m \<in> set (ends p (l, [], []))" by simp
  from ends_captures [OF this, of n] show ?case by (simp add: captures_within_def)
next
  case (2 p l x xs)
  show ?case
  proof (cases "ends p (l, x # xs, [])")
    case Nil
    with 2 show ?thesis by simp
  next
    case (Cons m' ms)
    with 2 have "m \<in> set (ends p (l, x # xs, []))" by simp
    from ends_captures [OF this, of n] 2(3) show ?thesis by (simp add: captures_within_def)
  qed
qed

lemma exec_group_length: "exec p s = Some (t, caps) \<Longrightarrow> length (group caps i) \<le> length s"
  by (fastforce simp: exec_def group_def captures_within_def split: option.splits
      dest!: search_captures [of _ _ _ _ _ _ "length s"] map_of_SomeD)

lemma split_on_lengths: "x \<in> set (split_on sep acc s) \<Longrightarrow> length x \<le> length acc + length s"
  by (induction sep acc s rule: split_on.induct) (auto split: if_splits)

lemma normalise_shorter: "normalise (Some v) = Some a \<Longrightarrow> length a \<le> length v"
proof -
  assume n: "normalise (Some v) = Some a"
  have "length (host_of x) \<le> length x" for x
    using split_on_lengths [of "host_of x" 58 "[]" x] by (auto simp: host_of_def split_at_def split: list.split)
  moreover have "length (unmapped (trim v)) \<le> length v" using length_trim [of v] by (auto simp: unmapped_def)
  ultimately show ?thesis
    using n by (auto simp: normalise_def Let_def split: if_splits option.splits dest!: exec_group_length [of _ _ _ _ 1] intro: order.trans)
qed

section \<open>Chains\<close>

definition bare_address :: "jstr \<Rightarrow> jstr" where
  "bare_address raw = (if raw \<noteq> [] \<and> hd raw = 91
     then (case normalise (Some raw) of None \<Rightarrow> raw | Some a \<Rightarrow> a) else raw)"

lemma bare_address_shorter: "length (bare_address v) \<le> length v"
  by (auto simp: bare_address_def normalise_shorter split: option.split)

function ipToBytes :: "jstr \<Rightarrow> 8 word list option attempt" where
  "ipToBytes raw = (let address = bare_address raw in
     case ipv4Pattern address of
       Some octets \<Rightarrow> Returned (if list_ex (\<lambda>x. x > 255) octets then None else Some (map word_of_int octets))
     | None \<Rightarrow>
         if map ascii_lower_char (take 7 address) = mapped_prefix then
           and_then (ipToBytes (drop 7 address)) (\<lambda>bytes. case bytes of
               Some bs \<Rightarrow> if length bs = 4 then Returned (Some bs) else ipv6ToBytes address
             | None \<Rightarrow> ipv6ToBytes address)
         else ipv6ToBytes address)"
  by pat_completeness auto
termination
proof (relation "measure length")
  fix raw address :: jstr
  assume a: "address = bare_address raw" and p: "map ascii_lower_char (take 7 address) = mapped_prefix"
  have "address \<noteq> []" using p by (auto simp: mapped_prefix_def asc_def)
  then have "length (drop 7 address) < length (bare_address raw)" using a by simp
  also note bare_address_shorter
  finally show "(drop 7 address, raw) \<in> measure length" by simp
qed simp

declare ipToBytes.simps [simp del]

record cidr =
  cidr_bytes :: "8 word list"
  prefix_length :: int

definition last_slash :: "jstr \<Rightarrow> (jstr \<times> jstr) option" where
  "last_slash s = (if 47 \<notin> set s then None
     else Some (rev (tl (dropWhile (\<lambda>c. c \<noteq> 47) (rev s))), rev (takeWhile (\<lambda>c. c \<noteq> 47) (rev s))))"

definition parseCidr :: "jstr \<Rightarrow> cidr option attempt" where
  "parseCidr raw = (case last_slash raw of
     None \<Rightarrow> and_then (ipToBytes raw) (\<lambda>bytes. Returned (map_option (\<lambda>bs. \<lparr>cidr_bytes = bs, prefix_length = 8 * int (length bs)\<rparr>) bytes))
   | Some (address, suffix) \<Rightarrow> and_then (ipToBytes address) (\<lambda>bytes. Returned (case bytes of
        None \<Rightarrow> None
      | Some bs \<Rightarrow>
          if suffix = [] \<or> \<not> list_all is_digit suffix then None
          else if digits_value 0 suffix \<le> 8 * int (length bs)
          then Some \<lparr>cidr_bytes = bs, prefix_length = digits_value 0 suffix\<rparr> else None)))"

fun same_prefix :: "8 word list \<Rightarrow> 8 word list \<Rightarrow> int \<Rightarrow> bool" where
  "same_prefix (a # as) (n # ns) remaining =
     (if remaining \<le> 0 then True
      else (let t = (if remaining \<ge> 8 then 8 else remaining);
                mask = (if t = 8 then 255 else push_bit (nat (8 - t)) 255) in
        if a AND mask \<noteq> n AND mask then False else same_prefix as ns (remaining - 8)))"
| "same_prefix as ns remaining = True"

definition withinCidr :: "8 word list \<Rightarrow> cidr \<Rightarrow> bool" where
  "withinCidr address network =
     (if length address \<noteq> length (cidr_bytes network) then False
      else same_prefix address (cidr_bytes network) (prefix_length network))"

definition present :: "'a option list \<Rightarrow> 'a list" where
  "present xs = concat (map (\<lambda>x. case x of None \<Rightarrow> [] | Some v \<Rightarrow> [v]) xs)"

definition nthFromTheRight :: "jstr \<Rightarrow> nat \<Rightarrow> jstr option" where
  "nthFromTheRight raw hops = (let chain = present (map (\<lambda>e. normalise (Some e)) (split_at 44 raw)) in
     if chain = [] then None
     else if length chain < hops then None
     else if hops = 0 then None else Some (chain ! (length chain - hops)))"

fun parse_cidrs :: "jstr list \<Rightarrow> cidr option list attempt" where
  "parse_cidrs [] = Returned []"
| "parse_cidrs (p # ps) = and_then (parseCidr p) (\<lambda>c. and_then (parse_cidrs ps) (\<lambda>cs. Returned (c # cs)))"

text \<open>The walk from the right; the list is the reversed chain.\<close>

fun walk_hops :: "cidr list \<Rightarrow> jstr list \<Rightarrow> jstr option attempt" where
  "walk_hops networks [] = Returned None"
| "walk_hops networks (entry # rest) = and_then (ipToBytes entry) (\<lambda>bytes. case bytes of
     None \<Rightarrow> Returned None
   | Some bs \<Rightarrow> if list_ex (withinCidr bs) networks then walk_hops networks rest
       else Returned (normalise (Some entry)))"

definition hop_chain :: "jstr \<Rightarrow> jstr list" where
  "hop_chain raw = filter (\<lambda>e. e \<noteq> []) (map trim (split_at 44 raw))"

definition firstUntrustedHop :: "jstr \<Rightarrow> jstr list \<Rightarrow> jstr option attempt" where
  "firstUntrustedHop raw trusted =
     (if hop_chain raw = [] then Returned None
      else and_then (parse_cidrs trusted) (\<lambda>cs.
        if present cs = [] then Returned None else walk_hops (present cs) (rev (hop_chain raw))))"

definition parseTrustedProxies :: "jstr option \<Rightarrow> jstr list attempt" where
  "parseTrustedProxies raw =
     (let entries = hop_chain (case raw of None \<Rightarrow> [] | Some s \<Rightarrow> s) in
      and_then (parse_cidrs entries) (\<lambda>cs. Returned (map fst (filter (\<lambda>e. snd e \<noteq> None) (zip entries cs)))))"

datatype proxy_strategy = Unconfigured | Socket | Forwarded nat "jstr list"

definition forwardedHeaderNames :: "string list" where
  "forwardedHeaderNames = [''x-forwarded-for'', ''x-real-ip'']"

definition first_header :: "(string \<Rightarrow> jstr option) \<Rightarrow> string list \<Rightarrow> jstr option" where
  "first_header headers names = map_option (\<lambda>n. the (headers n)) (List.find (\<lambda>n. headers n \<noteq> None \<and> headers n \<noteq> Some []) names)"

definition clientIp :: "(string \<Rightarrow> jstr option) \<Rightarrow> proxy_strategy \<Rightarrow> jstr option \<Rightarrow> string list \<Rightarrow> jstr option attempt" where
  "clientIp headers strategy socketAddress names = (case strategy of
     Unconfigured \<Rightarrow> Returned None
   | Socket \<Rightarrow> Returned (normalise socketAddress)
   | Forwarded hops trusted \<Rightarrow> (case first_header headers names of
       None \<Rightarrow> Returned (normalise socketAddress)
     | Some raw \<Rightarrow> and_then
         (if trusted \<noteq> [] then firstUntrustedHop raw trusted else Returned (nthFromTheRight raw hops))
         (\<lambda>found. Returned (if found \<noteq> None then found else normalise socketAddress))))"

text \<open>The bits of an address, most significant first.\<close>

definition byte_bits :: "8 word \<Rightarrow> bool list" where
  "byte_bits w = map (bit w) (rev [0..<8])"

definition address_bits :: "8 word list \<Rightarrow> bool list" where
  "address_bits bs = concat (map byte_bits bs)"

section \<open>Lemmas\<close>

lemma byte_bits_length [simp]: "length (byte_bits w) = 8"
  by (simp add: byte_bits_def)

lemma byte_bits_take:
  assumes "t \<le> 8"
  shows "take t (byte_bits a) = take t (byte_bits n) \<longleftrightarrow> (\<forall>i. 8 - t \<le> i \<and> i < 8 \<longrightarrow> bit a i = bit n i)"
proof
  assume eq: "take t (byte_bits a) = take t (byte_bits n)"
  have "bit a i = bit n i" if "8 - t \<le> i" "i < 8" for i
  proof -
    from that assms have "7 - i < t" "7 - i < 8" "7 - (7 - i) = i" by auto
    with arg_cong [OF eq, of "\<lambda>xs. xs ! (7 - i)"] show ?thesis by (simp add: byte_bits_def rev_nth)
  qed
  then show "\<forall>i. 8 - t \<le> i \<and> i < 8 \<longrightarrow> bit a i = bit n i" by blast
next
  assume eq: "\<forall>i. 8 - t \<le> i \<and> i < 8 \<longrightarrow> bit a i = bit n i"
  show "take t (byte_bits a) = take t (byte_bits n)"
  proof (rule nth_equalityI)
    fix j assume "j < length (take t (byte_bits a))"
    then have "8 - t \<le> 7 - j" "7 - j < 8" "j < t" "j < 8" using assms by auto
    with eq show "take t (byte_bits a) ! j = take t (byte_bits n) ! j" by (simp add: byte_bits_def rev_nth)
  qed simp
qed

lemma masked_eq:
  assumes "t \<le> 8"
  shows "(a AND push_bit (8 - t) 255 = n AND push_bit (8 - t) (255 :: 8 word)) \<longleftrightarrow> take t (byte_bits a) = take t (byte_bits n)"
proof -
  have m: "(255 :: 8 word) = mask 8" by (simp add: mask_eq_exp_minus_1)
  show ?thesis unfolding byte_bits_take [OF assms] m
    by (auto simp: bit_eq_iff bit_and_iff bit_push_bit_iff bit_mask_iff)
qed

lemma same_prefix_step:
  assumes "0 < k"
  shows "same_prefix (a # as) (n # ns) k \<longleftrightarrow>
    take (nat k) (byte_bits a) = take (nat k) (byte_bits n) \<and> same_prefix as ns (k - 8)"
proof (cases "k \<ge> 8")
  case True
  then have "take (nat k) (byte_bits x) = take 8 (byte_bits x)" for x by simp
  with True masked_eq [of 8 a n] show ?thesis by simp
next
  case False
  with assms have "nat (8 - k) = 8 - nat k" by (simp add: nat_diff_distrib)
  with False assms masked_eq [of "nat k" a n] show ?thesis by (simp add: Let_def)
qed

lemma same_prefix_bits:
  "length as = length ns \<Longrightarrow>
    same_prefix as ns k \<longleftrightarrow> take (nat k) (address_bits as) = take (nat k) (address_bits ns)"
proof (induction as ns arbitrary: k rule: list_induct2)
  case (Cons a as n ns)
  show ?case
  proof (cases "0 < k")
    case True
    have "nat (k - 8) = nat k - 8" by simp
    with Cons.IH [of "k - 8"] show ?thesis
      unfolding same_prefix_step [OF True] by (auto simp: address_bits_def)
  qed simp
qed simp

lemma present_append [simp]: "present (xs @ ys) = present xs @ present ys"
  by (simp add: present_def)

lemma walk_hops_append: "walk_hops networks hops = Returned (Some a) \<Longrightarrow> walk_hops networks (hops @ further) = Returned (Some a)"
proof (induction hops)
  case (Cons entry rest)
  then show ?case by (cases "ipToBytes entry") (auto split: option.splits if_splits)
qed simp

lemma nthFromTheRight_append:
  assumes "nthFromTheRight written hops = Some a"
  shows "nthFromTheRight (forged @ 44 # written) hops = Some a"
proof -
  let ?f = "present (map (\<lambda>e. normalise (Some e)) (split_at 44 forged))"
  let ?r = "present (map (\<lambda>e. normalise (Some e)) (split_at 44 written))"
  from assms have r: "?r \<noteq> []" "hops \<le> length ?r" "hops \<noteq> 0" "a = ?r ! (length ?r - hops)"
    by (auto simp: nthFromTheRight_def Let_def not_less split: if_splits)
  then have "(?f @ ?r) ! (length (?f @ ?r) - hops) = ?r ! (length ?r - hops)"
    using nth_append_right [of ?f "length ?f + length ?r - hops" ?r] by simp
  with r show ?thesis by (simp add: nthFromTheRight_def split_at_sep Let_def)
qed

lemma firstUntrustedHop_append:
  assumes "firstUntrustedHop written trusted = Returned (Some a)"
  shows "firstUntrustedHop (forged @ 44 # written) trusted = Returned (Some a)"
proof -
  have chain: "hop_chain (forged @ 44 # written) = hop_chain forged @ hop_chain written"
    by (simp add: hop_chain_def split_at_sep)
  show ?thesis
  proof (cases "parse_cidrs trusted")
    case RangeError
    with assms show ?thesis by (auto simp: firstUntrustedHop_def split: if_splits)
  next
    case (Returned cs)
    with assms show ?thesis by (auto simp: firstUntrustedHop_def chain walk_hops_append split: if_splits)
  qed
qed

section \<open>Properties\<close>

text \<open>
  C30. A caller cannot choose its own bucket.  When the forwarded chain the proxies wrote resolves to an address,
  by the hop count or by the trusted networks, anything the caller puts in front of that chain leaves the answer
  unchanged, whatever the socket says.
\<close>

theorem forged_prefix_ignored:
  assumes "headers ''x-forwarded-for'' = Some written" "written \<noteq> []"
    and "clientIp headers (Forwarded hops trusted) None forwardedHeaderNames = Returned (Some a)"
  shows "clientIp (headers(''x-forwarded-for'' \<mapsto> forged @ 44 # written)) (Forwarded hops trusted) peer forwardedHeaderNames = Returned (Some a)"
proof -
  have first: "first_header (headers(''x-forwarded-for'' \<mapsto> v)) forwardedHeaderNames = Some v" if "v \<noteq> []" for v
    using that by (simp add: first_header_def forwardedHeaderNames_def)
  have h: "first_header headers forwardedHeaderNames = Some written"
    using assms(1,2) by (simp add: first_header_def forwardedHeaderNames_def)
  have none: "normalise None = None" by (simp add: normalise_def)
  show ?thesis
  proof (cases "trusted = []")
    case True
    with assms(3) have "nthFromTheRight written hops = Some a" by (simp add: clientIp_def h none split: if_splits)
    with True show ?thesis by (simp add: clientIp_def first nthFromTheRight_append)
  next
    case False
    with assms(3) have "firstUntrustedHop written trusted = Returned (Some a)"
      by (cases "firstUntrustedHop written trusted") (auto simp: clientIp_def h none split: if_splits)
    with False show ?thesis by (simp add: clientIp_def first firstUntrustedHop_append)
  qed
qed

theorem forged_prefix_ignored_witness:
  "clientIp (Map.empty(''x-forwarded-for'' \<mapsto> asc ''6.6.6.6'' @ 44 # asc ''203.0.113.5'')) (Forwarded 1 []) None forwardedHeaderNames =
     Returned (Some (asc ''203.0.113.5''))"
proof -
  have "clientIp (Map.empty(''x-forwarded-for'' \<mapsto> asc ''203.0.113.5'')) (Forwarded 1 []) None forwardedHeaderNames =
      Returned (Some (asc ''203.0.113.5''))" by code_simp
  then show ?thesis
    using forged_prefix_ignored [of "Map.empty(''x-forwarded-for'' \<mapsto> asc ''203.0.113.5'')" "asc ''203.0.113.5''" 1 "[]"
        "asc ''203.0.113.5''" "asc ''6.6.6.6''" None] by (simp add: asc_simps)
qed

text \<open>
  C31. Network membership is a prefix of bits.  The masked comparison, byte by byte, decides whether the address
  has as many bytes as the network and agrees with it on its first \<open>prefix\<close> bits.
\<close>

theorem withinCidr_is_bit_prefix:
  "withinCidr bs network \<longleftrightarrow> length bs = length (cidr_bytes network) \<and>
     take (nat (prefix_length network)) (address_bits bs) = take (nat (prefix_length network)) (address_bits (cidr_bytes network))"
  by (auto simp: withinCidr_def same_prefix_bits)

text \<open>
  An address with too many groups raises.  \<open>ipv6ToBytes\<close> raises exactly on the texts with one \<open>::\<close> and more
  than eight groups around it, and through a trusted hop a request header reaches it.
\<close>

theorem ipv6_raises:
  "(ipv6ToBytes a = RangeError \<longleftrightarrow> 58 \<in> set a \<and>
     (\<exists>l r. split_double [] a = [l, r] \<and> 8 < length (groups_of l) + length (groups_of r))) \<and>
   clientIp (Map.empty(''x-forwarded-for'' \<mapsto> asc ''1:2:3:4:5::6:7:8:9,10.0.0.1'')) (Forwarded 1 [asc ''10.0.0.0/8'']) None
     forwardedHeaderNames = RangeError"
proof
  show "ipv6ToBytes a = RangeError \<longleftrightarrow> 58 \<in> set a \<and>
     (\<exists>l r. split_double [] a = [l, r] \<and> 8 < length (groups_of l) + length (groups_of r))"
    by (auto simp: ipv6ToBytes_def Let_def split: list.splits if_splits)
  show "clientIp (Map.empty(''x-forwarded-for'' \<mapsto> asc ''1:2:3:4:5::6:7:8:9,10.0.0.1'')) (Forwarded 1 [asc ''10.0.0.0/8'']) None
     forwardedHeaderNames = RangeError" by code_simp
qed

end
