(* ===== verification/Delivery.thy ===== *)
theory Delivery
  imports JsData
begin

text \<open>
  \<open>hub.ts\<close>, \<open>head-acks.ts\<close>, the pass of \<open>reconciler.ts\<close> and the frames of \<open>ws-server.ts\<close> that change what a socket is
  subscribed to.  A subscriber is its connection id.  A handler runs in one piece between two \<open>await\<close>s, so a
  subscription has two steps: it is asked for, and it is granted when the membership read returns.
\<close>

section \<open>The hub\<close>

record hub =
  rooms :: "jstr list store"
  bySubscriber :: "jstr list store"

definition empty_hub :: hub where
  "empty_hub = \<lparr>rooms = [], bySubscriber = []\<rparr>"

definition adjoin :: "'a \<Rightarrow> 'a list \<Rightarrow> 'a list" where
  "adjoin x xs = (if x \<in> set xs then xs else xs @ [x])"

definition listed :: "jstr list store \<Rightarrow> jstr \<Rightarrow> jstr list" where
  "listed m k = (case get m k of None \<Rightarrow> [] | Some xs \<Rightarrow> xs)"

text \<open>Taking an element out of the list of a key, and the key with its last element.\<close>

definition take_out :: "jstr \<Rightarrow> jstr \<Rightarrow> jstr list store \<Rightarrow> jstr list store" where
  "take_out k x m = (case get m k of None \<Rightarrow> m | Some xs \<Rightarrow>
     (let rest = filter (\<lambda>y. y \<noteq> x) xs in if rest = [] then del k m else put k rest m))"

definition hub_subscribe :: "jstr \<Rightarrow> jstr \<Rightarrow> hub \<Rightarrow> hub" where
  "hub_subscribe room c h = h\<lparr>rooms := put room (adjoin c (listed (rooms h) room)) (rooms h),
     bySubscriber := put c (adjoin room (listed (bySubscriber h) c)) (bySubscriber h)\<rparr>"

definition hub_unsubscribe :: "jstr \<Rightarrow> jstr \<Rightarrow> hub \<Rightarrow> hub" where
  "hub_unsubscribe room c h = h\<lparr>rooms := take_out room c (rooms h), bySubscriber := take_out c room (bySubscriber h)\<rparr>"

definition hub_drop :: "jstr \<Rightarrow> hub \<Rightarrow> hub" where
  "hub_drop c h = (let h' = foldl (\<lambda>h room. hub_unsubscribe room c h) h (listed (bySubscriber h) c)
     in h'\<lparr>bySubscriber := del c (bySubscriber h')\<rparr>)"

definition roomsOf :: "hub \<Rightarrow> jstr \<Rightarrow> jstr list" where
  "roomsOf h c = listed (bySubscriber h) c"

definition activeRooms :: "hub \<Rightarrow> jstr list" where
  "activeRooms h = keys (rooms h)"

definition subscribers :: "hub \<Rightarrow> jstr \<Rightarrow> jstr list" where
  "subscribers h room = listed (rooms h) room"

definition isSubscribed :: "hub \<Rightarrow> jstr \<Rightarrow> jstr \<Rightarrow> bool" where
  "isSubscribed h room c \<longleftrightarrow> c \<in> set (listed (rooms h) room)"

text \<open>A broadcast as the frames it hands to sockets; the count it returns is their number.\<close>

definition broadcast :: "hub \<Rightarrow> jstr \<Rightarrow> 'f \<Rightarrow> (jstr \<times> 'f) list" where
  "broadcast h room frame = map (\<lambda>c. (c, frame)) (subscribers h room)"

definition broadcastExcept :: "hub \<Rightarrow> jstr \<Rightarrow> jstr \<Rightarrow> 'f \<Rightarrow> (jstr \<times> 'f) list" where
  "broadcastExcept h room except frame = map (\<lambda>c. (c, frame)) (filter (\<lambda>c. c \<noteq> except) (subscribers h room))"

section \<open>Acknowledged heads\<close>

type_synonym head_acks = "int store store"

definition acks_of :: "head_acks \<Rightarrow> jstr \<Rightarrow> int store" where
  "acks_of a c = (case get a c of None \<Rightarrow> [] | Some m \<Rightarrow> m)"

definition acknowledged :: "head_acks \<Rightarrow> jstr \<Rightarrow> jstr \<Rightarrow> int" where
  "acknowledged a c room = (case get (acks_of a c) room of None \<Rightarrow> 0 | Some n \<Rightarrow> n)"

definition record_ack :: "(jstr \<Rightarrow> jstr \<Rightarrow> bool) \<Rightarrow> jstr \<Rightarrow> jstr \<Rightarrow> int \<Rightarrow> head_acks \<Rightarrow> head_acks \<times> bool" where
  "record_ack subscribed c room roomSeq a =
     (if roomSeq < 0 then (a, False)
      else if \<not> subscribed c room then (a, False)
      else (put c (put room (max (acknowledged a c room) roomSeq) (acks_of a c)) a, True))"

definition behind :: "head_acks \<Rightarrow> jstr \<Rightarrow> jstr \<Rightarrow> int \<Rightarrow> bool" where
  "behind a c room head \<longleftrightarrow> acknowledged a c room < head"

definition reset_ack :: "jstr \<Rightarrow> jstr \<Rightarrow> head_acks \<Rightarrow> head_acks" where
  "reset_ack c room a = put c (put room 0 (acks_of a c)) a"

definition forgetRoom :: "jstr \<Rightarrow> jstr \<Rightarrow> head_acks \<Rightarrow> head_acks" where
  "forgetRoom c room a = (case get a c of None \<Rightarrow> a
     | Some held \<Rightarrow> (let rest = del room held in if rest = [] then del c a else put c rest a))"

definition forget :: "jstr \<Rightarrow> head_acks \<Rightarrow> head_acks" where
  "forget c a = del c a"

section \<open>The server\<close>

record server =
  connections :: "jstr list"
  pending :: "(jstr \<times> jstr) list"
  probes :: "(jstr \<times> jstr) list list"
  server_hub :: hub
  headAcks :: head_acks

definition fresh_server :: server where
  "fresh_server = \<lparr>connections = [], pending = [], probes = [], server_hub = empty_hub, headAcks = []\<rparr>"

definition open_socket :: "jstr \<Rightarrow> server \<Rightarrow> server" where
  "open_socket c s = s\<lparr>connections := adjoin c (connections s)\<rparr>"

definition close_socket :: "jstr \<Rightarrow> server \<Rightarrow> server" where
  "close_socket c s = s\<lparr>server_hub := hub_drop c (server_hub s), headAcks := forget c (headAcks s),
     connections := filter (\<lambda>x. x \<noteq> c) (connections s)\<rparr>"

definition ask_subscribe :: "jstr \<Rightarrow> jstr \<Rightarrow> server \<Rightarrow> server" where
  "ask_subscribe c room s = s\<lparr>pending := pending s @ [(c, room)]\<rparr>"

definition grant_subscribe :: "jstr \<Rightarrow> jstr \<Rightarrow> server \<Rightarrow> server" where
  "grant_subscribe c room s = s\<lparr>pending := remove1 (c, room) (pending s),
     server_hub := hub_subscribe room c (server_hub s), headAcks := reset_ack c room (headAcks s)\<rparr>"

definition refuse_subscribe :: "jstr \<Rightarrow> jstr \<Rightarrow> server \<Rightarrow> server" where
  "refuse_subscribe c room s = s\<lparr>pending := remove1 (c, room) (pending s)\<rparr>"

definition leave_room :: "jstr \<Rightarrow> jstr \<Rightarrow> server \<Rightarrow> server" where
  "leave_room c room s = s\<lparr>server_hub := hub_unsubscribe room c (server_hub s), headAcks := forgetRoom c room (headAcks s)\<rparr>"

definition ack_head :: "jstr \<Rightarrow> jstr \<Rightarrow> int \<Rightarrow> server \<Rightarrow> server" where
  "ack_head c room n s = s\<lparr>headAcks := fst (record_ack (\<lambda>c room. isSubscribed (server_hub s) room c) c room n (headAcks s))\<rparr>"

text \<open>
  \<open>revalidateSubscriptions\<close>: the subscriptions of known connections are listed before the membership read, and
  those whose membership is gone leave their room after it.
\<close>

definition probe :: "server \<Rightarrow> server" where
  "probe s = s\<lparr>probes := probes s @ [concat (map (\<lambda>room. map (\<lambda>c. (c, room))
     (filter (\<lambda>c. c \<in> set (connections s)) (subscribers (server_hub s) room))) (activeRooms (server_hub s)))]\<rparr>"

definition revoke :: "(jstr \<times> jstr) list \<Rightarrow> (jstr \<times> jstr \<Rightarrow> bool) \<Rightarrow> server \<Rightarrow> server" where
  "revoke snapshot held s = foldl (\<lambda>s e. if held e then s else leave_room (fst e) (snd e) s)
     (s\<lparr>probes := remove1 snapshot (probes s)\<rparr>) snapshot"

text \<open>
  The head frames of one reconciliation pass.  The subscribed rooms are listed before the ledger is asked;
  \<open>heads\<close> is what it answers.
\<close>

definition onHead :: "server \<Rightarrow> jstr \<Rightarrow> int \<Rightarrow> (jstr \<times> jstr \<times> int) list" where
  "onHead s room head = map (\<lambda>c. (c, room, head)) (filter (\<lambda>c. behind (headAcks s) c room head) (subscribers (server_hub s) room))"

definition head_pass :: "jstr list \<Rightarrow> (jstr \<Rightarrow> int option) \<Rightarrow> server \<Rightarrow> (jstr \<times> jstr \<times> int) list" where
  "head_pass listened heads s = concat (map (\<lambda>room. let head = (case heads room of None \<Rightarrow> 0 | Some n \<Rightarrow> n) in
     if head = 0 then [] else onHead s room head) listened)"

datatype socket_event =
    Opened jstr
  | Closed jstr
  | Asked jstr jstr
  | Granted jstr jstr
  | RefusedSubscription jstr jstr
  | Left jstr jstr
  | Acked jstr jstr int
  | Probed
  | Revoked "(jstr \<times> jstr) list" "jstr \<times> jstr \<Rightarrow> bool"

text \<open>A frame is read from an open socket; a membership read returns whenever it does.\<close>

fun enabled :: "server \<Rightarrow> socket_event \<Rightarrow> bool" where
  "enabled s (Opened c) = (c \<notin> set (connections s))"
| "enabled s (Closed c) = (c \<in> set (connections s))"
| "enabled s (Asked c room) = (c \<in> set (connections s))"
| "enabled s (Granted c room) = ((c, room) \<in> set (pending s))"
| "enabled s (RefusedSubscription c room) = ((c, room) \<in> set (pending s))"
| "enabled s (Left c room) = (c \<in> set (connections s))"
| "enabled s (Acked c room n) = (c \<in> set (connections s))"
| "enabled s Probed = True"
| "enabled s (Revoked snapshot held) = (snapshot \<in> set (probes s))"

fun perform :: "server \<Rightarrow> socket_event \<Rightarrow> server" where
  "perform s (Opened c) = open_socket c s"
| "perform s (Closed c) = close_socket c s"
| "perform s (Asked c room) = ask_subscribe c room s"
| "perform s (Granted c room) = grant_subscribe c room s"
| "perform s (RefusedSubscription c room) = refuse_subscribe c room s"
| "perform s (Left c room) = leave_room c room s"
| "perform s (Acked c room n) = ack_head c room n s"
| "perform s Probed = probe s"
| "perform s (Revoked snapshot held) = revoke snapshot held s"

inductive serves :: "socket_event list \<Rightarrow> server \<Rightarrow> bool" where
  started: "serves [] fresh_server"
| happened: "serves es s \<Longrightarrow> enabled s e \<Longrightarrow> serves (es @ [e]) (perform s e)"

text \<open>What a socket has said it holds of a room since it was last let in.\<close>

fun said :: "jstr \<Rightarrow> jstr \<Rightarrow> int \<Rightarrow> socket_event \<Rightarrow> int" where
  "said c room n (Granted c' room') = (if c' = c \<and> room' = room then 0 else n)"
| "said c room n (Acked c' room' k) = (if c' = c \<and> room' = room \<and> 0 \<le> k then max n k else n)"
| "said c room n e = n"

definition position :: "socket_event list \<Rightarrow> jstr \<Rightarrow> jstr \<Rightarrow> int" where
  "position es c room = foldl (said c room) 0 es"

text \<open>A socket that joins a room, and one that closes while the membership read is in flight.\<close>

definition joined_trace :: "socket_event list" where
  "joined_trace = [Opened (asc ''a''), Asked (asc ''a'') (asc ''r''), Granted (asc ''a'') (asc ''r'')]"

definition ghost_trace :: "socket_event list" where
  "ghost_trace = [Opened (asc ''a''), Asked (asc ''a'') (asc ''r''), Closed (asc ''a''), Granted (asc ''a'') (asc ''r'')]"

fun replay :: "server \<Rightarrow> socket_event list \<Rightarrow> server option" where
  "replay s [] = Some s"
| "replay s (e # es) = (if enabled s e then replay (perform s e) es else None)"

section \<open>The hub as a relation\<close>

definition subscriptions :: "hub \<Rightarrow> (jstr \<times> jstr) set" where
  "subscriptions h = {(room, c). isSubscribed h room c}"

definition hub_ok :: "hub \<Rightarrow> bool" where
  "hub_ok h \<longleftrightarrow> (\<forall>room c. c \<in> set (listed (rooms h) room) \<longleftrightarrow> room \<in> set (listed (bySubscriber h) c)) \<and>
     (\<forall>k. get (rooms h) k \<noteq> Some []) \<and> (\<forall>k. get (bySubscriber h) k \<noteq> Some []) \<and>
     (\<forall>k. distinct (listed (rooms h) k)) \<and> (\<forall>k. distinct (listed (bySubscriber h) k))"

lemma listed_simps [simp]:
  "listed (put k xs m) k' = (if k' = k then xs else listed m k')"
  "listed (del k m) k' = (if k' = k then [] else listed m k')"
  "listed (take_out k x m) k' = (if k' = k then filter (\<lambda>y. y \<noteq> x) (listed m k) else listed m k')"
  by (auto simp: listed_def take_out_def Let_def split: option.split)

lemma listed_empty [simp]: "listed [] k = []"
  by (simp add: listed_def get_def)

lemma set_adjoin [simp]: "set (adjoin x xs) = insert x (set xs)"
  by (auto simp: adjoin_def)

lemma distinct_adjoin [simp]: "distinct (adjoin x xs) = distinct xs"
  by (auto simp: adjoin_def)

lemma adjoin_nonempty [simp]: "adjoin x xs \<noteq> []"
  by (auto simp: adjoin_def)

lemma take_out_nonempty: "(\<And>k. get m k \<noteq> Some []) \<Longrightarrow> get (take_out k x m) k' \<noteq> Some []"
  by (auto simp: take_out_def Let_def split: option.split)

lemma empty_hub_ok [simp]: "hub_ok empty_hub"
  by (simp add: hub_ok_def empty_hub_def get_def)

lemma subscribe_ok: "hub_ok h \<Longrightarrow> hub_ok (hub_subscribe room c h)"
  by (auto simp: hub_ok_def hub_subscribe_def)

lemma unsubscribe_ok: "hub_ok h \<Longrightarrow> hub_ok (hub_unsubscribe room c h)"
  unfolding hub_ok_def hub_unsubscribe_def by (auto simp: take_out_nonempty)

lemma unsubscribe_each:
  "hub_ok h \<Longrightarrow> hub_ok (foldl (\<lambda>h room. hub_unsubscribe room c h) h rs) \<and>
    (\<forall>room. listed (rooms (foldl (\<lambda>h room. hub_unsubscribe room c h) h rs)) room =
       (if room \<in> set rs then filter (\<lambda>y. y \<noteq> c) (listed (rooms h) room) else listed (rooms h) room)) \<and>
    (\<forall>c'. listed (bySubscriber (foldl (\<lambda>h room. hub_unsubscribe room c h) h rs)) c' =
       (if c' = c then filter (\<lambda>r. r \<notin> set rs) (listed (bySubscriber h) c) else listed (bySubscriber h) c'))"
proof (induction rs arbitrary: h)
  case (Cons r rs)
  from Cons.IH [OF unsubscribe_ok [OF Cons.prems], of r c] Cons.prems show ?case
    by (auto simp: hub_unsubscribe_def intro!: filter_cong)
qed (simp add: filter_empty_conv)

lemma drop_spec:
  assumes "hub_ok h"
  shows "hub_ok (hub_drop c h)" and "isSubscribed (hub_drop c h) room c' \<longleftrightarrow> isSubscribed h room c' \<and> c' \<noteq> c"
proof -
  let ?h = "foldl (\<lambda>h room. hub_unsubscribe room c h) h (listed (bySubscriber h) c)"
  note each = unsubscribe_each [OF assms, of c "listed (bySubscriber h) c"]
  then have gone: "listed (bySubscriber ?h) c = []" by (simp add: filter_empty_conv)
  from each gone have ok: "hub_ok ?h" by simp
  from gone have "get (bySubscriber ?h) c = None"
    using ok by (auto simp: listed_def hub_ok_def split: option.splits)
  then have "c \<notin> set (keys (bySubscriber ?h))" by (simp add: keys_get)
  then have same: "hub_drop c h = ?h" by (simp add: hub_drop_def Let_def del_absent)
  show "hub_ok (hub_drop c h)" using ok same by simp
  show "isSubscribed (hub_drop c h) room c' \<longleftrightarrow> isSubscribed h room c' \<and> c' \<noteq> c"
    using each assms unfolding same isSubscribed_def by (auto simp: hub_ok_def)
qed

lemma subscribed_simps [simp]:
  "isSubscribed (hub_subscribe room c h) room' c' \<longleftrightarrow> isSubscribed h room' c' \<or> room' = room \<and> c' = c"
  "isSubscribed (hub_unsubscribe room c h) room' c' \<longleftrightarrow> isSubscribed h room' c' \<and> \<not> (room' = room \<and> c' = c)"
  "\<not> isSubscribed empty_hub room c"
  by (auto simp: isSubscribed_def hub_subscribe_def hub_unsubscribe_def empty_hub_def)

lemma active_iff:
  assumes "hub_ok h"
  shows "room \<in> set (activeRooms h) \<longleftrightarrow> (\<exists>c. isSubscribed h room c)"
proof (cases "get (rooms h) room")
  case (Some xs)
  with assms have "xs \<noteq> []" by (auto simp: hub_ok_def)
  with Some show ?thesis by (auto simp: activeRooms_def keys_get isSubscribed_def listed_def neq_Nil_conv)
qed (simp add: activeRooms_def keys_get isSubscribed_def listed_def)

section \<open>The acknowledgements follow the subscriptions\<close>

lemma get_empty [simp]: "get [] k = None"
  by (simp add: get_def)

lemma get_acks_simps [simp]:
  "get (acks_of (reset_ack c room a) c') room' = (if c' = c \<and> room' = room then Some 0 else get (acks_of a c') room')"
  "get (acks_of (forgetRoom c room a) c') room' = (if c' = c \<and> room' = room then None else get (acks_of a c') room')"
  "get (acks_of (forget c a) c') room' = (if c' = c then None else get (acks_of a c') room')"
proof -
  show "get (acks_of (forgetRoom c room a) c') room' = (if c' = c \<and> room' = room then None else get (acks_of a c') room')"
  proof (cases "get a c")
    case (Some held)
    have "get (del room held) room' = (if room' = room then None else get held room')" by simp
    then have "get held room' = None" if "del room held = []" "room' \<noteq> room" using that by simp
    with Some show ?thesis by (auto simp: forgetRoom_def acks_of_def Let_def)
  qed (simp add: forgetRoom_def acks_of_def)
qed (auto simp: reset_ack_def forget_def acks_of_def split: option.split)

lemma acks_of_empty [simp]: "acks_of [] c = []"
  by (simp add: acks_of_def)

lemma get_record_ack:
  "get (acks_of (fst (record_ack subscribed c room n a)) c') room' =
     (if c' = c \<and> room' = room \<and> 0 \<le> n \<and> subscribed c room then Some (max (acknowledged a c room) n) else get (acks_of a c') room')"
  by (auto simp: record_ack_def acks_of_def)

definition acks_match :: "server \<Rightarrow> bool" where
  "acks_match s \<longleftrightarrow> (\<forall>c room. get (acks_of (headAcks s) c) room \<noteq> None \<longleftrightarrow> isSubscribed (server_hub s) room c)"

lemma leave_room_simps [simp]:
  "connections (leave_room c room s) = connections s" "pending (leave_room c room s) = pending s"
  "server_hub (leave_room c room s) = hub_unsubscribe room c (server_hub s)"
  "headAcks (leave_room c room s) = forgetRoom c room (headAcks s)"
  by (simp_all add: leave_room_def)

text \<open>A revocation is a number of departures.\<close>

lemma revoke_induct:
  assumes "P (s\<lparr>probes := remove1 snapshot (probes s)\<rparr>)" "\<And>s c room. P s \<Longrightarrow> P (leave_room c room s)"
  shows "P (revoke snapshot held s)"
proof -
  have "P (foldl (\<lambda>s e. if held e then s else leave_room (fst e) (snd e) s) s0 es)" if "P s0" for s0 es
    using that by (induction es arbitrary: s0) (simp_all add: assms(2))
  with assms(1) show ?thesis by (simp add: revoke_def)
qed

text \<open>
  What every handler keeps holds in every state the server reaches.  The laws ask for each handler once; a
  revocation is covered by departures.
\<close>

locale kept_by_handlers =
  fixes kept :: "socket_event list \<Rightarrow> server \<Rightarrow> bool"
  assumes begins: "kept [] fresh_server"
    and opened: "kept es s \<Longrightarrow> kept (es @ [Opened c]) (open_socket c s)"
    and closed: "kept es s \<Longrightarrow> kept (es @ [Closed c]) (close_socket c s)"
    and asked: "kept es s \<Longrightarrow> c \<in> set (connections s) \<Longrightarrow> kept (es @ [Asked c room]) (ask_subscribe c room s)"
    and granted: "kept es s \<Longrightarrow> (c, room) \<in> set (pending s) \<Longrightarrow> kept (es @ [Granted c room]) (grant_subscribe c room s)"
    and refused: "kept es s \<Longrightarrow> kept (es @ [RefusedSubscription c room]) (refuse_subscribe c room s)"
    and acked: "kept es s \<Longrightarrow> kept (es @ [Acked c room n]) (ack_head c room n s)"
    and probed: "kept es s \<Longrightarrow> kept es (s\<lparr>probes := ps\<rparr>)"
    and left: "kept es s \<Longrightarrow> kept es (leave_room c room s)"
    and silent: "kept es s \<Longrightarrow> e = Probed \<or> (\<exists>snapshot held. e = Revoked snapshot held) \<or> (\<exists>c room. e = Left c room) \<Longrightarrow> kept (es @ [e]) s"
begin

lemma always: "serves es s \<Longrightarrow> kept es s"
proof (induction rule: serves.induct)
  case (happened es s e)
  then show ?case
  proof (cases e)
    case (Revoked snapshot held)
    have "kept es (revoke snapshot held s)"
      by (rule revoke_induct) (auto intro: probed left happened.IH)
    with Revoked show ?thesis by (simp add: silent)
  next
    case Probed
    with happened show ?thesis by (auto simp: probe_def intro!: silent probed)
  qed (auto intro: opened closed asked granted refused acked left silent)
qed (rule begins)

end

lemmas handlers = open_socket_def close_socket_def ask_subscribe_def grant_subscribe_def refuse_subscribe_def ack_head_def

interpretation acks: kept_by_handlers "\<lambda>es s. hub_ok (server_hub s) \<and> acks_match s"
  by unfold_locales
    (auto simp: handlers fresh_server_def subscribe_ok unsubscribe_ok drop_spec acks_match_def get_record_ack)

text \<open>A subscribed socket's entry is what it said.\<close>

definition positions_kept :: "socket_event list \<Rightarrow> server \<Rightarrow> bool" where
  "positions_kept es s \<longleftrightarrow> hub_ok (server_hub s) \<and>
     (\<forall>c room. isSubscribed (server_hub s) room c \<longrightarrow> acknowledged (headAcks s) c room = position es c room)"

lemma position_snoc: "position (es @ [e]) c room = said c room (position es c room) e"
  by (simp add: position_def)

interpretation positions: kept_by_handlers positions_kept
  by unfold_locales
    (auto simp: positions_kept_def handlers fresh_server_def subscribe_ok unsubscribe_ok drop_spec position_snoc
      acknowledged_def get_record_ack)

text \<open>A closed socket that is subscribed was let in after it closed.\<close>

definition let_in_late :: "socket_event list \<Rightarrow> jstr \<Rightarrow> jstr \<Rightarrow> bool" where
  "let_in_late es c room \<longleftrightarrow> (\<exists>before after. es = before @ after \<and> Closed c \<in> set before \<and> Granted c room \<in> set after)"

lemma let_in_late_more: "let_in_late es c room \<Longrightarrow> let_in_late (es @ [e]) c room"
  unfolding let_in_late_def by (metis append_assoc in_set_conv_decomp Un_iff set_append)

lemma let_in_late_now: "Closed c \<in> set es \<Longrightarrow> let_in_late (es @ [Granted c room]) c room"
  unfolding let_in_late_def by (intro exI [of _ es] exI [of _ "[Granted c room]"]) simp

definition ghosts_explained :: "socket_event list \<Rightarrow> server \<Rightarrow> bool" where
  "ghosts_explained es s \<longleftrightarrow> hub_ok (server_hub s) \<and>
     (\<forall>c room. (c, room) \<in> set (pending s) \<longrightarrow> c \<in> set (connections s) \<or> Closed c \<in> set es) \<and>
     (\<forall>c room. isSubscribed (server_hub s) room c \<and> c \<notin> set (connections s) \<longrightarrow> let_in_late es c room)"

interpretation ghosts: kept_by_handlers ghosts_explained
  by unfold_locales
    (auto simp: ghosts_explained_def handlers fresh_server_def subscribe_ok unsubscribe_ok drop_spec
      intro: let_in_late_more let_in_late_now dest!: subsetD [OF set_remove1_subset])

lemma replay_serves: "replay s es = Some s' \<Longrightarrow> serves before s \<Longrightarrow> serves (before @ es) s'"
proof (induction es arbitrary: s before)
  case (Cons e es)
  then show ?case using Cons.IH [of "perform s e" "before @ [e]"] by (auto split: if_splits intro: happened)
qed simp

section \<open>Properties\<close>

text \<open>
  The hub is a relation.  The two indexes mirror each other, a room has an entry exactly while somebody is
  in it, and subscribing, unsubscribing and dropping a socket add the pair, remove it, and remove the
  socket's pairs.
\<close>

theorem hub_refines_relation:
  assumes "hub_ok h"
  shows "subscriptions (hub_subscribe room c h) = insert (room, c) (subscriptions h) \<and>
    subscriptions (hub_unsubscribe room c h) = subscriptions h - {(room, c)} \<and>
    subscriptions (hub_drop c h) = subscriptions h - UNIV \<times> {c} \<and>
    set (roomsOf h c) = {room. (room, c) \<in> subscriptions h} \<and> set (activeRooms h) = fst ` subscriptions h \<and>
    hub_ok (hub_subscribe room c h) \<and> hub_ok (hub_unsubscribe room c h) \<and> hub_ok (hub_drop c h)"
proof -
  have "set (roomsOf h c) = {room. (room, c) \<in> subscriptions h}"
    using assms by (auto simp: roomsOf_def subscriptions_def isSubscribed_def hub_ok_def)
  moreover have "set (activeRooms h) = fst ` subscriptions h"
    using active_iff [OF assms] by (auto simp: subscriptions_def image_iff)
  ultimately show ?thesis
    using assms by (auto simp: subscriptions_def drop_spec subscribe_ok unsubscribe_ok)
qed

theorem hub_refines_relation_witness:
  "subscriptions (hub_drop (asc ''a'') (hub_subscribe (asc ''r'') (asc ''a'') empty_hub)) = {}"
proof -
  have ok: "hub_ok (hub_subscribe (asc ''r'') (asc ''a'') empty_hub)"
    using hub_refines_relation [OF empty_hub_ok, of "asc ''r''" "asc ''a''"] by blast
  have "subscriptions empty_hub = {}" by (simp add: subscriptions_def)
  then show ?thesis
    using hub_refines_relation [OF empty_hub_ok, of "asc ''r''" "asc ''a''"]
      hub_refines_relation [OF ok, of "asc ''r''" "asc ''a''"] by auto
qed

text \<open>
  Acknowledgements are bounded by subscriptions.  In every state the server reaches, it holds an
  acknowledged position for a socket and a room exactly when the socket is subscribed to the room: no frame a
  client sends can make it remember another.
\<close>

theorem acks_bounded_by_subscriptions:
  assumes "serves es s"
  shows "get (acks_of (headAcks s) c) room \<noteq> None \<longleftrightarrow> isSubscribed (server_hub s) room c"
  using acks.always [OF assms] by (auto simp: acks_match_def)

theorem acks_bounded_by_subscriptions_witness:
  "get (acks_of (headAcks (the (replay fresh_server joined_trace))) (asc ''a'')) (asc ''r'') \<noteq> None \<longleftrightarrow>
   isSubscribed (server_hub (the (replay fresh_server joined_trace))) (asc ''r'') (asc ''a'')"
proof (rule acks_bounded_by_subscriptions)
  have "replay fresh_server joined_trace \<noteq> None" by code_simp
  then show "serves joined_trace (the (replay fresh_server joined_trace))"
    using replay_serves [OF _ started, of joined_trace] by auto
qed

text \<open>
  C26. The head is told until it is acknowledged.  In every state the server reaches, a reconciliation pass sends
  a socket the head of a room exactly when the room was listed and has a head, the socket is subscribed and
  the highest position it acknowledged since it was let in is below the head; nothing the server sent counts.
\<close>

theorem head_told_until_acknowledged:
  assumes "serves es s"
  shows "(c, room, head) \<in> set (head_pass listened heads s) \<longleftrightarrow>
    room \<in> set listened \<and> heads room = Some head \<and> head \<noteq> 0 \<and> isSubscribed (server_hub s) room c \<and>
    position es c room < head"
proof -
  have pos: "isSubscribed (server_hub s) room c \<Longrightarrow> acknowledged (headAcks s) c room = position es c room"
    using positions.always [OF assms] by (auto simp: positions_kept_def)
  define h where "h r = (case heads r of None \<Rightarrow> 0 | Some n \<Rightarrow> n)" for r
  have "head_pass listened heads s = concat (map (\<lambda>r. if h r = 0 then [] else onHead s r (h r)) listened)"
    by (simp only: head_pass_def h_def Let_def)
  then have "(c, room, head) \<in> set (head_pass listened heads s) \<longleftrightarrow> room \<in> set listened \<and> h room = head \<and>
      head \<noteq> 0 \<and> c \<in> set (subscribers (server_hub s) room) \<and> acknowledged (headAcks s) c room < head"
    by (auto simp: onHead_def behind_def)
  moreover have "h room = head \<and> head \<noteq> 0 \<longleftrightarrow> heads room = Some head \<and> head \<noteq> 0" by (auto simp: h_def split: option.split)
  ultimately have "(c, room, head) \<in> set (head_pass listened heads s) \<longleftrightarrow> room \<in> set listened \<and> heads room = Some head \<and>
      head \<noteq> 0 \<and> c \<in> set (subscribers (server_hub s) room) \<and> acknowledged (headAcks s) c room < head" by blast
  then show ?thesis using pos by (auto simp: subscribers_def isSubscribed_def)
qed

theorem head_told_until_acknowledged_witness:
  "(asc ''a'', asc ''r'', 4) \<in> set (head_pass [asc ''r''] (\<lambda>_. Some 4) (the (replay fresh_server (joined_trace @ [Acked (asc ''a'') (asc ''r'') 3]))))"
proof -
  let ?t = "joined_trace @ [Acked (asc ''a'') (asc ''r'') 3]"
  have "replay fresh_server ?t \<noteq> None" by code_simp
  then have s: "serves ?t (the (replay fresh_server ?t))" using replay_serves [OF _ started, of ?t] by auto
  have "isSubscribed (server_hub (the (replay fresh_server ?t))) (asc ''r'') (asc ''a'')" by code_simp
  moreover have "position ?t (asc ''a'') (asc ''r'') < 4" by code_simp
  ultimately show ?thesis unfolding head_told_until_acknowledged [OF s] by simp
qed

text \<open>
  C27. A closed socket is in a room only if it was let in late.  In every state the server reaches, a subscribed
  socket that is not open was granted its subscription after it closed: its membership read was in flight.
\<close>

theorem ghost_was_let_in_late:
  assumes "serves es s" "isSubscribed (server_hub s) room c" "c \<notin> set (connections s)"
  shows "let_in_late es c room"
  using ghosts.always [OF assms(1)] assms(2,3) by (auto simp: ghosts_explained_def)

theorem ghost_was_let_in_late_witness:
  "let_in_late ghost_trace (asc ''a'') (asc ''r'')"
proof -
  have "replay fresh_server ghost_trace \<noteq> None" by code_simp
  then have "serves ghost_trace (the (replay fresh_server ghost_trace))" using replay_serves [OF _ started, of ghost_trace] by auto
  moreover have "isSubscribed (server_hub (the (replay fresh_server ghost_trace))) (asc ''r'') (asc ''a'')" by code_simp
  moreover have "asc ''a'' \<notin> set (connections (the (replay fresh_server ghost_trace)))" by code_simp
  ultimately show ?thesis by (rule ghost_was_let_in_late)
qed

end
