(* ===== verification/Journal.thy ===== *)
theory Journal
  imports JsData
begin

text \<open>
  \<open>journal.ts\<close> of the channel loop: the durable outcome journal.  A line of the file is what the two schemas read
  from it, so a torn or foreign line is one that neither reads; JSON printed from a record reads back as that
  record.  Opening throws (here \<open>None\<close>) where the source does.
\<close>

section \<open>The reduced state\<close>

datatype route_class = DrawClass | SteerClass | AnswerClass | IgnoreClass

datatype outcome_kind =
    PlanRequestedKind | DrawTakenKind | DrawRefusedKind | FundedTerminalKind | SessionOpenedKind | SteeredKind
  | AnsweredKind | IgnoredKind | SessionTerminalKind | PlanSettledKind | AdvanceKind | SnapshotKind

record cause_state =
  cause_class :: route_class
  cause_step :: outcome_kind
  cause_planId :: "jstr option"
  cause_sessionId :: "jstr option"
  cause_clientMessageId :: "jstr option"
  retried :: bool

record plan_state =
  plan_cause :: jstr
  plan_sessions :: "jstr list"
  plan_terminal :: "jstr list"
  plan_settled :: bool

record journal_state =
  journal_cursor :: nat
  causes :: "cause_state store"
  plans :: "plan_state store"
  sessions :: "jstr store"

definition empty_journal :: journal_state where
  "empty_journal = \<lparr>journal_cursor = 0, causes = [], plans = [], sessions = []\<rparr>"

text \<open>A snapshot carries the entries of the three maps and the elements of their sets, in order.\<close>

record snapshot_state =
  snapshot_cursor :: nat
  snapshot_causes :: "(jstr \<times> cause_state) list"
  snapshot_plans :: "(jstr \<times> plan_state) list"
  snapshot_sessions :: "(jstr \<times> jstr) list"

datatype outcome =
    Plan_Requested jstr
  | Draw_Taken jstr jstr bool
  | Draw_Refused jstr jstr "bool option"
  | Funded_Terminal jstr jstr "bool option"
  | Session_Opened jstr jstr jstr
  | Steered_To jstr jstr
  | Answered_With jstr jstr
  | Ignored_Cause jstr
  | Session_Terminal jstr jstr
  | Plan_Settled jstr
  | Advanced
  | Snapshot_Of snapshot_state

record journal_record =
  roomSeq :: nat
  outcome :: outcome

definition TERMINAL_STEPS :: "outcome_kind list" where
  "TERMINAL_STEPS = [DrawTakenKind, FundedTerminalKind, DrawRefusedKind, SteeredKind, AnsweredKind, IgnoredKind]"

definition isCauseSettled :: "cause_state option \<Rightarrow> bool" where
  "isCauseSettled st = (case st of None \<Rightarrow> False | Some c \<Rightarrow> cause_step c \<in> set TERMINAL_STEPS)"

section \<open>The reducer\<close>

definition or_else :: "'a option \<Rightarrow> 'a option \<Rightarrow> 'a option" where
  "or_else a b = (case a of None \<Rightarrow> b | Some x \<Rightarrow> Some x)"

definition upsertCause :: "jstr \<Rightarrow> route_class \<Rightarrow> outcome_kind \<Rightarrow> jstr option \<Rightarrow> jstr option \<Rightarrow> jstr option \<Rightarrow> bool option \<Rightarrow>
    journal_state \<Rightarrow> journal_state" where
  "upsertCause cause cls stp planId sessionId cmid again j = (let existing = get (causes j) cause in
     j\<lparr>causes := put cause \<lparr>cause_class = cls, cause_step = stp,
        cause_planId = or_else planId (Option.bind existing cause_planId),
        cause_sessionId = or_else sessionId (Option.bind existing cause_sessionId),
        cause_clientMessageId = or_else cmid (Option.bind existing cause_clientMessageId),
        retried = (case or_else again (map_option retried existing) of None \<Rightarrow> False | Some b \<Rightarrow> b)\<rparr> (causes j)\<rparr>)"

definition planned :: "journal_state \<Rightarrow> jstr \<Rightarrow> jstr option \<Rightarrow> plan_state" where
  "planned j planId cause = (case get (plans j) planId of
     None \<Rightarrow> \<lparr>plan_cause = (case cause of None \<Rightarrow> [] | Some c \<Rightarrow> c), plan_sessions = [], plan_terminal = [], plan_settled = False\<rparr>
   | Some p \<Rightarrow> (case cause of Some (c # cs) \<Rightarrow> if plan_cause p = [] then p\<lparr>plan_cause := c # cs\<rparr> else p | _ \<Rightarrow> p))"

text \<open>\<open>ensurePlan\<close> followed by an update of the plan it returns.\<close>

definition ensurePlan :: "jstr \<Rightarrow> jstr option \<Rightarrow> (plan_state \<Rightarrow> plan_state) \<Rightarrow> journal_state \<Rightarrow> journal_state" where
  "ensurePlan planId cause change j = j\<lparr>plans := put planId (change (planned j planId cause)) (plans j)\<rparr>"

definition set_add :: "'a \<Rightarrow> 'a list \<Rightarrow> 'a list" where
  "set_add x xs = (if x \<in> set xs then xs else xs @ [x])"

definition loadSnapshot :: "snapshot_state \<Rightarrow> journal_state \<Rightarrow> journal_state" where
  "loadSnapshot st j = \<lparr>journal_cursor = snapshot_cursor st,
     causes = foldl (\<lambda>m (k, v). put k v m) [] (snapshot_causes st),
     plans = foldl (\<lambda>m (k, p). put k (p\<lparr>plan_sessions := dedup (plan_sessions p), plan_terminal := dedup (plan_terminal p)\<rparr>) m) []
       (snapshot_plans st),
     sessions = foldl (\<lambda>m (k, v). put k v m) [] (snapshot_sessions st)\<rparr>"

definition retry_mark :: "bool option \<Rightarrow> bool option" where
  "retry_mark retry = (if retry = Some True then Some True else None)"

definition reduce_outcome :: "outcome \<Rightarrow> journal_state \<Rightarrow> journal_state" where
  "reduce_outcome oc j = (case oc of
     Snapshot_Of st \<Rightarrow> loadSnapshot st j
   | Plan_Requested c \<Rightarrow> upsertCause c DrawClass PlanRequestedKind None None None None j
   | Draw_Taken c p retry \<Rightarrow>
       ensurePlan p (Some c) id (upsertCause c DrawClass DrawTakenKind (Some p) None None (retry_mark (Some retry)) j)
   | Draw_Refused c p retry \<Rightarrow>
       ensurePlan p (Some c) id (upsertCause c DrawClass DrawRefusedKind (Some p) None None (retry_mark retry) j)
   | Funded_Terminal c p retry \<Rightarrow>
       ensurePlan p (Some c) id (upsertCause c DrawClass FundedTerminalKind (Some p) None None (retry_mark retry) j)
   | Session_Opened c s p \<Rightarrow>
       (let j' = ensurePlan p (Some c) (\<lambda>q. q\<lparr>plan_sessions := set_add s (plan_sessions q)\<rparr>)
          (upsertCause c DrawClass DrawTakenKind (Some p) None None None j)
        in j'\<lparr>sessions := put s p (sessions j')\<rparr>)
   | Steered_To c s \<Rightarrow> upsertCause c SteerClass SteeredKind None (Some s) None None j
   | Answered_With c m \<Rightarrow> upsertCause c AnswerClass AnsweredKind None None (Some m) None j
   | Ignored_Cause c \<Rightarrow> upsertCause c IgnoreClass IgnoredKind None None None None j
   | Session_Terminal s p \<Rightarrow>
       (let j' = ensurePlan p None (\<lambda>q. q\<lparr>plan_terminal := set_add s (plan_terminal q)\<rparr>) j
        in j'\<lparr>sessions := put s p (sessions j')\<rparr>)
   | Plan_Settled p \<Rightarrow> ensurePlan p None (\<lambda>q. q\<lparr>plan_settled := True\<rparr>) j
   | Advanced \<Rightarrow> j)"

definition reduce_record :: "journal_state \<Rightarrow> journal_record \<Rightarrow> journal_state" where
  "reduce_record j r = reduce_outcome (outcome r)
     (if roomSeq r > journal_cursor j then j\<lparr>journal_cursor := roomSeq r\<rparr> else j)"

definition serialize :: "journal_state \<Rightarrow> snapshot_state" where
  "serialize j = \<lparr>snapshot_cursor = journal_cursor j, snapshot_causes = causes j, snapshot_plans = plans j,
     snapshot_sessions = sessions j\<rparr>"

section \<open>The file\<close>

record line =
  as_header :: "jstr option"
  as_record :: "journal_record option"

definition header_line :: "jstr \<Rightarrow> line" where
  "header_line room = \<lparr>as_header = Some room, as_record = None\<rparr>"

definition record_line :: "journal_record \<Rightarrow> line" where
  "record_line r = \<lparr>as_header = None, as_record = Some r\<rparr>"

definition torn_line :: line where
  "torn_line = \<lparr>as_header = None, as_record = None\<rparr>"

fun replay_lines :: "nat \<Rightarrow> journal_state \<Rightarrow> line list \<Rightarrow> journal_state option" where
  "replay_lines high j [] = Some j"
| "replay_lines high j (l # ls) = (case as_record l of
     None \<Rightarrow> None
   | Some r \<Rightarrow> if roomSeq r < high then None else replay_lines (roomSeq r) (reduce_record j r) ls)"

definition open_journal :: "jstr \<Rightarrow> line list \<Rightarrow> journal_state option" where
  "open_journal room ls = (case ls of
     [] \<Rightarrow> Some empty_journal
   | h # rs \<Rightarrow> (case as_header h of
       None \<Rightarrow> None
     | Some owner \<Rightarrow> if owner \<noteq> room then None else replay_lines 0 empty_journal rs))"

record journal =
  journal_room :: jstr
  journal_file :: "line list"
  journal_state :: journal_state
  compactEvery :: int
  appendsSinceCompaction :: nat

definition fresh_journal :: "jstr \<Rightarrow> int \<Rightarrow> journal" where
  "fresh_journal room every = \<lparr>journal_room = room, journal_file = [header_line room], journal_state = empty_journal,
     compactEvery = every, appendsSinceCompaction = 0\<rparr>"

definition compacted :: "jstr \<Rightarrow> journal_state \<Rightarrow> line list" where
  "compacted room j = [header_line room, record_line \<lparr>roomSeq = journal_cursor j, outcome = Snapshot_Of (serialize j)\<rparr>]"

definition compacts :: "journal \<Rightarrow> bool" where
  "compacts w \<longleftrightarrow> 0 < compactEvery w \<and> compactEvery w \<le> int (Suc (appendsSinceCompaction w))"

definition journal_append :: "journal \<Rightarrow> journal_record \<Rightarrow> journal" where
  "journal_append w r =
     (let j = reduce_record (journal_state w) r in
      if compacts w then w\<lparr>journal_file := compacted (journal_room w) j, journal_state := j, appendsSinceCompaction := 0\<rparr>
      else w\<lparr>journal_file := journal_file w @ [record_line r], journal_state := j,
             appendsSinceCompaction := Suc (appendsSinceCompaction w)\<rparr>)"

text \<open>
  What the disk can hold when the process dies inside \<open>record\<close>: the old file, the old file with a torn or a whole
  new line, or the file a compaction renamed into place.  The temporary file of a compaction is discarded on
  opening.
\<close>

definition crash_files :: "journal \<Rightarrow> journal_record \<Rightarrow> line list list" where
  "crash_files w r = [journal_file w, journal_file w @ [torn_line], journal_file w @ [record_line r]] @
     (if compacts w then [compacted (journal_room w) (reduce_record (journal_state w) r)] else [])"

text \<open>A run of the journal from a fresh file.\<close>

definition journal_run :: "jstr \<Rightarrow> int \<Rightarrow> journal_record list \<Rightarrow> journal" where
  "journal_run room every rs = foldl journal_append (fresh_journal room every) rs"

fun is_snapshot :: "outcome \<Rightarrow> bool" where
  "is_snapshot (Snapshot_Of st) = True"
| "is_snapshot oc = False"

section \<open>Snapshots lose nothing\<close>

definition state_ok :: "journal_state \<Rightarrow> bool" where
  "state_ok j \<longleftrightarrow> distinct (keys (causes j)) \<and> distinct (keys (plans j)) \<and> distinct (keys (sessions j)) \<and>
     (\<forall>(k, p) \<in> set (plans j). distinct (plan_sessions p) \<and> distinct (plan_terminal p))"

lemma load_entries:
  "distinct (keys (m @ xs)) \<Longrightarrow> foldl (\<lambda>m (k, v). put k (f v) m) m xs = m @ map (\<lambda>(k, v). (k, f v)) xs"
proof (induction xs arbitrary: m)
  case (Cons x xs)
  obtain k v where x: "x = (k, v)" by fastforce
  have "foldl (\<lambda>m (k, v). put k (f v) m) (m @ [(k, f v)]) xs = (m @ [(k, f v)]) @ map (\<lambda>(k, v). (k, f v)) xs"
    using Cons.prems by (intro Cons.IH) (simp add: x keys_def)
  with Cons.prems show ?case by (simp add: x put_absent keys_def)
qed simp

lemma dedup_distinct: "distinct xs \<Longrightarrow> dedup xs = xs"
  by (induction xs) (auto intro!: filter_True)

lemma snapshot_roundtrip:
  assumes "state_ok j"
  shows "loadSnapshot (serialize j) j' = j"
proof -
  have "map (\<lambda>(k, p). (k, p\<lparr>plan_sessions := dedup (plan_sessions p), plan_terminal := dedup (plan_terminal p)\<rparr>)) (plans j) = plans j"
    using assms by (intro map_idI) (auto simp: state_ok_def dedup_distinct)
  then show ?thesis
    using assms load_entries [of "[]" "causes j" id] load_entries [of "[]" "sessions j" id]
      load_entries [of "[]" "plans j" "\<lambda>p. p\<lparr>plan_sessions := dedup (plan_sessions p), plan_terminal := dedup (plan_terminal p)\<rparr>"]
    by (simp add: loadSnapshot_def serialize_def state_ok_def)
qed

lemma distinct_set_add [simp]: "distinct (set_add x xs) = distinct xs"
  by (auto simp: set_add_def)

lemma set_set_add [simp]: "set (set_add x xs) = insert x (set xs)"
  by (auto simp: set_add_def)

lemma set_put: "e \<in> set (put k v m) \<Longrightarrow> e = (k, v) \<or> e \<in> set m"
  by (induction k v m rule: put.induct) (auto split: if_splits)

lemma upsert_ok: "state_ok j \<Longrightarrow> state_ok (upsertCause c cls stp p s m a j)"
  by (simp add: upsertCause_def state_ok_def Let_def st.dom_distinct_insert)

lemma planned_ok: "state_ok j \<Longrightarrow> distinct (plan_sessions (planned j p c)) \<and> distinct (plan_terminal (planned j p c))"
  by (auto simp: planned_def state_ok_def get_def split: option.split list.split dest!: map_of_SomeD)

lemma ensure_ok:
  assumes "state_ok j" "\<And>q. distinct (plan_sessions q) \<Longrightarrow> distinct (plan_terminal q) \<Longrightarrow>
    distinct (plan_sessions (f q)) \<and> distinct (plan_terminal (f q))"
  shows "state_ok (ensurePlan p c f j)"
  using assms planned_ok [OF assms(1), of p c]
  by (auto simp: ensurePlan_def state_ok_def st.dom_distinct_insert dest!: set_put)

lemma sessions_ok: "state_ok j \<Longrightarrow> state_ok (j\<lparr>sessions := put s p (sessions j)\<rparr>)"
  by (simp add: state_ok_def st.dom_distinct_insert)

lemma reduce_record_ok: "state_ok j \<Longrightarrow> \<not> is_snapshot (outcome r) \<Longrightarrow> state_ok (reduce_record j r)"
proof -
  assume ok: "state_ok j" and "\<not> is_snapshot (outcome r)"
  have "state_ok (if roomSeq r > journal_cursor j then j\<lparr>journal_cursor := roomSeq r\<rparr> else j)"
    using ok by (simp add: state_ok_def)
  with \<open>\<not> is_snapshot (outcome r)\<close> show ?thesis unfolding reduce_record_def reduce_outcome_def
    by (cases "outcome r") (auto intro!: upsert_ok ensure_ok sessions_ok simp: Let_def)
qed

lemma cursor_simps [simp]:
  "journal_cursor (upsertCause c cls stp p s m a j) = journal_cursor j"
  "journal_cursor (ensurePlan p' c' f j) = journal_cursor j"
  by (simp_all add: upsertCause_def ensurePlan_def Let_def)

lemma reduce_record_cursor: "\<not> is_snapshot (outcome r) \<Longrightarrow> journal_cursor (reduce_record j r) = max (journal_cursor j) (roomSeq r)"
  unfolding reduce_record_def reduce_outcome_def by (cases "outcome r") (auto simp: Let_def)

section \<open>The file explains the state\<close>

fun high_water :: "nat \<Rightarrow> line list \<Rightarrow> nat" where
  "high_water high [] = high"
| "high_water high (l # ls) = high_water (case as_record l of None \<Rightarrow> high | Some r \<Rightarrow> roomSeq r) ls"

lemma replay_append:
  "replay_lines high j (ls @ [l]) = (case replay_lines high j ls of
     None \<Rightarrow> None
   | Some j' \<Rightarrow> replay_lines (high_water high ls) j' [l])"
  by (induction high j ls rule: replay_lines.induct) (auto split: option.split)

definition explains :: "journal \<Rightarrow> bool" where
  "explains w \<longleftrightarrow> state_ok (journal_state w) \<and> (\<exists>rs. journal_file w = header_line (journal_room w) # rs \<and>
     replay_lines 0 empty_journal rs = Some (journal_state w) \<and> high_water 0 rs \<le> journal_cursor (journal_state w))"

lemma explains_open: "explains w \<Longrightarrow> open_journal (journal_room w) (journal_file w) = Some (journal_state w)"
  by (auto simp: explains_def open_journal_def header_line_def)

lemma explains_fresh: "explains (fresh_journal room every)"
  by (simp add: explains_def fresh_journal_def state_ok_def empty_journal_def keys_def)

lemma open_compacted: "state_ok j \<Longrightarrow> open_journal room (compacted room j) = Some j"
  by (simp add: open_journal_def compacted_def header_line_def record_line_def reduce_record_def reduce_outcome_def snapshot_roundtrip)

lemma open_longer:
  assumes "explains w" "journal_cursor (journal_state w) \<le> roomSeq r"
  shows "open_journal (journal_room w) (journal_file w @ [record_line r]) = Some (reduce_record (journal_state w) r)"
    and "open_journal (journal_room w) (journal_file w @ [torn_line]) = None"
  using assms by (auto simp: explains_def open_journal_def header_line_def replay_append record_line_def torn_line_def)

lemma high_water_append: "high_water high (ls @ [record_line r]) = roomSeq r"
  by (induction high ls rule: high_water.induct) (auto simp: record_line_def)

lemma explains_append:
  assumes "explains w" "journal_cursor (journal_state w) \<le> roomSeq r" "\<not> is_snapshot (outcome r)"
  shows "explains (journal_append w r)"
proof -
  let ?j = "reduce_record (journal_state w) r"
  have ok: "state_ok ?j" using assms by (intro reduce_record_ok) (auto simp: explains_def)
  show ?thesis
  proof (cases "compacts w")
    case True
    with ok snapshot_roundtrip [OF ok] show ?thesis
      by (auto simp: journal_append_def explains_def compacted_def record_line_def Let_def reduce_record_def [of empty_journal]
          reduce_outcome_def)
  next
    case False
    from assms(1) obtain rs where rs: "journal_file w = header_line (journal_room w) # rs"
      "replay_lines 0 empty_journal rs = Some (journal_state w)" "high_water 0 rs \<le> journal_cursor (journal_state w)"
      by (auto simp: explains_def)
    have "replay_lines 0 empty_journal (rs @ [record_line r]) = Some ?j"
      using rs assms(2) by (simp add: replay_append record_line_def)
    with False rs ok show ?thesis
      by (auto simp: journal_append_def explains_def Let_def high_water_append reduce_record_cursor [OF assms(3)])
  qed
qed

lemma run_snoc: "journal_run room every (rs @ [r]) = journal_append (journal_run room every rs) r"
  by (simp add: journal_run_def)

lemma append_keeps [simp]:
  "journal_room (journal_append w r) = journal_room w"
  "journal_state (journal_append w r) = reduce_record (journal_state w) r"
  "compactEvery (journal_append w r) = compactEvery w"
  by (simp_all add: journal_append_def Let_def)

lemma run_room [simp]: "journal_room (journal_run room every rs) = room"
  by (induction rs rule: rev_induct) (simp_all add: run_snoc, simp add: journal_run_def fresh_journal_def)

lemma run_cursor:
  "list_all (\<lambda>r. \<not> is_snapshot (outcome r)) rs \<Longrightarrow> \<forall>r \<in> set rs. roomSeq r \<le> n \<Longrightarrow>
    journal_cursor (journal_state (journal_run room every rs)) \<le> n"
proof (induction rs rule: rev_induct)
  case Nil
  show ?case by (simp add: journal_run_def fresh_journal_def empty_journal_def)
next
  case (snoc r rs)
  then show ?case by (simp add: run_snoc reduce_record_cursor)
qed

lemma run_explains:
  "sorted (map roomSeq rs) \<Longrightarrow> list_all (\<lambda>r. \<not> is_snapshot (outcome r)) rs \<Longrightarrow> explains (journal_run room every rs)"
proof (induction rs rule: rev_induct)
  case Nil
  show ?case by (simp add: journal_run_def explains_fresh)
next
  case (snoc r rs)
  have "journal_cursor (journal_state (journal_run room every rs)) \<le> roomSeq r"
    using snoc.prems by (intro run_cursor) (auto simp: sorted_append)
  with snoc show ?case by (auto simp: run_snoc sorted_append intro!: explains_append)
qed

lemma run_file_length:
  assumes "0 < every"
  shows "length (journal_file (journal_run room every rs)) \<le> 2 + appendsSinceCompaction (journal_run room every rs) \<and>
    int (appendsSinceCompaction (journal_run room every rs)) < every \<and> compactEvery (journal_run room every rs) = every"
proof (induction rs rule: rev_induct)
  case Nil
  show ?case using assms by (simp add: journal_run_def fresh_journal_def)
next
  case (snoc r rs)
  with assms show ?case unfolding run_snoc
    by (auto simp: journal_append_def compacts_def compacted_def Let_def)
qed

section \<open>Properties\<close>

text \<open>
  C33. A crash loses at most the record being written.  When records are written in the order of their events,
  whatever file a crash inside the next write leaves, with any compaction interval, opens to the state before the
  record or to the state after it; a torn last line is refused.  In particular the file of a journal at rest
  opens to exactly the state in memory.
\<close>

theorem crash_before_or_after:
  assumes "sorted (map roomSeq (rs @ [r]))" "list_all (\<lambda>r. \<not> is_snapshot (outcome r)) (rs @ [r])"
    and "file \<in> set (crash_files (journal_run room every rs) r)"
  shows "open_journal room file = (if file = journal_file (journal_run room every rs) @ [torn_line] then None
      else if file = journal_file (journal_run room every rs) then Some (journal_state (journal_run room every rs))
      else Some (journal_state (journal_run room every (rs @ [r]))))"
proof -
  let ?w = "journal_run room every rs" let ?j = "reduce_record (journal_state ?w) r"
  have ex: "explains ?w" using assms by (intro run_explains) (auto simp: sorted_append)
  have cur: "journal_cursor (journal_state ?w) \<le> roomSeq r" using assms(1,2) by (intro run_cursor) (auto simp: sorted_append)
  have ok: "state_ok ?j" using ex assms(2) by (intro reduce_record_ok) (auto simp: explains_def)
  note opened = explains_open [OF ex] open_longer [OF ex cur] open_compacted [OF ok, of room]
  have ne: "torn_line \<noteq> record_line r'" "record_line r' \<noteq> torn_line" for r'
    by (simp_all add: torn_line_def record_line_def)
  then have "compacted room ?j \<noteq> journal_file ?w @ [torn_line]"
    by (simp add: compacted_def Cons_eq_append_conv append_eq_Cons_conv)
  moreover have "?j = journal_state ?w" if "compacted room ?j = journal_file ?w" using that opened(1,4) by simp
  ultimately show ?thesis
    using assms(3) opened ne by (auto simp: crash_files_def run_snoc split: if_splits)
qed

theorem crash_before_or_after_witness:
  "open_journal (asc ''r'') (compacted (asc ''r'') (journal_state (journal_run (asc ''r'') 1 [\<lparr>roomSeq = 4, outcome = Ignored_Cause (asc ''m'')\<rparr>]))) =
     Some (journal_state (journal_run (asc ''r'') 1 [\<lparr>roomSeq = 4, outcome = Ignored_Cause (asc ''m'')\<rparr>]))"
proof -
  let ?r = "\<lparr>roomSeq = 4, outcome = Ignored_Cause (asc ''m'')\<rparr>"
  let ?f = "compacted (asc ''r'') (journal_state (journal_run (asc ''r'') 1 [?r]))"
  have f: "?f \<in> set (crash_files (journal_run (asc ''r'') 1 []) ?r)"
    by (simp add: crash_files_def journal_run_def fresh_journal_def compacts_def)
  have "?f \<noteq> journal_file (journal_run (asc ''r'') 1 []) @ [torn_line]" "?f \<noteq> journal_file (journal_run (asc ''r'') 1 [])"
    by (simp_all add: journal_run_def fresh_journal_def compacted_def torn_line_def record_line_def)
  then show ?thesis using crash_before_or_after [of "[]" ?r ?f "asc ''r''" 1] f by simp
qed

text \<open>
  The file stays small.  With compaction every \<open>n\<close> records the file never has more than \<open>n + 1\<close> lines.
\<close>

theorem journal_file_bounded:
  assumes "0 < every"
  shows "int (length (journal_file (journal_run room every rs))) \<le> every + 1"
  using run_file_length [OF assms, of room rs] by simp

theorem journal_file_bounded_witness:
  "int (length (journal_file (journal_run (asc ''r'') 2 (replicate 7 \<lparr>roomSeq = 4, outcome = Advanced\<rparr>)))) \<le> 2 + 1"
  by (rule journal_file_bounded) simp

end
