(* ===== verification/Loop_Client.thy ===== *)
theory Loop_Client
  imports JsData Objects
begin

text \<open>
  The channel loop's socket: the frames of \<open>protocol.ts\<close> as its schemas read them, and \<open>client.ts\<close>, which hands
  the room's events to one handler in order.  The client is a state machine over what reaches it: a frame, the
  completion of the handler, a request of its caller.  The promises it keeps are the entries of its waiter lists;
  the timers that reject them are left out.
\<close>

section \<open>The wire contract\<close>

datatype room_event =
    Message_Posted jstr jstr "jstr option"
  | Plan_Opened jstr jstr "jstr option"
  | Plan_Rlimit_Set jstr
  | Session_Was_Opened jstr jstr "jstr option"
  | Session_Was_Settled jstr
  | Session_Failed jstr
  | Other_Event jstr
  | Unread_Event jstr

text \<open>
  \<open>Other_Event\<close> is an event of a type the daemon does not route on; \<open>Unread_Event\<close> is one of a routed type whose
  body its own schema does not read, which \<open>RoomEvent\<close> accepts as an \<open>OtherEvent\<close>.  Actors and \<open>actorUserId\<close> are the
  core's.
\<close>

record wire_event =
  wire_roomId :: jstr
  wire_roomSeq :: nat
  wire_actor :: actor
  wire_event :: room_event
  wire_issues :: "jstr list"

datatype draw_outcome = Draw_Granted jstr | Draw_Denied nat nat

datatype reply = Ack "draw_outcome option" | Nack jstr jstr

datatype known_frame =
    Welcome_Frame jstr
  | Subscribed_Frame jstr nat
  | Event_Frame wire_event
  | Catchup_Frame jstr nat nat bool "wire_event list"
  | Head_Frame jstr nat
  | Reply_Frame jstr reply

text \<open>What the schemas make of a message: what \<open>KnownFrame\<close> reads, and the \<open>type\<close> that \<open>OtherFrame\<close> reads.\<close>

record raw_frame =
  as_known :: "known_frame option"
  as_type :: "jstr option"

text \<open>
  The result of \<open>parseServerFrame\<close>.  A frame of a known type that only \<open>OtherFrame\<close> accepts comes out with every
  field but its type stripped: \<open>Hollow\<close>.
\<close>

datatype server_frame = Known known_frame | Hollow jstr | Unknown_Frame

definition KNOWN_TYPES :: "jstr list" where
  "KNOWN_TYPES = [asc ''welcome'', asc ''subscribed'', asc ''event'', asc ''catchup'', asc ''head'', asc ''ack'', asc ''nack'']"

definition parseServerFrame :: "raw_frame \<Rightarrow> server_frame option" where
  "parseServerFrame raw = (case as_known raw of
     Some f \<Rightarrow> Some (Known f)
   | None \<Rightarrow> map_option (\<lambda>t. if t \<in> set KNOWN_TYPES then Hollow t else Unknown_Frame) (as_type raw))"

section \<open>The client\<close>

fun remove_first :: "('a \<Rightarrow> bool) \<Rightarrow> 'a list \<Rightarrow> 'a list" where
  "remove_first P [] = []"
| "remove_first P (x # xs) = (if P x then xs else x # remove_first P xs)"

datatype 'c request = Subscribe jstr | Since jstr nat | Ack_Head "jstr option" nat | Send_Command jstr 'c

text \<open>
  A backfill waits for a page; \<open>recovering\<close> marks the one a head frame started.  \<open>in_flight\<close> is the event the
  handler is working on, and \<open>handed\<close> the events it was called with so far.
\<close>

record waiter =
  waiter_roomId :: jstr
  waiter_from :: nat
  recovering :: bool

record 'c client =
  ownUserId :: "jstr option"
  nextCommandId :: nat
  subscribeWaiters :: "jstr list"
  catchupWaiters :: "waiter list"
  pendingCommands :: "jstr list"
  resolved :: "(jstr \<times> reply) list"
  deliveredThrough :: nat
  pending :: "(nat \<times> wire_event) list"
  in_flight :: "wire_event option"
  handed :: "wire_event list"
  catchingUp :: bool
  requests :: "'c request list"
  died :: bool

definition setEventHandler :: "nat \<Rightarrow> 'c client" where
  "setEventHandler resume = \<lparr>ownUserId = Some [], nextCommandId = 0, subscribeWaiters = [], catchupWaiters = [], pendingCommands = [], resolved = [],
     deliveredThrough = resume, pending = [], in_flight = None, handed = [], catchingUp = False, requests = [], died = False\<rparr>"

text \<open>One turn of the pump's loop: up to the call of the handler.\<close>

definition pump_next :: "'c client \<Rightarrow> 'c client" where
  "pump_next c = (case map_of (pending c) (Suc (deliveredThrough c)) of
     None \<Rightarrow> c
   | Some e \<Rightarrow> c\<lparr>pending := filter (\<lambda>p. fst p \<noteq> wire_roomSeq e) (pending c), in_flight := Some e, handed := handed c @ [e]\<rparr>)"

definition pump :: "'c client \<Rightarrow> 'c client" where
  "pump c = (if in_flight c \<noteq> None then c else pump_next c)"

definition enqueue :: "'c client \<Rightarrow> wire_event \<Rightarrow> 'c client" where
  "enqueue c e =
     (if wire_issues e \<noteq> [] then c
      else if wire_roomSeq e \<le> deliveredThrough c then c
      else if map_of (pending c) (wire_roomSeq e) \<noteq> None then c
      else pump (c\<lparr>pending := (wire_roomSeq e, e) # pending c\<rparr>))"

text \<open>The handler's promise resolves.\<close>

definition handler_done :: "'c client \<Rightarrow> 'c client" where
  "handler_done c = (case in_flight c of
     None \<Rightarrow> c
   | Some e \<Rightarrow> pump_next (c\<lparr>deliveredThrough := wire_roomSeq e, in_flight := None\<rparr>))"

definition since_page :: "jstr \<Rightarrow> nat \<Rightarrow> bool \<Rightarrow> 'c client \<Rightarrow> 'c client" where
  "since_page room from recovery c = c\<lparr>catchupWaiters := catchupWaiters c @ [\<lparr>waiter_roomId = room, waiter_from = from, recovering = recovery\<rparr>],
     requests := requests c @ [Since room from]\<rparr>"

definition client_onHead :: "jstr \<Rightarrow> nat \<Rightarrow> 'c client \<Rightarrow> 'c client" where
  "client_onHead room head c =
     (let c' = c\<lparr>requests := requests c @ [Ack_Head (Some room) (deliveredThrough c)]\<rparr> in
      if deliveredThrough c < head \<and> \<not> catchingUp c then since_page room (deliveredThrough c) True (c'\<lparr>catchingUp := True\<rparr>) else c')"

text \<open>What a backfill does with the page it waited for.\<close>

definition page_arrived :: "waiter \<Rightarrow> nat \<Rightarrow> bool \<Rightarrow> 'c client \<Rightarrow> 'c client" where
  "page_arrived w to more_pages c =
     (if more_pages then since_page (waiter_roomId w) to (recovering w) c
      else if recovering w then c\<lparr>catchingUp := False\<rparr> else c)"

definition onCatchup :: "jstr \<Rightarrow> nat \<Rightarrow> nat \<Rightarrow> bool \<Rightarrow> wire_event list \<Rightarrow> 'c client \<Rightarrow> 'c client" where
  "onCatchup room from to more_pages es c =
     (let meant = (\<lambda>w. waiter_roomId w = room \<and> waiter_from w = from);
          c' = foldl enqueue (c\<lparr>catchupWaiters := remove_first meant (catchupWaiters c)\<rparr>) es in
      case List.find meant (catchupWaiters c) of None \<Rightarrow> c' | Some w \<Rightarrow> page_arrived w to more_pages c')"

definition onKnown :: "known_frame \<Rightarrow> 'c client \<Rightarrow> 'c client" where
  "onKnown f c = (case f of
     Welcome_Frame u \<Rightarrow> c\<lparr>ownUserId := Some u\<rparr>
   | Subscribed_Frame room head \<Rightarrow> c\<lparr>subscribeWaiters := filter (\<lambda>r. r \<noteq> room) (subscribeWaiters c)\<rparr>
   | Reply_Frame i r \<Rightarrow>
       if i \<in> set (pendingCommands c)
       then c\<lparr>pendingCommands := filter (\<lambda>j. j \<noteq> i) (pendingCommands c), resolved := resolved c @ [(i, r)]\<rparr> else c
   | Catchup_Frame room from to more_pages es \<Rightarrow> onCatchup room from to more_pages es c
   | Event_Frame e \<Rightarrow> enqueue c e
   | Head_Frame room head \<Rightarrow> client_onHead room head c)"

text \<open>
  The same switch on a frame without fields: reading \<open>entries\<close> or \<open>entry\<close> of it throws out of the socket's
  listener, which ends the process; a head of no number is answered and starts no backfill.
\<close>

definition onHollow :: "jstr \<Rightarrow> 'c client \<Rightarrow> 'c client" where
  "onHollow t c =
     (if t = asc ''catchup'' \<or> t = asc ''event'' then c\<lparr>died := True\<rparr>
      else if t = asc ''welcome'' then c\<lparr>ownUserId := None\<rparr>
      else if t = asc ''head'' then c\<lparr>requests := requests c @ [Ack_Head None (deliveredThrough c)]\<rparr>
      else c)"

definition onFrame :: "raw_frame \<Rightarrow> 'c client \<Rightarrow> 'c client" where
  "onFrame raw c = (case parseServerFrame raw of
     None \<Rightarrow> c
   | Some (Known f) \<Rightarrow> onKnown f c
   | Some (Hollow t) \<Rightarrow> onHollow t c
   | Some Unknown_Frame \<Rightarrow> c)"

definition client_command :: "'c \<Rightarrow> 'c client \<Rightarrow> 'c client" where
  "client_command cmd c =
     (let n = Suc (nextCommandId c); i = asc ''loop-'' @ decimal (int n) in
      c\<lparr>nextCommandId := n, pendingCommands := pendingCommands c @ [i], requests := requests c @ [Send_Command i cmd]\<rparr>)"

datatype 'c client_op = Frame raw_frame | Handler_Done | Command 'c | Backfill jstr nat | Subscribe_To jstr

definition client_step :: "'c client \<Rightarrow> 'c client_op \<Rightarrow> 'c client" where
  "client_step c x = (if died c then c else case x of
     Frame raw \<Rightarrow> onFrame raw c
   | Handler_Done \<Rightarrow> handler_done c
   | Command cmd \<Rightarrow> client_command cmd c
   | Backfill room from \<Rightarrow> since_page room from False c
   | Subscribe_To room \<Rightarrow> c\<lparr>subscribeWaiters := subscribeWaiters c @ [room], requests := requests c @ [Subscribe room]\<rparr>)"

definition client_run :: "nat \<Rightarrow> 'c client_op list \<Rightarrow> 'c client" where
  "client_run resume xs = foldl client_step (setEventHandler resume) xs"

section \<open>An ordered source\<close>

lemma consecutive_append:
  assumes "map f es = [i ..< i + length es]" "map f fs = [i + length es ..< i + length es + length fs]"
  shows "map f (es @ fs) = [i ..< i + length (es @ fs)]"
proof -
  have "[i ..< i + length es + length fs] = [i ..< i + length es] @ [i + length es ..< i + length es + length fs]"
    by (rule upt_add_eq_append) simp
  with assms show ?thesis by (simp add: add.assoc)
qed

text \<open>
  What the daemon needs of its client: each operation extends what was handed over by the positions that were
  next, and by no other.  It follows that over any run the positions are consecutive, none is repeated and none
  is skipped.
\<close>

locale ordered_source =
  fixes awaited_of :: "'s \<Rightarrow> nat" and log_of :: "'s \<Rightarrow> 'e list" and position :: "'e \<Rightarrow> nat"
    and step :: "'s \<Rightarrow> 'o \<Rightarrow> 's" and good :: "'s \<Rightarrow> bool"
  assumes step_good: "good s \<Longrightarrow> good (step s x)"
    and step_log: "good s \<Longrightarrow> \<exists>es. log_of (step s x) = log_of s @ es \<and> awaited_of (step s x) = awaited_of s + length es \<and>
      map position es = [awaited_of s ..< awaited_of s + length es]"
begin

lemma run_good: "good s \<Longrightarrow> good (foldl step s xs)"
  by (induction xs arbitrary: s) (simp_all add: step_good)

lemma run_log: "good s \<Longrightarrow> \<exists>es. log_of (foldl step s xs) = log_of s @ es \<and>
    awaited_of (foldl step s xs) = awaited_of s + length es \<and> map position es = [awaited_of s ..< awaited_of s + length es]"
proof (induction xs arbitrary: s)
  case Nil
  show ?case by simp
next
  case (Cons x xs)
  obtain es where es: "log_of (step s x) = log_of s @ es" "awaited_of (step s x) = awaited_of s + length es"
    "map position es = [awaited_of s ..< awaited_of s + length es]"
    using step_log [OF Cons.prems] by blast
  obtain fs where fs: "log_of (foldl step (step s x) xs) = log_of (step s x) @ fs"
    "awaited_of (foldl step (step s x) xs) = awaited_of (step s x) + length fs"
    "map position fs = [awaited_of (step s x) ..< awaited_of (step s x) + length fs]"
    using Cons.IH [OF step_good [OF Cons.prems]] by blast
  have "map position (es @ fs) = [awaited_of s ..< awaited_of s + length (es @ fs)]"
    using es(3) fs(3) unfolding es(2) by (rule consecutive_append)
  with es(1,2) fs(1,2) show ?case by (intro exI [of _ "es @ fs"]) simp
qed

lemma run_consecutive:
  assumes "good s" "log_of s = []"
  shows "map position (log_of (foldl step s xs)) = [awaited_of s ..< awaited_of s + length (log_of (foldl step s xs))]"
    and "awaited_of (foldl step s xs) = awaited_of s + length (log_of (foldl step s xs))"
  using run_log [OF assms(1), of xs] assms(2) by auto

end

definition awaited :: "'c client \<Rightarrow> nat" where
  "awaited c = (case in_flight c of None \<Rightarrow> Suc (deliveredThrough c) | Some e \<Rightarrow> Suc (wire_roomSeq e))"

definition pump_ok :: "'c client \<Rightarrow> bool" where
  "pump_ok c \<longleftrightarrow> list_all (\<lambda>p. wire_roomSeq (snd p) = fst p) (pending c) \<and>
     (case in_flight c of None \<Rightarrow> map_of (pending c) (Suc (deliveredThrough c)) = None
      | Some e \<Rightarrow> wire_roomSeq e = Suc (deliveredThrough c))"

text \<open>Every operation is a change of the other fields, \<open>enqueue\<close> or \<open>handler_done\<close>; \<open>moves\<close> is what one of them does.\<close>

definition moves :: "'c client \<Rightarrow> 'c client \<Rightarrow> bool" where
  "moves c c' \<longleftrightarrow> pump_ok c' \<and> (\<exists>es. handed c' = handed c @ es \<and> awaited c' = awaited c + length es \<and>
     map wire_roomSeq es = [awaited c ..< awaited c + length es])"

lemma moves_refl: "pump_ok c \<Longrightarrow> moves c c"
  by (simp add: moves_def)

lemma moves_start: "awaited c = awaited c' \<Longrightarrow> handed c = handed c' \<Longrightarrow> moves c d = moves c' d"
  by (simp add: moves_def)

lemma moves_trans:
  assumes "moves a b" "moves b c"
  shows "moves a c"
proof -
  obtain es where es: "handed b = handed a @ es" "awaited b = awaited a + length es"
    "map wire_roomSeq es = [awaited a ..< awaited a + length es]" using assms(1) by (auto simp: moves_def)
  obtain fs where fs: "handed c = handed b @ fs" "awaited c = awaited b + length fs"
    "map wire_roomSeq fs = [awaited b ..< awaited b + length fs]" using assms(2) by (auto simp: moves_def)
  have "map wire_roomSeq (es @ fs) = [awaited a ..< awaited a + length (es @ fs)]"
    using es(3) fs(3) unfolding es(2) by (rule consecutive_append)
  with es(1,2) fs(1,2) assms(2) show ?thesis unfolding moves_def by (intro conjI exI [of _ "es @ fs"]) simp_all
qed

lemma moves_pump_next:
  assumes "list_all (\<lambda>p. wire_roomSeq (snd p) = fst p) (pending c)" "in_flight c = None"
  shows "moves c (pump_next c)"
proof (cases "map_of (pending c) (Suc (deliveredThrough c))")
  case None
  with assms show ?thesis by (simp add: pump_next_def moves_def pump_ok_def)
next
  case (Some e)
  then have "wire_roomSeq e = Suc (deliveredThrough c)" using assms(1) by (auto simp: list_all_iff dest!: map_of_SomeD)
  with Some assms show ?thesis
    by (auto simp: pump_next_def moves_def pump_ok_def awaited_def list_all_iff intro!: exI [of _ "[e]"])
qed

lemma moves_enqueue: "pump_ok c \<Longrightarrow> moves c (enqueue c e)"
proof -
  assume ok: "pump_ok c"
  let ?c = "c\<lparr>pending := (wire_roomSeq e, e) # pending c\<rparr>"
  have "moves c (pump ?c)"
  proof (cases "in_flight c")
    case None
    moreover from None have "moves c (pump_next ?c) = moves ?c (pump_next ?c)" by (intro moves_start) (simp_all add: awaited_def)
    ultimately show ?thesis using ok moves_pump_next [of ?c] by (simp add: pump_def pump_ok_def)
  next
    case (Some e')
    with ok show ?thesis by (simp add: pump_def pump_ok_def moves_def awaited_def)
  qed
  with moves_refl [OF ok] show ?thesis by (simp add: enqueue_def)
qed

lemma moves_enqueues: "pump_ok c \<Longrightarrow> moves c (foldl enqueue c es)"
proof (induction es arbitrary: c)
  case (Cons e es)
  have m: "moves c (enqueue c e)" by (rule moves_enqueue [OF Cons.prems])
  then have "pump_ok (enqueue c e)" by (simp add: moves_def)
  from moves_trans [OF m Cons.IH [OF this]] show ?case by simp
qed (simp add: moves_refl)

lemma moves_handler_done: "pump_ok c \<Longrightarrow> moves c (handler_done c)"
proof (cases "in_flight c")
  case (Some e)
  assume "pump_ok c"
  let ?c = "c\<lparr>deliveredThrough := wire_roomSeq e, in_flight := None\<rparr>"
  have "moves c (pump_next ?c) = moves ?c (pump_next ?c)" using Some by (intro moves_start) (simp_all add: awaited_def)
  with \<open>pump_ok c\<close> Some moves_pump_next [of ?c] show ?thesis by (simp add: handler_done_def pump_ok_def)
qed (simp add: handler_done_def moves_refl)

text \<open>The fields the pump reads; operations on the others do not matter to it.\<close>

definition pump_view :: "'c client \<Rightarrow> nat \<times> (nat \<times> wire_event) list \<times> wire_event option \<times> wire_event list" where
  "pump_view c = (deliveredThrough c, pending c, in_flight c, handed c)"

lemma view_same:
  assumes "pump_view c = pump_view c'"
  shows "awaited c = awaited c'" "pump_ok c = pump_ok c'" "handed c = handed c'"
  using assms by (simp_all add: pump_view_def pump_ok_def awaited_def split: option.split)

lemma moves_view: "pump_view c = pump_view c' \<Longrightarrow> pump_view d = pump_view d' \<Longrightarrow> moves c d = moves c' d'"
  using view_same [of c c'] view_same [of d d'] by (simp add: moves_def)

lemma moves_same: "pump_ok c \<Longrightarrow> pump_view c' = pump_view c \<Longrightarrow> moves c c'"
  using moves_view [of c c c' c] moves_refl by blast

lemma view_since [simp]: "pump_view (since_page room from b c) = pump_view c"
  and view_head [simp]: "pump_view (client_onHead room head c) = pump_view c"
  and view_page [simp]: "pump_view (page_arrived w to m c) = pump_view c"
  and view_hollow [simp]: "pump_view (onHollow t c) = pump_view c"
  and view_command [simp]: "pump_view (client_command cmd c) = pump_view c"
  by (simp_all add: pump_view_def since_page_def client_onHead_def page_arrived_def onHollow_def client_command_def Let_def)

lemma moves_catchup: "pump_ok c \<Longrightarrow> moves c (onCatchup room from to m es c)"
proof -
  assume ok: "pump_ok c"
  let ?c = "c\<lparr>catchupWaiters := remove_first (\<lambda>w. waiter_roomId w = room \<and> waiter_from w = from) (catchupWaiters c)\<rparr>"
  have v: "pump_view ?c = pump_view c" by (simp add: pump_view_def)
  then have "moves ?c (foldl enqueue ?c es)" using ok view_same(2) [OF v] by (intro moves_enqueues) simp
  moreover note v
  ultimately show ?thesis unfolding onCatchup_def Let_def
    by (auto split: option.split simp: moves_view [of _ _ "page_arrived w to m d" d for w d] moves_view [of c ?c])
qed

lemma moves_step: "pump_ok c \<Longrightarrow> moves c (client_step c x)"
  by (auto simp: client_step_def onFrame_def onKnown_def moves_enqueue moves_catchup moves_handler_done
      intro!: moves_same split: client_op.split option.split server_frame.split known_frame.split)
    (simp_all add: pump_view_def)

interpretation loop_stream: ordered_source awaited handed wire_roomSeq client_step pump_ok
  using moves_step by unfold_locales (auto simp: moves_def)

section \<open>What was received is handed over or kept\<close>

definition frame_entries :: "raw_frame \<Rightarrow> wire_event list" where
  "frame_entries raw = (case as_known raw of
     Some (Event_Frame e) \<Rightarrow> [e]
   | Some (Catchup_Frame room from to more_pages es) \<Rightarrow> es
   | _ \<Rightarrow> [])"

definition op_entries :: "'c client_op \<Rightarrow> wire_event list" where
  "op_entries x = (case x of Frame raw \<Rightarrow> frame_entries raw | _ \<Rightarrow> [])"

definition received :: "'c client_op list \<Rightarrow> wire_event list" where
  "received xs = concat (map op_entries xs)"

definition unrefused :: "wire_event list \<Rightarrow> wire_event set" where
  "unrefused es = {e \<in> set es. wire_issues e = []}"

definition accounts :: "wire_event set \<Rightarrow> 'c client \<Rightarrow> bool" where
  "accounts R c \<longleftrightarrow> snd ` set (pending c) \<subseteq> R \<and> set (handed c) \<subseteq> R \<and>
     (\<forall>e \<in> R. wire_roomSeq e < awaited c \<or> map_of (pending c) (wire_roomSeq e) \<noteq> None)"

lemma map_of_without: "map_of (filter (\<lambda>p. fst p \<noteq> k) xs) k' = (if k' = k then None else map_of xs k')"
  by (induction xs) auto

lemma accounts_view: "pump_view c = pump_view c' \<Longrightarrow> accounts R c = accounts R c'"
  using view_same(1) [of c c'] by (simp add: accounts_def pump_view_def)

lemma accounts_pump_next:
  assumes "accounts R c" "list_all (\<lambda>p. wire_roomSeq (snd p) = fst p) (pending c)" "in_flight c = None"
  shows "accounts R (pump_next c)"
proof (cases "map_of (pending c) (Suc (deliveredThrough c))")
  case (Some e)
  then have e: "(Suc (deliveredThrough c), e) \<in> set (pending c)" by (rule map_of_SomeD)
  then have "wire_roomSeq e = Suc (deliveredThrough c)" "e \<in> R" using assms(1,2) by (auto simp: list_all_iff accounts_def)
  then have p: "handed (pump_next c) = handed c @ [e]" "awaited (pump_next c) = Suc (Suc (deliveredThrough c))"
    "pending (pump_next c) = filter (\<lambda>p. fst p \<noteq> Suc (deliveredThrough c)) (pending c)"
    using Some by (simp_all add: pump_next_def awaited_def)
  have "wire_roomSeq e' < Suc (deliveredThrough c) \<or> map_of (pending c) (wire_roomSeq e') \<noteq> None" if "e' \<in> R" for e'
    using that assms(1,3) by (auto simp: accounts_def awaited_def)
  then show ?thesis using assms(1) \<open>e \<in> R\<close> unfolding accounts_def p map_of_without
    by (auto simp: less_Suc_eq)
qed (use assms in \<open>simp add: pump_next_def\<close>)

lemma accounts_handler_done: "pump_ok c \<Longrightarrow> accounts R c \<Longrightarrow> accounts R (handler_done c)"
  by (auto simp: handler_done_def pump_ok_def split: option.splits intro!: accounts_pump_next)
    (simp add: accounts_def awaited_def)

lemma accounts_enqueue:
  assumes "pump_ok c" "accounts R c"
  shows "accounts (if wire_issues e = [] then insert e R else R) (enqueue c e)"
proof (cases "wire_issues e = [] \<and> deliveredThrough c < wire_roomSeq e \<and> map_of (pending c) (wire_roomSeq e) = None")
  case True
  let ?c = "c\<lparr>pending := (wire_roomSeq e, e) # pending c\<rparr>"
  have "awaited ?c = awaited c" by (simp add: awaited_def split: option.split)
  with assms(2) have "accounts (insert e R) ?c" unfolding accounts_def by auto
  with True assms(1) show ?thesis
    by (auto simp: enqueue_def pump_def pump_ok_def intro!: accounts_pump_next)
next
  case False
  then have c: "enqueue c e = c" by (auto simp: enqueue_def)
  have "deliveredThrough c < awaited c" using assms(1) by (auto simp: awaited_def pump_ok_def split: option.split)
  with False assms(2) show ?thesis unfolding c accounts_def by auto
qed

lemma accounts_enqueues:
  "pump_ok c \<Longrightarrow> accounts R c \<Longrightarrow> accounts (R \<union> unrefused es) (foldl enqueue c es)"
proof (induction es arbitrary: c R)
  case (Cons e es)
  have "pump_ok (enqueue c e)" using moves_enqueue [OF Cons.prems(1), of e] by (simp add: moves_def)
  note ih = Cons.IH [OF this accounts_enqueue [OF Cons.prems]]
  have "(if wire_issues e = [] then insert e R else R) \<union> unrefused es = R \<union> unrefused (e # es)" by (auto simp: unrefused_def)
  with ih show ?case by simp
qed (simp add: unrefused_def)

lemma accounts_catchup:
  assumes "pump_ok c" "accounts R c"
  shows "accounts (R \<union> unrefused es) (onCatchup room from to m es c)"
proof -
  let ?c = "c\<lparr>catchupWaiters := remove_first (\<lambda>w. waiter_roomId w = room \<and> waiter_from w = from) (catchupWaiters c)\<rparr>"
  have v: "pump_view ?c = pump_view c" by (simp add: pump_view_def)
  have "accounts (R \<union> unrefused es) (foldl enqueue ?c es)"
    using assms view_same(2) [OF v] accounts_view [OF v] by (intro accounts_enqueues) simp_all
  then show ?thesis unfolding onCatchup_def Let_def
    by (auto split: option.split simp: accounts_view [of "page_arrived w to m d" d for w d])
qed

lemma accounts_step:
  assumes "pump_ok c" "accounts R c" "\<not> died c"
  shows "accounts (R \<union> unrefused (op_entries x)) (client_step c x)"
proof -
  have same: "accounts R c'" if "pump_view c' = pump_view c" for c' using accounts_view [OF that] assms(2) by simp
  have one: "accounts (R \<union> unrefused [e]) (enqueue c e)" for e using accounts_enqueues [OF assms(1,2), of "[e]"] by simp
  have none: "unrefused [] = {}" by (simp add: unrefused_def)
  show ?thesis using assms
    by (auto simp: client_step_def onFrame_def onKnown_def op_entries_def frame_entries_def parseServerFrame_def none
        one accounts_catchup accounts_handler_done
        intro!: same split: client_op.split option.split server_frame.split known_frame.split)
      (simp_all add: pump_view_def)
qed

lemma died_step: "died c \<Longrightarrow> client_step c x = c"
  by (simp add: client_step_def)

lemma client_run_good: "pump_ok (client_run resume xs)"
  unfolding client_run_def by (rule loop_stream.run_good) (simp add: pump_ok_def setEventHandler_def)

lemma run_accounts: "\<not> died (client_run resume xs) \<Longrightarrow> accounts (unrefused (received xs)) (client_run resume xs)"
proof (induction xs rule: rev_induct)
  case Nil
  show ?case by (simp add: client_run_def received_def unrefused_def accounts_def setEventHandler_def)
next
  case (snoc x xs)
  have step: "client_run resume (xs @ [x]) = client_step (client_run resume xs) x" by (simp add: client_run_def)
  with snoc.prems have "\<not> died (client_run resume xs)" using died_step [of "client_run resume xs" x] by metis
  note ih = accounts_step [OF client_run_good snoc.IH [OF this] this, of x]
  have "unrefused (received xs) \<union> unrefused (op_entries x) = unrefused (received (xs @ [x]))" by (auto simp: received_def unrefused_def)
  with ih show ?case by (simp add: step)
qed

lemma run_positions:
  "map wire_roomSeq (handed (client_run resume xs)) = [Suc resume ..< Suc resume + length (handed (client_run resume xs))]"
  "awaited (client_run resume xs) = Suc resume + length (handed (client_run resume xs))"
  using loop_stream.run_consecutive [of "setEventHandler resume" xs]
  by (simp_all add: client_run_def pump_ok_def setEventHandler_def awaited_def)

lemma died_simps [simp]:
  "died (pump_next c) = died c" "died (enqueue c e) = died c" "died (handler_done c) = died c"
  "died (since_page room from b c) = died c" "died (client_onHead room head c) = died c" "died (page_arrived w to m c) = died c"
  "died (client_command cmd c) = died c"
  by (simp_all add: pump_next_def enqueue_def pump_def handler_done_def since_page_def client_onHead_def page_arrived_def client_command_def
      Let_def split: option.split)

lemma died_enqueues [simp]: "died (foldl enqueue c es) = died c"
  by (induction es arbitrary: c) simp_all

lemma died_catchup [simp]: "died (onCatchup room from to m es c) = died c"
  by (simp add: onCatchup_def Let_def split: option.split)

text \<open>A frame of a type the client acts on, whose content no schema reads.\<close>

definition hollow :: "raw_frame \<Rightarrow> bool" where
  "hollow raw \<longleftrightarrow> as_known raw = None \<and> (as_type raw = Some (asc ''catchup'') \<or> as_type raw = Some (asc ''event''))"

definition unreadable :: "'c client_op \<Rightarrow> bool" where
  "unreadable x = (case x of Frame raw \<Rightarrow> hollow raw | _ \<Rightarrow> False)"

lemma died_known [simp]: "died (onKnown f c) = died c"
  by (cases f) (simp_all add: onKnown_def)

lemma died_hollow: "died (onHollow t c) \<longleftrightarrow> died c \<or> t = asc ''catchup'' \<or> t = asc ''event''"
  by (simp add: onHollow_def)

lemma died_frame: "died (onFrame raw c) \<longleftrightarrow> died c \<or> hollow raw"
proof (cases "as_known raw")
  case None
  then show ?thesis
    by (cases "as_type raw") (auto simp: onFrame_def parseServerFrame_def hollow_def died_hollow KNOWN_TYPES_def)
qed (simp add: onFrame_def parseServerFrame_def hollow_def)

lemma died_client_step: "died (client_step c x) \<longleftrightarrow> died c \<or> unreadable x"
  by (cases x) (simp_all add: client_step_def died_frame unreadable_def)

lemma run_died: "died (client_run resume xs) \<longleftrightarrow> list_ex unreadable xs"
proof (induction xs rule: rev_induct)
  case (snoc x xs)
  then show ?case by (auto simp: client_run_def died_client_step)
qed (simp add: client_run_def setEventHandler_def)

lemma step_into_death:
  assumes "\<not> died c" "died (client_step c x)"
  shows "pump_view (client_step c x) = pump_view c"
proof -
  have "unreadable x" using assms by (simp add: died_client_step)
  then obtain raw t where "x = Frame raw" "parseServerFrame raw = Some (Hollow t)"
    by (auto simp: unreadable_def hollow_def parseServerFrame_def KNOWN_TYPES_def split: client_op.splits)
  with assms(1) show ?thesis by (simp add: client_step_def onFrame_def)
qed

lemma run_handed_received: "set (handed (client_run resume xs)) \<subseteq> unrefused (received xs)"
proof -
  have "\<exists>ys zs. xs = ys @ zs \<and> pump_view (client_run resume xs) = pump_view (client_run resume ys) \<and> \<not> died (client_run resume ys)"
  proof (induction xs rule: rev_induct)
    case Nil
    show ?case by (simp add: client_run_def setEventHandler_def)
  next
    case (snoc x xs)
    have step: "client_run resume (xs @ [x]) = client_step (client_run resume xs) x" by (simp add: client_run_def)
    show ?case
    proof (cases "died (client_run resume (xs @ [x]))")
      case True
      have "pump_view (client_run resume (xs @ [x])) = pump_view (client_run resume xs)"
        using True step_into_death died_step unfolding step by metis
      with snoc show ?thesis by (metis append.assoc)
    next
      case False
      then show ?thesis by (metis append_Nil2)
    qed
  qed
  then obtain ys zs where ys: "xs = ys @ zs" "pump_view (client_run resume xs) = pump_view (client_run resume ys)"
    "\<not> died (client_run resume ys)" by blast
  from run_accounts [OF ys(3)] have "set (handed (client_run resume ys)) \<subseteq> unrefused (received ys)" by (simp add: accounts_def)
  with ys(1,2) show ?thesis by (auto simp: pump_view_def received_def unrefused_def)
qed

lemma handler_done_shortens:
  assumes "pump_ok c" "in_flight (handler_done c) = Some e"
  shows "length (pending (handler_done c)) < length (pending c)"
proof -
  obtain f where f: "in_flight c = Some f" using assms(2) by (cases "in_flight c") (simp_all add: handler_done_def)
  with assms(2) obtain g where g: "map_of (pending c) (Suc (wire_roomSeq f)) = Some g"
    by (cases "map_of (pending c) (Suc (wire_roomSeq f))") (simp_all add: handler_done_def pump_next_def)
  then have "(Suc (wire_roomSeq f), g) \<in> set (pending c)" by (rule map_of_SomeD)
  moreover from this have "wire_roomSeq g = Suc (wire_roomSeq f)" using assms(1) by (auto simp: pump_ok_def list_all_iff)
  ultimately have "length (filter (\<lambda>p. fst p \<noteq> wire_roomSeq g) (pending c)) < length (pending c)"
    by (intro length_filter_less) auto
  with f g show ?thesis by (simp add: handler_done_def pump_next_def)
qed

lemma drained_stays: "in_flight ((handler_done ^^ n) c) = None \<Longrightarrow> n \<le> m \<Longrightarrow> in_flight ((handler_done ^^ m) c) = None"
proof (induction m)
  case (Suc m)
  then show ?case by (cases "n = Suc m") (simp_all add: handler_done_def)
qed simp

lemma drains: "pump_ok c \<Longrightarrow> in_flight ((handler_done ^^ Suc (length (pending c))) c) = None"
proof (induction "length (pending c)" arbitrary: c rule: less_induct)
  case less
  show ?case
  proof (cases "in_flight (handler_done c)")
    case None
    then have "in_flight ((handler_done ^^ 1) c) = None" by simp
    then show ?thesis by (rule drained_stays) simp
  next
    case (Some e)
    have l: "length (pending (handler_done c)) < length (pending c)" by (rule handler_done_shortens [OF less.prems Some])
    have "pump_ok (handler_done c)" using moves_handler_done [OF less.prems] by (simp add: moves_def)
    from less.hyps [OF l this]
    have "in_flight ((handler_done ^^ Suc (Suc (length (pending (handler_done c))))) c) = None" by (simp add: funpow_swap1)
    then show ?thesis by (rule drained_stays) (use l in simp)
  qed
qed

lemma first_gap:
  assumes "in_flight (client_run resume xs) = None" "\<not> died (client_run resume xs)" "resume \<le> n"
  shows "n \<le> deliveredThrough (client_run resume xs) \<longleftrightarrow>
    {resume<..n} \<subseteq> wire_roomSeq ` {e \<in> set (received xs). wire_issues e = []}"
proof -
  let ?c = "client_run resume xs" let ?R = "unrefused (received xs)"
  have d: "Suc (deliveredThrough ?c) = Suc resume + length (handed ?c)" using run_positions(2) [of resume xs] assms(1) by (simp add: awaited_def)
  have "set (map wire_roomSeq (handed ?c)) = {Suc resume ..< Suc resume + length (handed ?c)}" by (subst run_positions(1)) (simp only: set_upt)
  then have "{resume<..deliveredThrough ?c} = wire_roomSeq ` set (handed ?c)" using d by auto
  then have up: "{resume<..deliveredThrough ?c} \<subseteq> wire_roomSeq ` ?R" using run_handed_received [of resume xs] by auto
  have gap: "Suc (deliveredThrough ?c) \<notin> wire_roomSeq ` ?R"
    using run_accounts [OF assms(2)] client_run_good [of resume xs] assms(1) by (auto simp: accounts_def pump_ok_def awaited_def)
  have down: "n \<le> deliveredThrough ?c" if "{resume<..n} \<subseteq> wire_roomSeq ` ?R" proof (rule ccontr)
    assume "\<not> n \<le> deliveredThrough ?c"
    with d have "Suc (deliveredThrough ?c) \<in> {resume<..n}" by simp
    with that gap show False by blast
  qed
  from up down show ?thesis unfolding unrefused_def by (auto intro: order_trans)
qed

lemma run_handlers:
  "\<not> died (client_run resume xs) \<Longrightarrow> client_run resume (xs @ replicate k Handler_Done) = (handler_done ^^ k) (client_run resume xs)"
proof -
  assume alive: "\<not> died (client_run resume xs)"
  have "foldl client_step c (replicate k Handler_Done) = (handler_done ^^ k) c" if "\<not> died c" for c :: "'b client"
    using that by (induction k arbitrary: c) (simp_all add: client_step_def funpow_swap1)
  from this [OF alive] show ?thesis by (simp add: client_run_def)
qed

section \<open>Properties\<close>

text \<open>
  C35. The handler sees the room's events one position after the other.  Whatever frames arrive, in whatever
  order, with whatever repetitions, and however long the handler takes over each event, the events it was called
  with have the positions after the one it resumed from, each exactly once and in order; each arrived in a frame,
  and none is a refused row.
\<close>

theorem stream_in_order:
  "map wire_roomSeq (handed (client_run resume xs)) = [Suc resume ..< Suc resume + length (handed (client_run resume xs))] \<and>
   set (handed (client_run resume xs)) \<subseteq> {e \<in> set (received xs). wire_issues e = []}"
  using run_handed_received [of resume xs] unfolding unrefused_def by (intro conjI run_positions(1))

text \<open>
  C36. The pump stops, and how far it gets.  When the handler has finished with the event it was working on and once
  for each event that was waiting, it is idle; and then exactly the positions before the first one for which no
  unrefused event arrived are delivered.  Events that came early are not lost, and a row that the reducer refused,
  or that never arrives, holds back everything after it.
\<close>

theorem stream_drains_to_first_gap:
  assumes "\<not> list_ex unreadable xs" "resume \<le> n"
    and "c = client_run resume (xs @ replicate (Suc (length (pending (client_run resume xs)))) Handler_Done)"
  shows "in_flight c = None \<and> (n \<le> deliveredThrough c \<longleftrightarrow>
    {resume<..n} \<subseteq> wire_roomSeq ` {e \<in> set (received xs). wire_issues e = []})"
proof -
  let ?k = "Suc (length (pending (client_run resume xs)))"
  have alive: "\<not> died (client_run resume xs)" using assms(1) by (simp add: run_died)
  have "c = (handler_done ^^ ?k) (client_run resume xs)" unfolding assms(3) by (rule run_handlers [OF alive])
  then have "in_flight c = None" using drains [OF client_run_good] by simp
  moreover have "\<not> died c" using assms(1) unfolding assms(3) run_died by (auto simp: list_ex_iff unreadable_def)
  moreover have "received (xs @ replicate ?k Handler_Done) = received xs" by (simp add: received_def op_entries_def)
  ultimately show ?thesis using first_gap [of resume "xs @ replicate ?k Handler_Done" n] assms(2) unfolding assms(3) by simp
qed

definition sample_entry :: "nat \<Rightarrow> jstr list \<Rightarrow> wire_event" where
  "sample_entry n issues = \<lparr>wire_roomId = asc ''r'', wire_roomSeq = n, wire_actor = System, wire_event = Other_Event (asc ''draw_refused''),
     wire_issues = issues\<rparr>"

definition sample_frames :: "unit client_op list" where
  "sample_frames = map (\<lambda>e. Frame \<lparr>as_known = Some (Event_Frame e), as_type = Some (asc ''event'')\<rparr>)
     [sample_entry 3 [], sample_entry 2 [asc ''refused''], sample_entry 1 []]"

theorem stream_drains_to_first_gap_witness:
  "\<not> 2 \<le> deliveredThrough (client_run 0 (sample_frames @ replicate 2 Handler_Done))"
proof -
  have alive: "\<not> list_ex unreadable sample_frames" by code_simp
  have "length (pending (client_run 0 sample_frames)) = 1" by code_simp
  then have c: "client_run 0 (sample_frames @ replicate 2 Handler_Done) =
      client_run 0 (sample_frames @ replicate (Suc (length (pending (client_run 0 sample_frames)))) Handler_Done)"
    by (simp add: numeral_2_eq_2)
  have "2 \<notin> wire_roomSeq ` {e \<in> set (received sample_frames). wire_issues e = []}"
    by (auto simp: received_def op_entries_def frame_entries_def sample_frames_def sample_entry_def)
  moreover have "2 \<in> {0<..(2::nat)}" by simp
  ultimately have "\<not> {0<..2} \<subseteq> wire_roomSeq ` {e \<in> set (received sample_frames). wire_issues e = []}" by blast
  then show ?thesis using stream_drains_to_first_gap [OF alive _ c, of 2] by simp
qed

text \<open>
  What ends the process.  The listener of the socket throws on exactly the frames whose type is \<open>catchup\<close> or
  \<open>event\<close> and whose content the schemas do not read, such as a page that carries a tombstone; every other frame,
  known, unknown or unreadable, leaves the client running.
\<close>

theorem listener_throws_on_unread_page: "died (client_run resume xs) \<longleftrightarrow> list_ex unreadable xs"
  by (rule run_died)

end
