(* ===== verification/Loop.thy ===== *)
theory Loop
  imports Journal Loop_Client Routing
begin

text \<open>
  The channel loop: \<open>conductor.ts\<close>, which sends a message to one of four arms, and \<open>daemon.ts\<close>, the handler of each
  room event.  The server and the socket are a parameter: a function from what became of the commands so far and the
  next command to what becomes of that one.  It is not sent, because the socket is not open or the process dies
  first; or it is sent and no reply is processed, because it timed out, the socket closed or the process died before
  the reply was journalled; or a reply is processed.  Without a reply the turn stops and the daemon handles no further
  event, so the places where a turn can be cut are its commands: before the first record of a turn a cut is as if the
  event had not been handed over, and after the last command only records of the same position follow.  What a cut
  inside a journal write leaves is the subject of \<open>Journal\<close>.
\<close>

section \<open>The conductor\<close>

datatype route = Open_Work jstr | Steer_Route jstr | Answer_Route | Ignore_Route

record inbound_message =
  inbound_messageId :: jstr
  inbound_body :: jstr
  inbound_replyToId :: "jstr option"
  authorUserId :: "jstr option"

fun TICKET :: "jstr \<Rightarrow> jstr option" where
  "TICKET [] = None"
| "TICKET (c # s) = (if c = 35 \<and> takeWhile is_digit s \<noteq> [] then Some (takeWhile is_digit s) else TICKET s)"

definition classify :: "inbound_message \<Rightarrow> jstr \<Rightarrow> (jstr \<Rightarrow> jstr option) \<Rightarrow> route" where
  "classify m own running =
     (if authorUserId m = Some own then Ignore_Route
      else case Option.bind (inbound_replyToId m) running of
        Some s \<Rightarrow> Steer_Route s
      | None \<Rightarrow> (case TICKET (inbound_body m) of
          Some t \<Rightarrow> Open_Work t
        | None \<Rightarrow> if trim (inbound_body m) \<noteq> [] \<and> last (trim (inbound_body m)) = 63 then Answer_Route else Ignore_Route))"

definition answerClientMessageId :: "jstr \<Rightarrow> jstr" where
  "answerClientMessageId cause = asc ''loop-answer:'' @ cause"

section \<open>The daemon\<close>

datatype loop_command =
    Open_Plan jstr jstr jstr jstr
  | Open_Session jstr jstr jstr jstr jstr
  | Settle_Plan jstr jstr
  | Signal_Session jstr jstr jstr jstr
  | Send_Message jstr jstr jstr jstr

record loop_config =
  loop_roomId :: jstr
  loop_userId :: jstr
  harness :: "jstr option"
  session_model :: "jstr option"

text \<open>What becomes of a command: \<open>send\<close> throws, the wait for the answer is rejected, or the answer arrives.\<close>

datatype delivery = Not_Sent | No_Reply | got_reply: Got_Reply reply

record loop_daemon =
  loop_journal :: journal
  loop_tried :: "(loop_command \<times> delivery) list"
  halted :: bool

type_synonym loop_server = "(loop_command \<times> delivery) list \<Rightarrow> loop_command \<Rightarrow> delivery"

abbreviation memory :: "loop_daemon \<Rightarrow> journal_state" where
  "memory d \<equiv> journal_state (loop_journal d)"

fun isFundedArmRefusal :: "reply \<Rightarrow> bool" where
  "isFundedArmRefusal (Nack code message) = (code = asc ''invalid'' \<and> contains_text message (asc ''has already funded a draw''))"
| "isFundedArmRefusal (Ack draw) = False"

fun isPlanClaimedRefusal :: "reply \<Rightarrow> bool" where
  "isPlanClaimedRefusal (Nack code message) = (code = asc ''invalid'' \<and> contains_text message (asc ''has already opened a plan''))"
| "isPlanClaimedRefusal (Ack draw) = False"

definition ANSWER_BODY :: jstr where
  "ANSWER_BODY = asc (''The channel loop received your message. Run-zero answers are acknowledgements only '' @
     ''(a model conductor is out of scope); heavy work is opened as a session from a goal that names a ticket.'')"

text \<open>A record in the journal, and a command a turn comes to with what becomes of it; a turn without a reply throws.\<close>

definition record_outcome :: "nat \<Rightarrow> outcome \<Rightarrow> loop_daemon \<Rightarrow> loop_daemon" where
  "record_outcome n oc d = d\<lparr>loop_journal := journal_append (loop_journal d) \<lparr>roomSeq = n, outcome = oc\<rparr>\<rparr>"

definition tried_on :: "loop_server \<Rightarrow> loop_command \<Rightarrow> loop_daemon \<Rightarrow> loop_daemon" where
  "tried_on srv cmd d = d\<lparr>loop_tried := loop_tried d @ [(cmd, srv (loop_tried d) cmd)]\<rparr>"

definition command_then :: "loop_server \<Rightarrow> loop_command \<Rightarrow> (reply \<Rightarrow> loop_daemon \<Rightarrow> loop_daemon) \<Rightarrow> loop_daemon \<Rightarrow> loop_daemon" where
  "command_then srv cmd k d = (case srv (loop_tried d) cmd of
     Got_Reply r \<Rightarrow> k r (tried_on srv cmd d)
   | _ \<Rightarrow> (tried_on srv cmd d)\<lparr>halted := True\<rparr>)"

definition advance :: "nat \<Rightarrow> loop_daemon \<Rightarrow> loop_daemon" where
  "advance n d = record_outcome n Advanced d"

definition openWork :: "loop_config \<Rightarrow> loop_server \<Rightarrow> nat \<Rightarrow> jstr \<Rightarrow> jstr \<Rightarrow> loop_daemon \<Rightarrow> loop_daemon" where
  "openWork cfg srv n cause text =
     command_then srv (Open_Plan (loop_roomId cfg) (loop_userId cfg) (slice_to 200 text) cause)
       (\<lambda>r. record_outcome n (case r of
          Nack code message \<Rightarrow> if isPlanClaimedRefusal r then Plan_Requested cause else Ignored_Cause cause
        | Ack draw \<Rightarrow> Plan_Requested cause))"

definition steer :: "loop_config \<Rightarrow> loop_server \<Rightarrow> nat \<Rightarrow> jstr \<Rightarrow> jstr \<Rightarrow> jstr \<Rightarrow> loop_daemon \<Rightarrow> loop_daemon" where
  "steer cfg srv n cause session text =
     command_then srv (Signal_Session (loop_roomId cfg) session text cause) (\<lambda>r. record_outcome n (Steered_To cause session))"

definition answer :: "loop_config \<Rightarrow> loop_server \<Rightarrow> nat \<Rightarrow> jstr \<Rightarrow> loop_daemon \<Rightarrow> loop_daemon" where
  "answer cfg srv n cause =
     command_then srv (Send_Message (loop_roomId cfg) ANSWER_BODY (answerClientMessageId cause) cause)
       (\<lambda>r. record_outcome n (Answered_With cause (answerClientMessageId cause)))"

definition runningSessionForGoal :: "journal_state \<Rightarrow> jstr \<Rightarrow> jstr option" where
  "runningSessionForGoal j goal = (case get (causes j) goal of
     None \<Rightarrow> None
   | Some st \<Rightarrow>
       if cause_class st \<noteq> DrawClass \<or> \<not> isCauseSettled (Some st) then None
       else case cause_planId st of
         Some (p # ps) \<Rightarrow> (case get (plans j) (p # ps) of
           None \<Rightarrow> None
         | Some plan \<Rightarrow> List.find (\<lambda>s. s \<notin> set (plan_terminal plan)) (plan_sessions plan))
       | _ \<Rightarrow> None)"

definition onMessage :: "loop_config \<Rightarrow> loop_server \<Rightarrow> nat \<Rightarrow> actor \<Rightarrow> jstr \<Rightarrow> jstr \<Rightarrow> jstr option \<Rightarrow> loop_daemon \<Rightarrow> loop_daemon" where
  "onMessage cfg srv n who cause text replyTo d =
     (if get (causes (memory d)) cause \<noteq> None then advance n d
      else case classify \<lparr>inbound_messageId = cause, inbound_body = text, inbound_replyToId = replyTo, authorUserId = actorUserId who\<rparr>
             (loop_userId cfg) (runningSessionForGoal (memory d)) of
        Open_Work ticket \<Rightarrow> openWork cfg srv n cause text d
      | Steer_Route session \<Rightarrow> steer cfg srv n cause session text d
      | Answer_Route \<Rightarrow> answer cfg srv n cause d
      | Ignore_Route \<Rightarrow> record_outcome n (Ignored_Cause cause) d)"

definition takeDraw :: "loop_config \<Rightarrow> loop_server \<Rightarrow> nat \<Rightarrow> jstr \<Rightarrow> jstr \<Rightarrow> bool \<Rightarrow> loop_daemon \<Rightarrow> loop_daemon" where
  "takeDraw cfg srv n cause plan retry =
     command_then srv (Open_Session (loop_roomId cfg) plan (case harness cfg of None \<Rightarrow> asc ''atrium-loop'' | Some h \<Rightarrow> h)
         (case session_model cfg of None \<Rightarrow> asc ''run-zero'' | Some m \<Rightarrow> m) cause)
       (\<lambda>r. record_outcome n (case r of
          Nack code message \<Rightarrow>
            if isFundedArmRefusal r then Funded_Terminal cause plan (if retry then Some True else None)
            else Draw_Refused cause plan (if retry then Some True else None)
        | Ack (Some (Draw_Denied limit drawn)) \<Rightarrow> Draw_Refused cause plan (if retry then Some True else None)
        | Ack _ \<Rightarrow> Draw_Taken cause plan retry))"

definition onPlanOpened :: "loop_config \<Rightarrow> loop_server \<Rightarrow> nat \<Rightarrow> actor \<Rightarrow> jstr \<Rightarrow> jstr \<Rightarrow> jstr option \<Rightarrow> loop_daemon \<Rightarrow> loop_daemon" where
  "onPlanOpened cfg srv n who plan agent cause d = (case cause of
     Some (c # cs) \<Rightarrow>
       if agent = loop_userId cfg \<and> actorUserId who = Some (loop_userId cfg) \<and>
          map_option cause_step (get (causes (memory d)) (c # cs)) = Some PlanRequestedKind
       then takeDraw cfg srv n (c # cs) plan False d else advance n d
   | _ \<Rightarrow> advance n d)"

definition onSessionOpened :: "loop_config \<Rightarrow> nat \<Rightarrow> actor \<Rightarrow> jstr \<Rightarrow> jstr \<Rightarrow> jstr option \<Rightarrow> loop_daemon \<Rightarrow> loop_daemon" where
  "onSessionOpened cfg n who session plan cause d = (case cause of
     Some (c # cs) \<Rightarrow>
       if actorUserId who \<noteq> Some (loop_userId cfg) \<or> get (causes (memory d)) (c # cs) = None then advance n d
       else if get (sessions (memory d)) session \<noteq> None then advance n d
       else record_outcome n (Session_Opened (c # cs) session plan) d
   | _ \<Rightarrow> advance n d)"

definition maybeSettlePlan :: "loop_config \<Rightarrow> loop_server \<Rightarrow> nat \<Rightarrow> jstr \<Rightarrow> loop_daemon \<Rightarrow> loop_daemon" where
  "maybeSettlePlan cfg srv n plan d = (case get (plans (memory d)) plan of
     None \<Rightarrow> d
   | Some p \<Rightarrow>
       if plan_settled p \<or> plan_sessions p = [] \<or> \<not> list_all (\<lambda>s. s \<in> set (plan_terminal p)) (plan_sessions p) then d
       else command_then srv (Settle_Plan (loop_roomId cfg) plan) (\<lambda>r. record_outcome n (Plan_Settled plan)) d)"

definition onSessionTerminal :: "loop_config \<Rightarrow> loop_server \<Rightarrow> nat \<Rightarrow> jstr \<Rightarrow> loop_daemon \<Rightarrow> loop_daemon" where
  "onSessionTerminal cfg srv n session d = (case get (sessions (memory d)) session of
     Some (p # ps) \<Rightarrow>
       if session \<in> (case get (plans (memory d)) (p # ps) of None \<Rightarrow> {} | Some plan \<Rightarrow> set (plan_terminal plan)) then advance n d
       else maybeSettlePlan cfg srv n (p # ps) (record_outcome n (Session_Terminal session (p # ps)) d)
   | _ \<Rightarrow> advance n d)"

definition retryable :: "jstr \<Rightarrow> cause_state \<Rightarrow> bool" where
  "retryable plan st \<longleftrightarrow> cause_class st = DrawClass \<and> cause_step st = DrawRefusedKind \<and> cause_planId st = Some plan \<and> \<not> retried st"

text \<open>
  The loop of \<open>onFunding\<close> runs over the live map; a retry replaces the value of a key that is there, so the keys it
  visits are the ones at its start.
\<close>

definition funding_retry :: "loop_config \<Rightarrow> loop_server \<Rightarrow> nat \<Rightarrow> jstr \<Rightarrow> loop_daemon \<Rightarrow> jstr \<Rightarrow> loop_daemon" where
  "funding_retry cfg srv n plan d cause =
     (if \<not> halted d \<and> pred_option (retryable plan) (get (causes (memory d)) cause) \<and> get (causes (memory d)) cause \<noteq> None
      then takeDraw cfg srv n cause plan True d else d)"

definition onFunding :: "loop_config \<Rightarrow> loop_server \<Rightarrow> nat \<Rightarrow> jstr \<Rightarrow> loop_daemon \<Rightarrow> loop_daemon" where
  "onFunding cfg srv n plan d =
     (let d' = foldl (funding_retry cfg srv n plan) d (keys (causes (memory d))) in
      if halted d' then d' else advance n d')"

definition handleEvent :: "loop_config \<Rightarrow> loop_server \<Rightarrow> wire_event \<Rightarrow> loop_daemon \<Rightarrow> loop_daemon" where
  "handleEvent cfg srv e d = (let n = wire_roomSeq e; who = wire_actor e in case wire_event e of
     Message_Posted m text replyTo \<Rightarrow> onMessage cfg srv n who m text replyTo d
   | Plan_Opened plan agent cause \<Rightarrow> onPlanOpened cfg srv n who plan agent cause d
   | Session_Was_Opened session plan cause \<Rightarrow> onSessionOpened cfg n who session plan cause d
   | Session_Was_Settled session \<Rightarrow> onSessionTerminal cfg srv n session d
   | Session_Failed session \<Rightarrow> onSessionTerminal cfg srv n session d
   | Plan_Rlimit_Set plan \<Rightarrow> onFunding cfg srv n plan d
   | Other_Event t \<Rightarrow> advance n d
   | Unread_Event t \<Rightarrow> d\<lparr>halted := True\<rparr>)"

definition safeHandle :: "loop_config \<Rightarrow> loop_server \<Rightarrow> loop_daemon \<Rightarrow> wire_event \<Rightarrow> loop_daemon" where
  "safeHandle cfg srv d e = (if halted d then d else handleEvent cfg srv e d)"

text \<open>
  A process that starts opens the journal it finds, and then handles what its client hands it from the cursor on.
  A run is any number of such lives, each with its own server and its own frames.
\<close>

definition loop_start :: "loop_config \<Rightarrow> loop_daemon \<Rightarrow> loop_daemon" where
  "loop_start cfg d = (case open_journal (loop_roomId cfg) (journal_file (loop_journal d)) of
     None \<Rightarrow> d\<lparr>halted := True\<rparr>
   | Some j \<Rightarrow> d\<lparr>loop_journal := (loop_journal d)\<lparr>journal_state := j, appendsSinceCompaction := 0\<rparr>, halted := False\<rparr>)"

definition loop_life :: "loop_config \<Rightarrow> loop_daemon \<Rightarrow> loop_server \<times> unit client_op list \<Rightarrow> loop_daemon" where
  "loop_life cfg d life = (let d' = loop_start cfg d in
     foldl (safeHandle cfg (fst life)) d' (handed (client_run (journal_cursor (memory d')) (snd life))))"

definition loop_run :: "loop_config \<Rightarrow> int \<Rightarrow> (loop_server \<times> unit client_op list) list \<Rightarrow> loop_daemon" where
  "loop_run cfg every lives = foldl (loop_life cfg)
     \<lparr>loop_journal = fresh_journal (loop_roomId cfg) every, loop_tried = [], halted = False\<rparr> lives"

section \<open>Invariants of a run\<close>

lemma record_outcome_simps [simp]:
  "memory (record_outcome n oc d) = reduce_record (memory d) \<lparr>roomSeq = n, outcome = oc\<rparr>"
  "loop_tried (record_outcome n oc d) = loop_tried d"
  "halted (record_outcome n oc d) = halted d"
  by (simp_all add: record_outcome_def)

lemma tried_on_simps [simp]:
  "loop_journal (tried_on srv cmd d) = loop_journal d"
  "halted (tried_on srv cmd d) = halted d"
  "loop_tried (tried_on srv cmd d) = loop_tried d @ [(cmd, srv (loop_tried d) cmd)]"
  by (simp_all add: tried_on_def)

text \<open>The cursor never passes the event of the turn.\<close>

lemma record_cursor [simp]:
  "\<not> is_snapshot oc \<Longrightarrow> journal_cursor (memory (record_outcome n oc d)) = max (journal_cursor (memory d)) n"
  by (simp add: reduce_record_cursor)

lemma command_cursor:
  assumes "\<And>r d'. journal_cursor (memory d') \<le> n \<Longrightarrow> journal_cursor (memory (k r d')) \<le> n" "journal_cursor (memory d) \<le> n"
  shows "journal_cursor (memory (command_then srv cmd k d)) \<le> n"
  using assms by (simp add: command_then_def split: delivery.split)

lemma draw_cursor [simp]: "journal_cursor (memory d) \<le> n \<Longrightarrow> journal_cursor (memory (takeDraw cfg srv n c plan retry d)) \<le> n"
  unfolding takeDraw_def by (rule command_cursor) (auto simp: reduce_record_cursor split: reply.split option.split draw_outcome.split)

lemma settle_cursor [simp]: "journal_cursor (memory d) \<le> n \<Longrightarrow> journal_cursor (memory (maybeSettlePlan cfg srv n plan d)) \<le> n"
  by (auto simp: maybeSettlePlan_def reduce_record_cursor split: option.split intro!: command_cursor)

lemma route_cursor [simp]:
  assumes "journal_cursor (memory d) \<le> n"
  shows "journal_cursor (memory (openWork cfg srv n c text d)) \<le> n"
    and "journal_cursor (memory (steer cfg srv n c s text d)) \<le> n"
    and "journal_cursor (memory (answer cfg srv n c d)) \<le> n"
  using assms unfolding openWork_def steer_def answer_def
  by (auto simp: reduce_record_cursor split: reply.split intro!: command_cursor)

lemma funding_cursor:
  "journal_cursor (memory d) \<le> n \<Longrightarrow> journal_cursor (memory (foldl (funding_retry cfg srv n plan) d cs)) \<le> n"
  by (induction cs arbitrary: d) (simp_all add: funding_retry_def)

lemma turn_cursor: "journal_cursor (memory d) \<le> wire_roomSeq e \<Longrightarrow> journal_cursor (memory (safeHandle cfg srv d e)) \<le> wire_roomSeq e"
  by (auto simp: safeHandle_def handleEvent_def Let_def advance_def onMessage_def onPlanOpened_def onSessionOpened_def
      onSessionTerminal_def onFunding_def funding_cursor reduce_record_cursor split: room_event.split route.split option.split list.split)

lemma classify_steer: "classify m own running = Steer_Route s \<Longrightarrow> \<exists>g. inbound_replyToId m = Some g \<and> running g = Some s"
  by (cases "inbound_replyToId m") (auto simp: classify_def split: if_splits option.splits)

text \<open>What the journal says of a plan: its sessions, those that ended, and whether it is settled.\<close>

definition children :: "journal_state \<Rightarrow> jstr \<Rightarrow> jstr list" where
  "children j p = (case get (plans j) p of None \<Rightarrow> [] | Some q \<Rightarrow> plan_sessions q)"

definition finished :: "journal_state \<Rightarrow> jstr \<Rightarrow> jstr list" where
  "finished j p = (case get (plans j) p of None \<Rightarrow> [] | Some q \<Rightarrow> plan_terminal q)"

definition closed_plan :: "journal_state \<Rightarrow> jstr \<Rightarrow> bool" where
  "closed_plan j p = (case get (plans j) p of None \<Rightarrow> False | Some q \<Rightarrow> plan_settled q)"

text \<open>
  The contract of what a run keeps: it survives a restart, and each thing a turn can do keeps it under the condition
  the turn has checked.  A turn that writes several records is a sequence of them.  An invariant holds of a fresh
  daemon besides.
\<close>

locale loop_kept =
  fixes cfg :: loop_config and I :: "loop_daemon \<Rightarrow> bool"
  assumes restart: "I d \<Longrightarrow> I (loop_start cfg d)"
    and stops: "I d \<Longrightarrow> I (d\<lparr>halted := True\<rparr>)"
    and advances: "I d \<Longrightarrow> journal_cursor (memory d) \<le> n \<Longrightarrow> I (record_outcome n Advanced d)"
    and ignores: "I d \<Longrightarrow> journal_cursor (memory d) \<le> n \<Longrightarrow> get (causes (memory d)) c = None \<Longrightarrow> I (record_outcome n (Ignored_Cause c) d)"
    and opens_work: "I d \<Longrightarrow> journal_cursor (memory d) \<le> n \<Longrightarrow> get (causes (memory d)) c = None \<Longrightarrow> I (openWork cfg srv n c text d)"
    and steers: "I d \<Longrightarrow> journal_cursor (memory d) \<le> n \<Longrightarrow> get (causes (memory d)) c = None \<Longrightarrow>
      runningSessionForGoal (memory d) goal = Some s \<Longrightarrow> I (steer cfg srv n c s text d)"
    and answers: "I d \<Longrightarrow> journal_cursor (memory d) \<le> n \<Longrightarrow> get (causes (memory d)) c = None \<Longrightarrow> I (answer cfg srv n c d)"
    and draws: "I d \<Longrightarrow> journal_cursor (memory d) \<le> n \<Longrightarrow> get (causes (memory d)) c = Some st \<Longrightarrow>
      cause_step st = PlanRequestedKind \<Longrightarrow> I (takeDraw cfg srv n c plan False d)"
    and redraws: "I d \<Longrightarrow> journal_cursor (memory d) \<le> n \<Longrightarrow> get (causes (memory d)) c = Some st \<Longrightarrow>
      retryable plan st \<Longrightarrow> I (takeDraw cfg srv n c plan True d)"
    and notes_session: "I d \<Longrightarrow> journal_cursor (memory d) \<le> n \<Longrightarrow> get (causes (memory d)) c \<noteq> None \<Longrightarrow>
      get (sessions (memory d)) s = None \<Longrightarrow> I (record_outcome n (Session_Opened c s plan) d)"
    and ends_session: "I d \<Longrightarrow> journal_cursor (memory d) \<le> n \<Longrightarrow> get (sessions (memory d)) s = Some plan \<Longrightarrow>
      s \<notin> set (finished (memory d) plan) \<Longrightarrow> I (maybeSettlePlan cfg srv n plan (record_outcome n (Session_Terminal s plan) d))"
begin

lemma message: "I d \<Longrightarrow> journal_cursor (memory d) \<le> n \<Longrightarrow> I (onMessage cfg srv n who m text replyTo d)"
  by (auto simp: onMessage_def advance_def advances ignores opens_work answers split: route.split dest!: classify_steer intro: steers)

lemma plan_opened: "I d \<Longrightarrow> journal_cursor (memory d) \<le> n \<Longrightarrow> I (onPlanOpened cfg srv n who plan agent cause d)"
  by (auto simp: onPlanOpened_def advance_def advances split: option.split list.split intro: draws)

lemma session_opened: "I d \<Longrightarrow> journal_cursor (memory d) \<le> n \<Longrightarrow> I (onSessionOpened cfg n who s plan cause d)"
  by (auto simp: onSessionOpened_def advance_def advances split: option.split list.split intro: notes_session)

lemma session_terminal: "I d \<Longrightarrow> journal_cursor (memory d) \<le> n \<Longrightarrow> I (onSessionTerminal cfg srv n s d)"
  by (auto simp: onSessionTerminal_def advance_def advances finished_def split: option.splits list.split intro!: ends_session)

lemma funding_retries:
  assumes "I d" "journal_cursor (memory d) \<le> n"
  shows "I (foldl (funding_retry cfg srv n plan) d cs) \<and> journal_cursor (memory (foldl (funding_retry cfg srv n plan) d cs)) \<le> n"
  using assms
proof (induction cs arbitrary: d)
  case (Cons c cs)
  have "I (funding_retry cfg srv n plan d c)" using Cons.prems
    by (auto simp: funding_retry_def intro: redraws)
  moreover have "journal_cursor (memory (funding_retry cfg srv n plan d c)) \<le> n" using Cons.prems by (auto simp: funding_retry_def)
  ultimately show ?case using Cons.IH by simp
qed simp

lemma funding: "I d \<Longrightarrow> journal_cursor (memory d) \<le> n \<Longrightarrow> I (onFunding cfg srv n plan d)"
  using funding_retries [of d n srv plan "keys (causes (memory d))"] by (simp add: onFunding_def Let_def advance_def advances)

lemma event_turn: "I d \<Longrightarrow> journal_cursor (memory d) \<le> wire_roomSeq e \<Longrightarrow> I (safeHandle cfg srv d e)"
  by (simp add: safeHandle_def handleEvent_def Let_def advance_def advances message plan_opened session_opened session_terminal funding stops
      split: room_event.split)

lemma event_turns:
  "I d \<Longrightarrow> sorted_wrt (<) (map wire_roomSeq es) \<Longrightarrow> \<forall>e \<in> set es. journal_cursor (memory d) \<le> wire_roomSeq e \<Longrightarrow>
    I (foldl (safeHandle cfg srv) d es)"
proof (induction es arbitrary: d)
  case (Cons e es)
  have "I (safeHandle cfg srv d e)" using Cons.prems by (simp add: event_turn)
  moreover have "journal_cursor (memory (safeHandle cfg srv d e)) \<le> wire_roomSeq e" using Cons.prems by (simp add: turn_cursor)
  ultimately show ?case using Cons.IH Cons.prems(2) by (force dest: order.strict_implies_order)
qed simp

lemma life: "I d \<Longrightarrow> I (loop_life cfg d l)"
proof -
  assume "I d"
  let ?d = "loop_start cfg d" let ?es = "handed (client_run (journal_cursor (memory ?d)) (snd l))"
  have es: "map wire_roomSeq ?es = [Suc (journal_cursor (memory ?d)) ..< Suc (journal_cursor (memory ?d)) + length ?es]" by (rule run_positions)
  have "set (map wire_roomSeq ?es) \<subseteq> {Suc (journal_cursor (memory ?d)) ..}" unfolding es by auto
  then have "\<forall>e \<in> set ?es. journal_cursor (memory ?d) \<le> wire_roomSeq e" by auto
  moreover have "sorted_wrt (<) (map wire_roomSeq ?es)" unfolding es by (rule sorted_wrt_upt)
  ultimately show ?thesis using event_turns [OF restart [OF \<open>I d\<close>]] by (simp add: loop_life_def Let_def)
qed

lemma lives_kept: "I d \<Longrightarrow> I (foldl (loop_life cfg) d lives)"
  by (induction lives arbitrary: d) (simp_all add: life)

end

locale loop_invariant = loop_kept +
  assumes fresh: "I \<lparr>loop_journal = fresh_journal (loop_roomId cfg) every, loop_tried = [], halted = False\<rparr>"
begin

lemma whole_run: "I (loop_run cfg every lives)"
  unfolding loop_run_def by (rule lives_kept [OF fresh])

end

section \<open>The journal on disk\<close>

definition healthy :: "loop_config \<Rightarrow> loop_daemon \<Rightarrow> bool" where
  "healthy cfg d \<longleftrightarrow> explains (loop_journal d) \<and> journal_room (loop_journal d) = loop_roomId cfg"

lemma healthy_record:
  "healthy cfg d \<Longrightarrow> journal_cursor (memory d) \<le> n \<Longrightarrow> \<not> is_snapshot oc \<Longrightarrow> healthy cfg (record_outcome n oc d)"
  by (simp add: healthy_def record_outcome_def explains_append)

lemma healthy_halt [simp]: "healthy cfg (d\<lparr>halted := b\<rparr>) = healthy cfg d"
  by (simp add: healthy_def)

lemma healthy_sent [simp]: "healthy cfg (tried_on srv cmd d) = healthy cfg d"
  by (simp add: healthy_def)

lemma command_then_keeps:
  assumes "\<not> got_reply (srv (loop_tried d) cmd) \<Longrightarrow> I ((tried_on srv cmd d)\<lparr>halted := True\<rparr>)"
    and "\<And>r. srv (loop_tried d) cmd = Got_Reply r \<Longrightarrow> I (k r (tried_on srv cmd d))"
  shows "I (command_then srv cmd k d)"
  using assms by (simp add: command_then_def split: delivery.split)

lemma start_healthy:
  assumes "healthy cfg d"
  shows "memory (loop_start cfg d) = memory d" "loop_tried (loop_start cfg d) = loop_tried d" "\<not> halted (loop_start cfg d)"
    "healthy cfg (loop_start cfg d)"
proof -
  have "open_journal (loop_roomId cfg) (journal_file (loop_journal d)) = Some (memory d)"
    using assms explains_open [of "loop_journal d"] by (simp add: healthy_def)
  then have s: "loop_start cfg d = d\<lparr>loop_journal := (loop_journal d)\<lparr>journal_state := memory d, appendsSinceCompaction := 0\<rparr>, halted := False\<rparr>"
    by (simp add: loop_start_def)
  show "memory (loop_start cfg d) = memory d" "loop_tried (loop_start cfg d) = loop_tried d" "\<not> halted (loop_start cfg d)"
    by (simp_all add: s)
  show "healthy cfg (loop_start cfg d)" using assms by (auto simp: s healthy_def explains_def)
qed

lemma not_snapshot [simp]:
  "\<not> is_snapshot (case r of Nack code message \<Rightarrow> if b then Plan_Requested c else Ignored_Cause c | Ack draw \<Rightarrow> Plan_Requested c)"
  "\<not> is_snapshot (case r of Nack code message \<Rightarrow> if b then Funded_Terminal c p t else Draw_Refused c p t
     | Ack None \<Rightarrow> Draw_Taken c p q | Ack (Some (Draw_Granted x)) \<Rightarrow> Draw_Taken c p q | Ack (Some (Draw_Denied y z)) \<Rightarrow> Draw_Refused c p t)"
  by (simp_all split: reply.split option.split draw_outcome.split)

lemma healthy_fresh: "healthy cfg \<lparr>loop_journal = fresh_journal (loop_roomId cfg) every, loop_tried = sent, halted = b\<rparr>"
  by (simp add: healthy_def explains_fresh) (simp add: fresh_journal_def)

lemma healthy_command:
  "healthy cfg d \<Longrightarrow> (\<And>r d'. healthy cfg d' \<Longrightarrow> memory d' = memory d \<Longrightarrow> healthy cfg (k r d')) \<Longrightarrow> healthy cfg (command_then srv cmd k d)"
  by (rule command_then_keeps) simp_all

lemma healthy_settle:
  assumes "healthy cfg d" "journal_cursor (memory d) \<le> n"
  shows "healthy cfg (maybeSettlePlan cfg' srv n plan d)"
proof -
  have "healthy cfg (command_then srv (Settle_Plan (loop_roomId cfg') plan) (\<lambda>r. record_outcome n (Plan_Settled plan)) d)"
    using assms by (intro healthy_command) (simp_all add: healthy_record)
  with assms(1) show ?thesis by (simp add: maybeSettlePlan_def split: option.split)
qed

interpretation disk: loop_invariant cfg "healthy cfg" for cfg
proof unfold_locales
  fix d n srv c msg s plan st goal
  assume h: "healthy cfg d" and n: "journal_cursor (memory d) \<le> n"
  show "healthy cfg (openWork cfg srv n c msg d)" "healthy cfg (steer cfg srv n c s msg d)" "healthy cfg (answer cfg srv n c d)"
    "healthy cfg (takeDraw cfg srv n c plan False d)" "healthy cfg (takeDraw cfg srv n c plan True d)"
    using n unfolding openWork_def steer_def answer_def takeDraw_def by (intro healthy_command [OF h] healthy_record; simp)+
  show "healthy cfg (maybeSettlePlan cfg srv n plan (record_outcome n (Session_Terminal s plan) d))"
    using h n by (intro healthy_settle healthy_record) (simp_all add: reduce_record_cursor)
qed (simp_all add: healthy_fresh start_healthy healthy_record)

section \<open>What a record says of a plan\<close>

lemma planned_views [simp]:
  "plan_sessions (planned j p c) = children j p" "plan_terminal (planned j p c) = finished j p" "plan_settled (planned j p c) = closed_plan j p"
  by (auto simp: planned_def children_def finished_def closed_plan_def split: option.split list.split)

lemma ensure_views [simp]:
  "children (ensurePlan p c f j) p' = (if p' = p then plan_sessions (f (planned j p c)) else children j p')"
  "finished (ensurePlan p c f j) p' = (if p' = p then plan_terminal (f (planned j p c)) else finished j p')"
  "closed_plan (ensurePlan p c f j) p' = (if p' = p then plan_settled (f (planned j p c)) else closed_plan j p')"
  "causes (ensurePlan p c f j) = causes j" "sessions (ensurePlan p c f j) = sessions j"
  by (simp_all add: ensurePlan_def children_def finished_def closed_plan_def)

lemma frame_views [simp]:
  "children (j\<lparr>journal_cursor := n\<rparr>) = children j" "children (j\<lparr>sessions := m\<rparr>) = children j"
  "finished (j\<lparr>journal_cursor := n\<rparr>) = finished j" "finished (j\<lparr>sessions := m\<rparr>) = finished j"
  "closed_plan (j\<lparr>journal_cursor := n\<rparr>) = closed_plan j" "closed_plan (j\<lparr>sessions := m\<rparr>) = closed_plan j"
  by (simp_all add: children_def finished_def closed_plan_def fun_eq_iff)

lemma upsert_views [simp]:
  "children (upsertCause c cls stp p s m a j) = children j" "finished (upsertCause c cls stp p s m a j) = finished j"
  "closed_plan (upsertCause c cls stp p s m a j) = closed_plan j" "sessions (upsertCause c cls stp p s m a j) = sessions j"
  by (simp_all add: upsertCause_def children_def finished_def closed_plan_def Let_def fun_eq_iff)

lemmas reduces = reduce_record_def reduce_outcome_def Let_def

lemma reduced_plans:
  "closed_plan (reduce_record j \<lparr>roomSeq = n, outcome = oc\<rparr>) p \<longleftrightarrow> closed_plan j p \<or> oc = Plan_Settled p" if "\<not> is_snapshot oc"
  using that by (cases oc) (auto simp: reduces)

lemma reduced_children:
  "set (children (reduce_record j \<lparr>roomSeq = n, outcome = oc\<rparr>) p) = set (children j p) \<union> {s. \<exists>c. oc = Session_Opened c s p}"
  if "\<not> is_snapshot oc"
  using that by (cases oc) (auto simp: reduces)

lemma reduced_finished:
  "set (finished (reduce_record j \<lparr>roomSeq = n, outcome = oc\<rparr>) p) = set (finished j p) \<union> {s. oc = Session_Terminal s p}"
  if "\<not> is_snapshot oc"
  using that by (cases oc) (auto simp: reduces)

lemma reduced_sessions:
  "get (sessions (reduce_record j \<lparr>roomSeq = n, outcome = oc\<rparr>)) s =
     (case oc of Session_Opened c s' p \<Rightarrow> if s' = s then Some p else get (sessions j) s
      | Session_Terminal s' p \<Rightarrow> if s' = s then Some p else get (sessions j) s
      | _ \<Rightarrow> get (sessions j) s)" if "\<not> is_snapshot oc"
  using that by (cases oc) (auto simp: reduces)

section \<open>How often a command is sent\<close>

fun routes_cause :: "jstr \<Rightarrow> loop_command \<Rightarrow> bool" where
  "routes_cause c (Open_Plan room agent title c') = (c' = c)"
| "routes_cause c (Signal_Session room s b c') = (c' = c)"
| "routes_cause c (Send_Message room b i c') = (c' = c)"
| "routes_cause c cmd = False"

fun draws_for :: "jstr \<Rightarrow> loop_command \<Rightarrow> bool" where
  "draws_for c (Open_Session room plan h m c') = (c' = c)"
| "draws_for c cmd = False"

fun settles_plan :: "jstr \<Rightarrow> loop_command \<Rightarrow> bool" where
  "settles_plan p (Settle_Plan room p') = (p' = p)"
| "settles_plan p cmd = False"

text \<open>The commands that were answered, and how many of them are of a kind.\<close>

definition replied :: "(loop_command \<Rightarrow> bool) \<Rightarrow> loop_daemon \<Rightarrow> nat" where
  "replied P d = length (filter (\<lambda>x. P (fst x) \<and> got_reply (snd x)) (loop_tried d))"

definition draw_credit :: "cause_state option \<Rightarrow> nat" where
  "draw_credit st = (case st of
     None \<Rightarrow> 0
   | Some st \<Rightarrow> if cause_step st = PlanRequestedKind then 0 else if cause_step st = DrawRefusedKind \<and> \<not> retried st then 1 else 2)"

definition within_budget :: "loop_daemon \<Rightarrow> bool" where
  "within_budget d \<longleftrightarrow>
     (\<forall>c. replied (routes_cause c) d \<le> (if get (causes (memory d)) c = None then 0 else 1)) \<and>
     (\<forall>c. replied (draws_for c) d \<le> draw_credit (get (causes (memory d)) c)) \<and>
     (\<forall>p. replied (settles_plan p) d \<le> (if closed_plan (memory d) p then 1 else 0))"

lemma replied_simps [simp]:
  "replied P (record_outcome n oc d) = replied P d"
  "replied P (d\<lparr>halted := b\<rparr>) = replied P d"
  "replied P (tried_on srv cmd d) = replied P d + (if P cmd \<and> got_reply (srv (loop_tried d) cmd) then 1 else 0)"
  by (simp_all add: replied_def)

lemma budgetI:
  assumes "\<And>c. replied (routes_cause c) d \<le> (if get (causes (memory d)) c = None then 0 else 1)"
    and "\<And>c. replied (draws_for c) d \<le> draw_credit (get (causes (memory d)) c)"
    and "\<And>p. replied (settles_plan p) d \<le> (if closed_plan (memory d) p then 1 else 0)"
  shows "within_budget d"
  using assms by (simp add: within_budget_def)

lemma budgetD:
  assumes "within_budget d"
  shows "replied (routes_cause c) d \<le> (if get (causes (memory d)) c = None then 0 else 1)"
    and "replied (draws_for c) d \<le> draw_credit (get (causes (memory d)) c)"
    and "replied (settles_plan p) d \<le> (if closed_plan (memory d) p then 1 else 0)"
  using assms by (simp_all add: within_budget_def)

text \<open>An outcome that changes the state of a cause is written for one cause, and changes that of no other.\<close>

fun cause_of :: "outcome \<Rightarrow> jstr option" where
  "cause_of (Plan_Requested c) = Some c"
| "cause_of (Draw_Taken c p r) = Some c"
| "cause_of (Draw_Refused c p r) = Some c"
| "cause_of (Funded_Terminal c p r) = Some c"
| "cause_of (Session_Opened c s p) = Some c"
| "cause_of (Steered_To c s) = Some c"
| "cause_of (Answered_With c m) = Some c"
| "cause_of (Ignored_Cause c) = Some c"
| "cause_of oc = None"

lemma other_cause:
  "\<not> is_snapshot oc \<Longrightarrow> cause_of oc \<noteq> Some c \<Longrightarrow>
    get (causes (reduce_record j \<lparr>roomSeq = n, outcome = oc\<rparr>)) c = get (causes j) c"
  by (cases oc) (auto simp: reduces upsertCause_def)

lemma own_cause:
  "\<not> is_snapshot oc \<Longrightarrow> cause_of oc = Some c \<Longrightarrow> get (causes (reduce_record j \<lparr>roomSeq = n, outcome = oc\<rparr>)) c \<noteq> None"
  by (cases oc) (auto simp: reduces upsertCause_def)

text \<open>Whatever a command spends is covered when the record that follows raises the credit by as much.\<close>

lemma budget_spent:
  assumes "within_budget d" "\<not> is_snapshot oc"
    and "\<And>c. replied (routes_cause c) d' \<le> replied (routes_cause c) d + (if cause_of oc = Some c \<and> get (causes (memory d)) c = None then 1 else 0)"
    and "\<And>c. replied (draws_for c) d' \<le> replied (draws_for c) d +
      (draw_credit (get (causes (reduce_record (memory d) \<lparr>roomSeq = n, outcome = oc\<rparr>)) c) - draw_credit (get (causes (memory d)) c))"
    and "\<And>c. draw_credit (get (causes (memory d)) c) \<le> draw_credit (get (causes (reduce_record (memory d) \<lparr>roomSeq = n, outcome = oc\<rparr>)) c)"
    and "\<And>p. replied (settles_plan p) d' \<le> replied (settles_plan p) d + (if oc = Plan_Settled p \<and> \<not> closed_plan (memory d) p then 1 else 0)"
    and "memory d' = memory d"
  shows "within_budget (record_outcome n oc d')"
proof (rule budgetI)
  fix c p
  let ?j = "reduce_record (memory d) \<lparr>roomSeq = n, outcome = oc\<rparr>"
  show "replied (routes_cause c) (record_outcome n oc d') \<le> (if get (causes (memory (record_outcome n oc d'))) c = None then 0 else 1)"
    using assms(3) [of c] budgetD(1) [OF assms(1), of c] own_cause [OF assms(2), of c "memory d" n]
      other_cause [OF assms(2), of c "memory d" n] assms(7) by (cases "cause_of oc = Some c") (auto split: if_splits)
  show "replied (draws_for c) (record_outcome n oc d') \<le> draw_credit (get (causes (memory (record_outcome n oc d'))) c)"
    using assms(4,5) [of c] budgetD(2) [OF assms(1), of c] assms(7) by simp
  show "replied (settles_plan p) (record_outcome n oc d') \<le> (if closed_plan (memory (record_outcome n oc d')) p then 1 else 0)"
    using assms(6) [of p] budgetD(3) [OF assms(1), of p] assms(7) by (auto simp: reduced_plans [OF assms(2)] split: if_splits)
qed

lemma credit_grows:
  assumes "\<not> is_snapshot oc" "\<And>c st. cause_of oc = Some c \<Longrightarrow> get (causes j) c = Some st \<Longrightarrow>
    draw_credit (Some st) \<le> draw_credit (get (causes (reduce_record j \<lparr>roomSeq = n, outcome = oc\<rparr>)) c)"
  shows "draw_credit (get (causes j) c) \<le> draw_credit (get (causes (reduce_record j \<lparr>roomSeq = n, outcome = oc\<rparr>)) c)"
  using assms(2) [of c] other_cause [OF assms(1), of c j n]
  by (cases "get (causes j) c"; cases "cause_of oc = Some c") (auto simp: draw_credit_def [of None])

lemma budget_free:
  assumes "within_budget d" "\<not> is_snapshot oc" "\<And>c st. cause_of oc = Some c \<Longrightarrow> get (causes (memory d)) c = Some st \<Longrightarrow>
    draw_credit (Some st) \<le> draw_credit (get (causes (reduce_record (memory d) \<lparr>roomSeq = n, outcome = oc\<rparr>)) c)"
  shows "within_budget (record_outcome n oc d)"
  by (rule budget_spent [OF assms(1,2)]) (rule le_add1 | simp add: credit_grows [OF assms(2,3)])+

lemma budget_lost: "within_budget d \<Longrightarrow> \<not> got_reply (srv (loop_tried d) cmd) \<Longrightarrow> within_budget ((tried_on srv cmd d)\<lparr>halted := True\<rparr>)"
  by (auto simp: within_budget_def)

lemma budget_command:
  "within_budget d \<Longrightarrow> (\<And>r. within_budget (k r (tried_on srv cmd d))) \<Longrightarrow> within_budget (command_then srv cmd k d)"
  by (rule command_then_keeps) (simp_all add: budget_lost)

lemma budget_routed:
  assumes "within_budget d" "get (causes (memory d)) c = None" "cause_of oc = Some c"
    and "\<not> is_snapshot oc" "\<And>c'. routes_cause c' cmd \<Longrightarrow> c' = c" "\<And>c. \<not> draws_for c cmd" "\<And>p. \<not> settles_plan p cmd"
  shows "within_budget (record_outcome n oc (tried_on srv cmd d))"
proof (rule budget_spent [OF assms(1,4)])
  fix c'
  show "replied (routes_cause c') (tried_on srv cmd d) \<le>
      replied (routes_cause c') d + (if cause_of oc = Some c' \<and> get (causes (memory d)) c' = None then 1 else 0)"
    using assms(2,3) assms(5) [of c'] by auto
  show "draw_credit (get (causes (memory d)) c') \<le> draw_credit (get (causes (reduce_record (memory d) \<lparr>roomSeq = n, outcome = oc\<rparr>)) c')"
    using assms(2,3) by (intro credit_grows [OF assms(4)]) simp
qed (simp_all add: assms(6,7))

lemma budget_drawn:
  assumes "within_budget d" "get (causes (memory d)) c = Some st" "cause_of oc = Some c" "\<not> is_snapshot oc"
    and "draw_credit (Some st) < draw_credit (get (causes (reduce_record (memory d) \<lparr>roomSeq = n, outcome = oc\<rparr>)) c)"
  shows "within_budget (record_outcome n oc (tried_on srv (Open_Session room plan h m c) d))"
proof (rule budget_spent [OF assms(1,4)])
  fix c'
  show "replied (draws_for c') (tried_on srv (Open_Session room plan h m c) d) \<le> replied (draws_for c') d +
      (draw_credit (get (causes (reduce_record (memory d) \<lparr>roomSeq = n, outcome = oc\<rparr>)) c') - draw_credit (get (causes (memory d)) c'))"
    using assms(2,5) by (cases "c' = c") auto
  show "draw_credit (get (causes (memory d)) c') \<le> draw_credit (get (causes (reduce_record (memory d) \<lparr>roomSeq = n, outcome = oc\<rparr>)) c')"
    using assms(2,3,5) by (intro credit_grows [OF assms(4)]) simp
qed simp_all

lemma draw_outcome_credit:
  assumes "get (causes j) c = Some st" "if retry then retryable plan st else cause_step st = PlanRequestedKind"
    and "oc \<in> {Funded_Terminal c plan (if retry then Some True else None), Draw_Refused c plan (if retry then Some True else None),
      Draw_Taken c plan retry}"
  shows "draw_credit (Some st) < draw_credit (get (causes (reduce_record j \<lparr>roomSeq = n, outcome = oc\<rparr>)) c)"
  using assms by (auto simp: reduces upsertCause_def draw_credit_def retryable_def retry_mark_def or_else_def split: if_splits)

lemma budget_take_draw:
  assumes "within_budget d" "get (causes (memory d)) c = Some st" "if retry then retryable plan st else cause_step st = PlanRequestedKind"
  shows "within_budget (takeDraw cfg srv n c plan retry d)"
  unfolding takeDraw_def
proof (rule budget_command [OF assms(1)])
  fix r
  show "within_budget (record_outcome n (case r of
          Nack code message \<Rightarrow>
            if isFundedArmRefusal r then Funded_Terminal c plan (if retry then Some True else None)
            else Draw_Refused c plan (if retry then Some True else None)
        | Ack None \<Rightarrow> Draw_Taken c plan retry | Ack (Some (Draw_Granted x)) \<Rightarrow> Draw_Taken c plan retry
        | Ack (Some (Draw_Denied limit drawn)) \<Rightarrow> Draw_Refused c plan (if retry then Some True else None))
      (tried_on srv (Open_Session (loop_roomId cfg) plan (case harness cfg of None \<Rightarrow> asc ''atrium-loop'' | Some h \<Rightarrow> h)
         (case session_model cfg of None \<Rightarrow> asc ''run-zero'' | Some m \<Rightarrow> m) c) d))"
    by (rule budget_drawn [OF assms(1,2)])
      (auto intro!: draw_outcome_credit [OF assms(2,3)] split: reply.split option.split draw_outcome.split)
qed

lemma budget_settle:
  assumes "within_budget d"
  shows "within_budget (maybeSettlePlan cfg srv n plan d)"
proof -
  have "within_budget (command_then srv (Settle_Plan (loop_roomId cfg) plan) (\<lambda>r. record_outcome n (Plan_Settled plan)) d)"
    if "\<not> closed_plan (memory d) plan"
  proof (rule budget_command [OF assms])
    fix r
    show "within_budget (record_outcome n (Plan_Settled plan) (tried_on srv (Settle_Plan (loop_roomId cfg) plan) d))"
      by (rule budget_spent [OF assms]) (use that in \<open>auto simp: other_cause\<close>)
  qed
  with assms show ?thesis by (auto simp: maybeSettlePlan_def closed_plan_def split: option.split)
qed

lemma budget_routing:
  assumes "within_budget d" "get (causes (memory d)) c = None"
  shows "within_budget (openWork cfg srv n c msg d)" "within_budget (answer cfg srv n c d)" "within_budget (steer cfg srv n c s msg d)"
  unfolding openWork_def answer_def steer_def
  by (rule budget_command [OF assms(1)], rule budget_routed [OF assms]; simp split: reply.split)+

lemma budget_noted:
  assumes "within_budget d"
  shows "within_budget (record_outcome n Advanced d)" "within_budget (record_outcome n (Session_Opened c s plan) d)"
    "within_budget (record_outcome n (Session_Terminal s plan) d)"
    "get (causes (memory d)) c = None \<Longrightarrow> within_budget (record_outcome n (Ignored_Cause c) d)"
  by (rule budget_free [OF assms]; simp add: reduces upsertCause_def draw_credit_def)+

interpretation budget: loop_invariant cfg "\<lambda>d. healthy cfg d \<and> within_budget d" for cfg
proof unfold_locales
  show "healthy cfg (loop_start cfg d) \<and> within_budget (loop_start cfg d)" if "healthy cfg d \<and> within_budget d" for d
    using that start_healthy [of cfg d] by (simp add: within_budget_def replied_def)
  show "healthy cfg (d\<lparr>halted := True\<rparr>) \<and> within_budget (d\<lparr>halted := True\<rparr>)" if "healthy cfg d \<and> within_budget d" for d
    using that by (simp add: within_budget_def)
  show "healthy cfg \<lparr>loop_journal = fresh_journal (loop_roomId cfg) every, loop_tried = [], halted = False\<rparr> \<and>
    within_budget \<lparr>loop_journal = fresh_journal (loop_roomId cfg) every, loop_tried = [], halted = False\<rparr>" for every
    by (simp add: disk.fresh within_budget_def replied_def)
qed (simp_all add: disk.advances disk.ignores disk.opens_work disk.steers disk.answers disk.draws disk.redraws disk.notes_session
    disk.ends_session budget_noted budget_routing budget_settle budget_take_draw)

text \<open>A turn that gets no reply stops the daemon, so each life loses at most one.\<close>

definition unanswered :: "loop_daemon \<Rightarrow> nat" where
  "unanswered d = length (filter (\<lambda>x. \<not> got_reply (snd x)) (loop_tried d))"

definition steady :: "loop_daemon \<Rightarrow> loop_daemon \<Rightarrow> bool" where
  "steady d d' \<longleftrightarrow> unanswered d' + of_bool (halted d) \<le> unanswered d + of_bool (halted d')"

lemma steady_trans: "steady a b \<Longrightarrow> steady b c \<Longrightarrow> steady a c"
  by (simp add: steady_def)

lemma steady_record [simp]: "steady d (record_outcome n oc d)"
  by (simp add: steady_def unanswered_def)

lemma steady_refl [simp]: "steady d d"
  by (simp add: steady_def)

lemma steady_command:
  assumes "\<not> halted d" "\<And>r d'. steady d' (k r d')"
  shows "steady d (command_then srv cmd k d)"
proof (cases "srv (loop_tried d) cmd")
  case (Got_Reply r)
  have "steady d (tried_on srv cmd d)" using Got_Reply by (simp add: steady_def unanswered_def)
  with Got_Reply assms(2) show ?thesis by (auto simp: command_then_def intro: steady_trans)
qed (use assms(1) in \<open>simp_all add: command_then_def steady_def unanswered_def\<close>)

lemma steady_arms:
  assumes "\<not> halted d"
  shows "steady d (openWork cfg srv n c msg d)" "steady d (answer cfg srv n c d)" "steady d (steer cfg srv n c s msg d)"
    "steady d (takeDraw cfg srv n c plan retry d)" "steady d (maybeSettlePlan cfg srv n plan d)"
  using assms by (auto simp: openWork_def answer_def steer_def takeDraw_def maybeSettlePlan_def split: option.split intro!: steady_command)

lemma steady_retries: "steady d (foldl (funding_retry cfg srv n plan) d cs)"
proof (induction cs arbitrary: d)
  case (Cons c cs)
  have "steady d (funding_retry cfg srv n plan d c)" by (simp add: funding_retry_def steady_arms)
  with Cons.IH show ?case by (auto intro: steady_trans)
qed simp

lemma steady_turn: "steady d (safeHandle cfg srv d e)"
proof (cases "halted d")
  case False
  have "steady d (maybeSettlePlan cfg srv n p (record_outcome n oc d))" for n p oc
    using False by (intro steady_trans [OF steady_record steady_arms(5)]) simp
  moreover have "steady d (d\<lparr>halted := True\<rparr>)" by (simp add: steady_def unanswered_def)
  moreover have "steady d (record_outcome n oc (foldl (funding_retry cfg srv n p) d cs))" for n oc p cs
    by (rule steady_trans [OF steady_retries steady_record])
  ultimately show ?thesis using False
    by (simp add: safeHandle_def handleEvent_def Let_def advance_def onMessage_def onPlanOpened_def onSessionOpened_def
        onSessionTerminal_def onFunding_def steady_arms steady_retries split: room_event.split route.split option.split list.split)
qed (simp add: safeHandle_def)

lemma steady_life:
  assumes "healthy cfg d"
  shows "unanswered (loop_life cfg d l) \<le> Suc (unanswered d)"
proof -
  let ?d = "loop_start cfg d"
  have "steady ?d (foldl (safeHandle cfg srv) ?d es)" for srv es
    by (induction es rule: rev_induct) (auto intro: steady_trans steady_turn)
  moreover have "unanswered b \<le> Suc (unanswered a)" if "steady a b" for a b
    using that by (simp add: steady_def of_bool_def split: if_splits)
  ultimately have "unanswered (loop_life cfg d l) \<le> Suc (unanswered ?d)" unfolding loop_life_def Let_def by blast
  then show ?thesis using start_healthy [OF assms] by (simp add: unanswered_def)
qed

lemma unanswered_per_life: "unanswered (loop_run cfg every lives) \<le> length lives"
proof (induction lives rule: rev_induct)
  case (snoc l lives)
  have "unanswered (loop_life cfg (loop_run cfg every lives) l) \<le> Suc (unanswered (loop_run cfg every lives))"
    by (rule steady_life [OF disk.whole_run])
  with snoc show ?case by (simp add: loop_run_def)
qed (simp add: loop_run_def unanswered_def)

section \<open>Plans whose sessions have all ended\<close>

definition idle_plan :: "journal_state \<Rightarrow> jstr \<Rightarrow> bool" where
  "idle_plan j p \<longleftrightarrow> set (children j p) \<noteq> {} \<and> set (children j p) \<subseteq> set (finished j p)"

definition lost_settle :: "loop_config \<Rightarrow> jstr \<Rightarrow> loop_daemon \<Rightarrow> bool" where
  "lost_settle cfg p d \<longleftrightarrow> (Settle_Plan (loop_roomId cfg) p, Not_Sent) \<in> set (loop_tried d) \<or>
     (Settle_Plan (loop_roomId cfg) p, No_Reply) \<in> set (loop_tried d)"

lemma lost_record [simp]: "lost_settle cfg p (record_outcome n oc d) = lost_settle cfg p d"
  by (simp add: lost_settle_def)

definition plans_closed :: "loop_config \<Rightarrow> loop_daemon \<Rightarrow> bool" where
  "plans_closed cfg d \<longleftrightarrow>
     (\<forall>p s. s \<in> set (finished (memory d) p) \<longrightarrow> get (sessions (memory d)) s = Some p) \<and>
     (\<forall>p s. s \<in> set (children (memory d) p) \<longleftrightarrow> get (sessions (memory d)) s = Some p) \<and>
     (\<forall>p. idle_plan (memory d) p \<longrightarrow> closed_plan (memory d) p \<or> lost_settle cfg p d)"

lemma idle_reduced:
  assumes "\<not> is_snapshot oc"
  shows "idle_plan (reduce_record j \<lparr>roomSeq = n, outcome = oc\<rparr>) p \<longleftrightarrow>
    set (children j p) \<union> {s. \<exists>c. oc = Session_Opened c s p} \<noteq> {} \<and>
    set (children j p) \<union> {s. \<exists>c. oc = Session_Opened c s p} \<subseteq> set (finished j p) \<union> {s. oc = Session_Terminal s p}"
  unfolding idle_plan_def reduced_children [OF assms] reduced_finished [OF assms] ..

text \<open>A record other than the two about sessions leaves every plan as it is, or settles it.\<close>

lemma plans_closed_record:
  assumes "plans_closed cfg d" "\<not> is_snapshot oc" "\<And>c s p. oc \<noteq> Session_Opened c s p" "\<And>s p. oc \<noteq> Session_Terminal s p"
  shows "plans_closed cfg (record_outcome n oc d)"
proof -
  have "idle_plan (reduce_record (memory d) \<lparr>roomSeq = n, outcome = oc\<rparr>) p = idle_plan (memory d) p" for p
    unfolding idle_reduced [OF assms(2)] by (simp add: assms(3,4) idle_plan_def)
  moreover have "get (sessions (reduce_record (memory d) \<lparr>roomSeq = n, outcome = oc\<rparr>)) s = get (sessions (memory d)) s" for s
    unfolding reduced_sessions [OF assms(2)] using assms(3,4) by (simp split: outcome.split)
  ultimately show ?thesis using assms(1) unfolding plans_closed_def
    by (auto simp: reduced_finished [OF assms(2)] reduced_children [OF assms(2)] reduced_plans [OF assms(2)] assms(3,4))
qed

lemma plans_closed_sent: "plans_closed cfg d \<Longrightarrow> plans_closed cfg (tried_on srv cmd d)"
  by (auto simp: plans_closed_def lost_settle_def)

lemma plans_closed_halt [simp]: "plans_closed cfg (d\<lparr>halted := b\<rparr>) = plans_closed cfg d"
  by (simp add: plans_closed_def lost_settle_def)

lemma plans_closed_command:
  "plans_closed cfg d \<Longrightarrow> (\<And>r d'. plans_closed cfg d' \<Longrightarrow> plans_closed cfg (k r d')) \<Longrightarrow> plans_closed cfg (command_then srv cmd k d)"
  by (rule command_then_keeps) (simp_all add: plans_closed_sent)

lemma plans_closed_opened:
  assumes "plans_closed cfg d" "get (sessions (memory d)) s = None"
  shows "plans_closed cfg (record_outcome n (Session_Opened c s plan) d)"
proof -
  let ?oc = "Session_Opened c s plan"
  have "s \<notin> set (finished (memory d) p)" for p using assms by (auto simp: plans_closed_def)
  then have "idle_plan (reduce_record (memory d) \<lparr>roomSeq = n, outcome = ?oc\<rparr>) p \<Longrightarrow> idle_plan (memory d) p" for p
    by (auto simp: idle_reduced) (simp add: idle_plan_def)
  then show ?thesis using assms unfolding plans_closed_def
    by (auto simp: reduced_finished reduced_children reduced_plans reduced_sessions)
qed

text \<open>With the exception of one plan; the record that settles it removes the exception.\<close>

definition plans_closed_but :: "loop_config \<Rightarrow> jstr \<Rightarrow> loop_daemon \<Rightarrow> bool" where
  "plans_closed_but cfg plan d \<longleftrightarrow>
     (\<forall>p s. s \<in> set (finished (memory d) p) \<longrightarrow> get (sessions (memory d)) s = Some p) \<and>
     (\<forall>p s. s \<in> set (children (memory d) p) \<longleftrightarrow> get (sessions (memory d)) s = Some p) \<and>
     (\<forall>p. p \<noteq> plan \<longrightarrow> idle_plan (memory d) p \<longrightarrow> closed_plan (memory d) p \<or> lost_settle cfg p d)"

lemma lost_more: "plans_closed_but cfg plan d \<Longrightarrow> plans_closed_but cfg plan (tried_on srv cmd d)"
  by (auto simp: plans_closed_but_def lost_settle_def)

lemma no_exception:
  "plans_closed_but cfg plan d \<Longrightarrow>
    (idle_plan (memory d) plan \<Longrightarrow> closed_plan (memory d) plan \<or> lost_settle cfg plan d) \<Longrightarrow>
    plans_closed cfg d"
  unfolding plans_closed_def plans_closed_but_def by metis

lemma settle_closes:
  assumes "plans_closed_but cfg plan d"
  shows "plans_closed cfg (record_outcome n (Plan_Settled plan) d)"
proof -
  have "idle_plan (reduce_record (memory d) \<lparr>roomSeq = n, outcome = Plan_Settled plan\<rparr>) p = idle_plan (memory d) p" for p
    by (subst idle_reduced) (simp_all add: idle_plan_def)
  with assms have "plans_closed_but cfg plan (record_outcome n (Plan_Settled plan) d)"
    by (simp add: plans_closed_but_def reduced_plans reduced_finished reduced_children reduced_sessions)
  then show ?thesis by (rule no_exception) (simp add: reduced_plans)
qed

lemma plans_closed_ended:
  assumes "plans_closed cfg d" "get (sessions (memory d)) s = Some plan"
  shows "plans_closed cfg (maybeSettlePlan cfg srv n plan (record_outcome n (Session_Terminal s plan) d))"
proof -
  let ?d = "record_outcome n (Session_Terminal s plan) d"
  have same: "get (sessions (memory ?d)) t = get (sessions (memory d)) t" for t using assms(2) by (auto simp: reduced_sessions)
  have fin: "t \<in> set (finished (memory ?d) p) \<Longrightarrow> get (sessions (memory ?d)) t = Some p" for p t
    using assms unfolding same plans_closed_def by (auto simp: reduced_finished)
  have known: "t \<in> set (children (memory ?d) p) \<longleftrightarrow> get (sessions (memory ?d)) t = Some p" for p t
    using assms(1) unfolding same plans_closed_def by (simp add: reduced_children)
  have "idle_plan (memory ?d) p \<Longrightarrow> p \<noteq> plan \<Longrightarrow> idle_plan (memory d) p" for p
    by (simp add: idle_reduced) (simp add: idle_plan_def)
  with fin known assms(1) have but: "plans_closed_but cfg plan ?d" by (simp add: plans_closed_but_def plans_closed_def reduced_plans)
  have "get (plans (memory ?d)) plan \<noteq> None" by (simp add: reduces ensurePlan_def)
  then obtain q where q: "get (plans (memory ?d)) plan = Some q" by blast
  then have views: "children (memory ?d) plan = plan_sessions q" "finished (memory ?d) plan = plan_terminal q"
    "closed_plan (memory ?d) plan = plan_settled q" by (simp_all add: children_def finished_def closed_plan_def)
  show ?thesis
  proof (cases "plan_settled q \<or> plan_sessions q = [] \<or> \<not> list_all (\<lambda>s. s \<in> set (plan_terminal q)) (plan_sessions q)")
    case True
    then have "idle_plan (memory ?d) plan \<longrightarrow> closed_plan (memory ?d) plan" using views by (auto simp: idle_plan_def list_all_iff)
    with but have "plans_closed cfg ?d" by (intro no_exception [OF but]) simp
    with True q show ?thesis by (simp add: maybeSettlePlan_def)
  next
    case False
    let ?cmd = "Settle_Plan (loop_roomId cfg) plan"
    have "maybeSettlePlan cfg srv n plan ?d = command_then srv ?cmd (\<lambda>r. record_outcome n (Plan_Settled plan)) ?d"
      using False q by (simp add: maybeSettlePlan_def)
    moreover have "plans_closed cfg (command_then srv ?cmd (\<lambda>r. record_outcome n (Plan_Settled plan)) ?d)"
    proof (rule command_then_keeps)
      assume "\<not> got_reply (srv (loop_tried ?d) ?cmd)"
      then have "lost_settle cfg plan (tried_on srv ?cmd ?d)" by (cases "srv (loop_tried ?d) ?cmd") (simp_all add: lost_settle_def)
      then have "plans_closed cfg (tried_on srv ?cmd ?d)" using lost_more [OF but] by (intro no_exception [of cfg plan]) simp_all
      then show "plans_closed cfg ((tried_on srv ?cmd ?d)\<lparr>halted := True\<rparr>)" by simp
    next
      fix r
      from lost_more [OF but] show "plans_closed cfg (record_outcome n (Plan_Settled plan) (tried_on srv ?cmd ?d))" by (rule settle_closes)
    qed
    ultimately show ?thesis by simp
  qed
qed

lemma plans_closed_noted:
  assumes "plans_closed cfg d"
  shows "plans_closed cfg (openWork cfg srv n c msg d)" "plans_closed cfg (answer cfg srv n c d)" "plans_closed cfg (steer cfg srv n c s msg d)"
    "plans_closed cfg (takeDraw cfg srv n c plan retry d)"
    "plans_closed cfg (record_outcome n Advanced d)" "plans_closed cfg (record_outcome n (Ignored_Cause c) d)"
  using assms unfolding openWork_def answer_def steer_def takeDraw_def
  by (auto intro!: plans_closed_command plans_closed_record split: reply.splits option.splits draw_outcome.splits if_splits)

interpretation closing: loop_invariant cfg "\<lambda>d. healthy cfg d \<and> plans_closed cfg d" for cfg
proof unfold_locales
  show "healthy cfg (loop_start cfg d) \<and> plans_closed cfg (loop_start cfg d)" if "healthy cfg d \<and> plans_closed cfg d" for d
    using that start_healthy [of cfg d] by (simp add: plans_closed_def lost_settle_def)
  show "healthy cfg \<lparr>loop_journal = fresh_journal (loop_roomId cfg) every, loop_tried = [], halted = False\<rparr> \<and>
    plans_closed cfg \<lparr>loop_journal = fresh_journal (loop_roomId cfg) every, loop_tried = [], halted = False\<rparr>" for every
    by (simp add: disk.fresh plans_closed_def finished_def idle_plan_def children_def)
      (simp add: fresh_journal_def empty_journal_def)
qed (simp_all add: disk.stops disk.advances disk.ignores disk.opens_work disk.steers disk.answers disk.draws disk.redraws disk.notes_session
    disk.ends_session plans_closed_noted plans_closed_opened plans_closed_ended)

section \<open>A plan left open stays open\<close>

text \<open>
  From a state in which a plan is idle and not settled, and as long as no session is added to it: it stays idle and
  unsettled, and no turn comes to \<open>settle_plan\<close> again.
\<close>

definition settle_tries :: "jstr \<Rightarrow> loop_daemon \<Rightarrow> nat" where
  "settle_tries p d = length (filter (\<lambda>x. settles_plan p (fst x)) (loop_tried d))"

definition left_open :: "jstr \<Rightarrow> jstr set \<Rightarrow> nat \<Rightarrow> loop_daemon \<Rightarrow> bool" where
  "left_open p C N d \<longleftrightarrow> (\<forall>s. s \<in> set (children (memory d) p) \<longleftrightarrow> get (sessions (memory d)) s = Some p) \<and>
     C \<subseteq> set (children (memory d) p) \<and>
     (set (children (memory d) p) \<subseteq> C \<longrightarrow> idle_plan (memory d) p \<and> \<not> closed_plan (memory d) p \<and> settle_tries p d = N)"

lemma settle_tries_simps [simp]:
  "settle_tries p (record_outcome n oc d) = settle_tries p d" "settle_tries p (d\<lparr>halted := b\<rparr>) = settle_tries p d"
  "settle_tries p (tried_on srv cmd d) = settle_tries p d + (if settles_plan p cmd then 1 else 0)"
  by (simp_all add: settle_tries_def)

lemma left_open_halt [simp]: "left_open p C N (d\<lparr>halted := b\<rparr>) = left_open p C N d"
  by (simp add: left_open_def)

lemma left_open_tried: "left_open p C N d \<Longrightarrow> \<not> settles_plan p cmd \<Longrightarrow> left_open p C N (tried_on srv cmd d)"
  by (simp add: left_open_def)

lemma left_open_record:
  assumes "left_open p C N d" "\<not> is_snapshot oc" "oc \<noteq> Plan_Settled p"
    and "\<And>c s q. oc = Session_Opened c s q \<Longrightarrow> get (sessions (memory d)) s = None"
    and "\<And>s q. oc = Session_Terminal s q \<Longrightarrow> get (sessions (memory d)) s = Some q \<and> (q = p \<longrightarrow> s \<notin> set (finished (memory d) p))"
  shows "left_open p C N (record_outcome n oc d)"
proof -
  let ?j = "memory d" let ?j' = "memory (record_outcome n oc d)"
  note ch = reduced_children [OF assms(2), of ?j n p] and fin = reduced_finished [OF assms(2), of ?j n p]
  have ses: "s \<in> set (children ?j' p) \<longleftrightarrow> get (sessions ?j') s = Some p" for s
    using assms(1,4,5) unfolding left_open_def by (auto simp: ch reduced_sessions [OF assms(2)] split: outcome.splits if_splits)
  have "oc \<noteq> Session_Terminal s p \<and> (\<forall>c. oc \<noteq> Session_Opened c s p)" if "set (children ?j' p) \<subseteq> C" for s
  proof -
    have "set (children ?j p) \<subseteq> C" using that by (auto simp: ch)
    with assms(1) have i: "idle_plan ?j p" by (simp add: left_open_def)
    have "oc \<noteq> Session_Terminal s p" using i assms(1) assms(5) [of s p] by (auto simp: left_open_def idle_plan_def)
    moreover have "oc \<noteq> Session_Opened c s p" for c using that assms(1) assms(4) [of c s p] by (auto simp: ch left_open_def)
    ultimately show ?thesis by blast
  qed
  then have "set (children ?j' p) \<subseteq> C \<Longrightarrow> set (children ?j' p) = set (children ?j p) \<and> set (finished ?j' p) = set (finished ?j p)"
    by (auto simp: ch fin)
  moreover have "closed_plan ?j' p = closed_plan ?j p" using assms(3) by (simp add: reduced_plans [OF assms(2)])
  moreover have "set (children ?j p) \<subseteq> set (children ?j' p)" by (simp add: ch)
  ultimately show ?thesis using ses assms(1) unfolding left_open_def idle_plan_def settle_tries_simps by (auto dest: subset_trans)
qed

lemma left_open_command:
  assumes "left_open p C N d" "\<not> settles_plan p cmd"
    and "\<And>r d'. left_open p C N d' \<Longrightarrow> memory d' = memory d \<Longrightarrow> left_open p C N (k r d')"
  shows "left_open p C N (command_then srv cmd k d)"
  by (rule command_then_keeps) (use assms left_open_tried [OF assms(1,2)] in simp_all)

lemma left_open_noted:
  assumes "left_open p C N d"
  shows "left_open p C N (openWork cfg srv n c msg d)" "left_open p C N (answer cfg srv n c d)" "left_open p C N (steer cfg srv n c s msg d)"
    "left_open p C N (takeDraw cfg srv n c plan retry d)"
    "left_open p C N (record_outcome n Advanced d)" "left_open p C N (record_outcome n (Ignored_Cause c) d)"
  using assms unfolding openWork_def answer_def steer_def takeDraw_def
  by (auto intro!: left_open_command left_open_record split: reply.splits option.splits draw_outcome.splits if_splits)

lemma left_open_ended:
  assumes "left_open p C N d" "get (sessions (memory d)) s = Some plan" "s \<notin> set (finished (memory d) plan)"
  shows "left_open p C N (maybeSettlePlan cfg srv n plan (record_outcome n (Session_Terminal s plan) d))" (is "left_open p C N (maybeSettlePlan cfg srv n plan ?d)")
proof -
  have d: "left_open p C N ?d" by (rule left_open_record [OF assms(1)]) (use assms(2,3) in auto)
  show ?thesis
  proof (cases "plan = p")
    case True
    have "\<not> set (children (memory d) p) \<subseteq> C" using assms True by (auto simp: left_open_def idle_plan_def)
    moreover have "children (memory (maybeSettlePlan cfg srv n plan ?d)) = children (memory d)"
      by (auto simp: maybeSettlePlan_def command_then_def reduces fun_eq_iff split: option.split delivery.split)
    moreover have "get (sessions (memory (maybeSettlePlan cfg srv n plan ?d))) t = get (sessions (memory d)) t" for t
      using assms(2) by (auto simp: maybeSettlePlan_def command_then_def reduced_sessions split: option.split delivery.split)
    ultimately show ?thesis using assms(1) by (simp add: left_open_def)
  next
    case False
    have "left_open p C N (command_then srv (Settle_Plan (loop_roomId cfg) plan) (\<lambda>r. record_outcome n (Plan_Settled plan)) ?d)"
      using False by (intro left_open_command [OF d] left_open_record) simp_all
    with d show ?thesis by (auto simp: maybeSettlePlan_def split: option.split)
  qed
qed

interpretation stuck: loop_kept cfg "\<lambda>d. healthy cfg d \<and> left_open p C N d" for cfg p C N
proof unfold_locales
  show "healthy cfg (loop_start cfg d) \<and> left_open p C N (loop_start cfg d)" if "healthy cfg d \<and> left_open p C N d" for d
    using that start_healthy [of cfg d] by (simp add: left_open_def settle_tries_def)
  show "healthy cfg (record_outcome n (Session_Opened c s plan) d) \<and> left_open p C N (record_outcome n (Session_Opened c s plan) d)"
    if "healthy cfg d \<and> left_open p C N d" "journal_cursor (memory d) \<le> n" "get (sessions (memory d)) s = None" for d n c s plan
    using that by (auto intro!: left_open_record simp: healthy_record)
qed (simp_all add: disk.stops disk.advances disk.ignores disk.opens_work disk.steers disk.answers disk.draws disk.redraws
    disk.ends_session left_open_noted left_open_ended)

section \<open>Properties\<close>

text \<open>
  C32. What the loop can cost.  Over any number of lives of the process, with any server and any frames, each
  message is routed by at most one answered command, at most two answered draws are taken for it (the second only
  after its plan was funded), and each plan is settled by at most one answered command; and no life leaves more
  than one command without a reply.
\<close>

theorem loop_budget:
  "replied (routes_cause c) (loop_run cfg every lives) \<le> 1 \<and> replied (draws_for c) (loop_run cfg every lives) \<le> 2 \<and>
   replied (settles_plan p) (loop_run cfg every lives) \<le> 1 \<and> unanswered (loop_run cfg every lives) \<le> length lives"
proof -
  have "within_budget (loop_run cfg every lives)" using budget.whole_run by blast
  note b = budgetD [OF this]
  have "draw_credit st \<le> 2" for st by (simp add: draw_credit_def split: option.split)
  with b(2) [of c] b(1) [of c] b(3) [of p] unanswered_per_life [of cfg every lives]
  show ?thesis by (auto intro: order_trans split: if_splits)
qed

text \<open>
  The journal on disk is the daemon's memory.  After any number of lives, opening the journal's file gives
  exactly the state the daemon had, so a restart forgets nothing and finds nothing that did not happen.
\<close>

theorem restart_remembers:
  "open_journal (loop_roomId cfg) (journal_file (loop_journal (loop_run cfg every lives))) =
   Some (journal_state (loop_journal (loop_run cfg every lives)))"
  using disk.whole_run [of cfg every lives] explains_open [of "loop_journal (loop_run cfg every lives)"] by (simp add: healthy_def)

text \<open>
  C34. A plan is settled in the turn in which its last session ends, or it is left open.  In any run, a plan whose
  sessions have all ended and that is not settled is one whose \<open>settle_plan\<close> was cut off before it was sent or got no
  reply; and whatever lives follow, with whatever servers, as long as no further session of the plan is opened it
  stays unsettled and the loop never comes to that command again.
\<close>

theorem unsettled_plan_is_left_open:
  assumes "get (plans (journal_state (loop_journal (loop_run cfg every lives)))) p = Some q"
    and "plan_sessions q \<noteq> []" "set (plan_sessions q) \<subseteq> set (plan_terminal q)" "\<not> plan_settled q"
  shows "((Settle_Plan (loop_roomId cfg) p, Not_Sent) \<in> set (loop_tried (loop_run cfg every lives)) \<or>
      (Settle_Plan (loop_roomId cfg) p, No_Reply) \<in> set (loop_tried (loop_run cfg every lives))) \<and>
    (\<forall>further q'. get (plans (journal_state (loop_journal (loop_run cfg every (lives @ further))))) p = Some q' \<longrightarrow>
      set (plan_sessions q') \<subseteq> set (plan_sessions q) \<longrightarrow>
      \<not> plan_settled q' \<and> settle_tries p (loop_run cfg every (lives @ further)) = settle_tries p (loop_run cfg every lives))"
proof (intro conjI allI impI)
  let ?d = "loop_run cfg every lives"
  have c: "healthy cfg ?d \<and> plans_closed cfg ?d" by (rule closing.whole_run)
  have i: "idle_plan (memory ?d) p" "\<not> closed_plan (memory ?d) p" "children (memory ?d) p = plan_sessions q"
    using assms by (simp_all add: idle_plan_def children_def finished_def closed_plan_def)
  with c show "(Settle_Plan (loop_roomId cfg) p, Not_Sent) \<in> set (loop_tried ?d) \<or> (Settle_Plan (loop_roomId cfg) p, No_Reply) \<in> set (loop_tried ?d)"
    by (auto simp: plans_closed_def lost_settle_def)
  fix further q'
  let ?e = "loop_run cfg every (lives @ further)"
  assume q': "get (plans (memory ?e)) p = Some q'" and s: "set (plan_sessions q') \<subseteq> set (plan_sessions q)"
  have "left_open p (set (children (memory ?d) p)) (settle_tries p ?d) ?d" using c i(1,2) by (simp add: left_open_def plans_closed_def)
  with c i(3) have "left_open p (set (plan_sessions q)) (settle_tries p ?d) (foldl (loop_life cfg) ?d further)"
    using stuck.lives_kept by simp
  then have e: "left_open p (set (plan_sessions q)) (settle_tries p ?d) ?e" by (simp add: loop_run_def)
  have "children (memory ?e) p = plan_sessions q'" "closed_plan (memory ?e) p = plan_settled q'"
    using q' by (simp_all add: children_def closed_plan_def)
  with e s show "\<not> plan_settled q'" "settle_tries p ?e = settle_tries p ?d" by (simp_all add: left_open_def)
qed

text \<open>
  Three lives.  The first opens a plan, draws a session and sees it end, and is cut off before it can send \<open>settle_plan\<close>;
  the others have a server that answers everything, see the end of the session again, and never come to the command.
\<close>

definition sample_config :: loop_config where
  "sample_config = \<lparr>loop_roomId = asc ''r'', loop_userId = asc ''a'', harness = None, session_model = None\<rparr>"

definition room_frames :: "(nat \<times> actor \<times> room_event) list \<Rightarrow> unit client_op list" where
  "room_frames es = concat (map (\<lambda>(n, who, e). [Frame \<lparr>as_known = Some (Event_Frame \<lparr>wire_roomId = asc ''r'', wire_roomSeq = n,
     wire_actor = who, wire_event = e, wire_issues = []\<rparr>), as_type = Some (asc ''event'')\<rparr>, Handler_Done]) es)"

definition answers_all :: loop_server where
  "answers_all tried cmd = Got_Reply (Ack None)"

definition cannot_settle :: loop_server where
  "cannot_settle tried cmd = (case cmd of Settle_Plan room p \<Rightarrow> Not_Sent | _ \<Rightarrow> Got_Reply (Ack None))"

definition sample_lives :: "(loop_server \<times> unit client_op list) list" where
  "sample_lives =
     [(cannot_settle, room_frames [(1, Human (asc ''u''), Message_Posted (asc ''m'') (asc ''do #7'') None),
        (2, Agent (asc ''a''), Plan_Opened (asc ''p'') (asc ''a'') (Some (asc ''m''))),
        (3, Agent (asc ''a''), Session_Was_Opened (asc ''s'') (asc ''p'') (Some (asc ''m''))),
        (4, System, Session_Was_Settled (asc ''s''))])]"

definition later_lives :: "(loop_server \<times> unit client_op list) list" where
  "later_lives =
     [(answers_all, room_frames [(5, System, Other_Event (asc ''draw_refused'')), (6, System, Session_Was_Settled (asc ''s''))]),
      (answers_all, room_frames [(7, System, Session_Failed (asc ''s''))])]"

theorem unsettled_plan_is_left_open_witness:
  "journal_cursor (journal_state (loop_journal (loop_run sample_config 2 (sample_lives @ later_lives)))) = 7 \<and>
   ((Settle_Plan (asc ''r'') (asc ''p''), Not_Sent) \<in> set (loop_tried (loop_run sample_config 2 sample_lives)) \<or>
    (Settle_Plan (asc ''r'') (asc ''p''), No_Reply) \<in> set (loop_tried (loop_run sample_config 2 sample_lives))) \<and>
   settle_tries (asc ''p'') (loop_run sample_config 2 (sample_lives @ later_lives)) = 1"
proof -
  let ?d = "loop_run sample_config 2 sample_lives" let ?e = "loop_run sample_config 2 (sample_lives @ later_lives)"
  let ?q = "\<lparr>plan_cause = asc ''m'', plan_sessions = [asc ''s''], plan_terminal = [asc ''s''], plan_settled = False\<rparr>"
  have q: "get (plans (memory ?d)) (asc ''p'') = Some ?q" and n: "settle_tries (asc ''p'') ?d = 1" by code_simp+
  have e: "journal_cursor (memory ?e) = 7" and q': "get (plans (memory ?e)) (asc ''p'') = Some ?q" by code_simp+
  have u: "plan_sessions ?q \<noteq> []" "set (plan_sessions ?q) \<subseteq> set (plan_terminal ?q)" "\<not> plan_settled ?q" by simp_all
  note left = unsettled_plan_is_left_open [OF q u]
  from conjunct2 [OF left, rule_format, OF q'] n have "settle_tries (asc ''p'') ?e = 1" by simp
  moreover have "loop_roomId sample_config = asc ''r''" by (simp add: sample_config_def)
  ultimately show ?thesis using conjunct1 [OF left] e by (simp only: simp_thms)
qed

end
