(* ===== verification/Realtime.thy ===== *)
theory Realtime
  imports JsData Objects
begin

text \<open>
  The web client's copy of a room: \<open>realtime.ts\<close>.  Frames are what the schema has already read; a page entry that
  it could not read, one with no positive position included, is \<open>None\<close>.  The journal is a record of operations, with the in-memory journal as an instance.
  The notification of listeners is left out, and so are the timers and the jitter of a reconnect, which only decide
  when the next socket opens; the clock and the identifier of a new message are arguments.  A socket is open or it is
  not: the moment between the start of its closing and its close event is not told apart.
\<close>

declare option.pred_inject [code]

section \<open>Entries and frames\<close>

text \<open>An event as far as the client looks into it.\<close>

datatype web_event = Posted "jstr option" | Session_Ended "jstr option" | Plain_Event jstr

datatype room_entry =
    Envelope jstr nat "jstr option" web_event "jstr list"
  | Tombstone jstr nat

fun entry_room :: "room_entry \<Rightarrow> jstr" where
  "entry_room (Envelope r n who ev issues) = r"
| "entry_room (Tombstone r n) = r"

fun entry_seq :: "room_entry \<Rightarrow> nat" where
  "entry_seq (Envelope r n who ev issues) = n"
| "entry_seq (Tombstone r n) = n"

text \<open>A row that took effect: readable, and not refused.\<close>

fun took_effect :: "room_entry \<Rightarrow> bool" where
  "took_effect (Envelope r n who ev issues) = (issues = [])"
| "took_effect (Tombstone r n) = False"

fun ended_session :: "room_entry \<Rightarrow> jstr option" where
  "ended_session (Envelope r n who (Session_Ended s) issues) = s"
| "ended_session e = None"

record progress_frame =
  progress_session :: jstr
  progressSeq :: nat
  progress_body :: json

datatype web_frame =
    Subscribed jstr nat nat "(jstr \<times> nat) list"
  | Unsubscribed jstr
  | Entry_Frame room_entry
  | Room_Head jstr nat
  | Page jstr nat nat nat bool "room_entry option list"
  | Acked jstr "nat option" "jstr list"
  | Nacked jstr jstr jstr
  | Presence jstr jstr jstr
  | Typing jstr jstr bool
  | Progress jstr progress_frame
  | Seen jstr jstr nat
  | Error_Frame jstr
  | Plain_Frame

section \<open>State\<close>

datatype message_kind = Sends "jstr option" | Replies_To jstr

record pending_message =
  clientMessageId :: jstr
  message_body :: jstr
  message_kind :: message_kind
  message_extra :: json
  failed :: bool
  retryable_again :: "bool option"
  pending_seq :: "nat option"

record room_view =
  lastSeq :: nat
  room_head :: nat
  seenSeq :: nat
  room_events :: "room_entry list"
  pending_messages :: "pending_message list"
  presence :: "jstr store"
  typing :: "jstr list"
  subscribed :: bool
  progress :: "progress_frame store"
  settledSessions :: "jstr list"
  progressFloor :: "nat store"

text \<open>
  The journal a client writes through: \<open>load\<close>, \<open>commit\<close> and \<open>reset\<close>.  A journal is a closure, made anew when a page
  is loaded; \<open>page_load\<close> is what the new closure finds of the state of the old one.
\<close>

record 'j room_journal =
  load_room :: "jstr \<Rightarrow> 'j \<Rightarrow> (room_entry list \<times> nat) \<times> 'j"
  commit_entry :: "jstr \<Rightarrow> room_entry \<Rightarrow> nat \<Rightarrow> 'j \<Rightarrow> 'j"
  reset_room :: "jstr \<Rightarrow> 'j \<Rightarrow> 'j"
  page_load :: "'j \<Rightarrow> 'j"

record stall =
  stall_from :: nat
  stall_to :: nat
  stall_interval :: nat
  nextProbeAt :: nat

datatype web_command = Send_Message_Command jstr pending_message | Plain_Command jstr json

datatype web_request =
    Subscribe_Room jstr
  | Unsubscribe_Room jstr
  | Since_Seq jstr nat "nat option"
  | Ack_Head_Seq jstr nat
  | Web_Command jstr web_command

record web_config =
  web_userId :: jstr
  catchUpPageSize :: "nat option"
  maxStalledCatchups :: nat

record 'j web =
  web_journal :: 'j
  web_rooms :: "room_view store"
  inFlight :: "(jstr \<times> jstr) store"
  stalled :: "nat store"
  stalledGap :: "stall store"
  connected :: bool
  web_nextId :: nat
  web_sent :: "web_request list"
  web_errors :: nat

definition empty_web :: "'j \<Rightarrow> 'j web" where
  "empty_web j = \<lparr>web_journal = j, web_rooms = [], inFlight = [], stalled = [], stalledGap = [], connected = False, web_nextId = 0,
     web_sent = [], web_errors = 0\<rparr>"

definition STALL_REPROBE_BASE_MS :: nat where
  "STALL_REPROBE_BASE_MS = 4000"

definition STALL_REPROBE_CAP_MS :: nat where
  "STALL_REPROBE_CAP_MS = 180000"

section \<open>The journal in memory\<close>

type_synonym memory_journal = "(room_entry list \<times> nat) store"

definition memory_load :: "jstr \<Rightarrow> memory_journal \<Rightarrow> (room_entry list \<times> nat) \<times> memory_journal" where
  "memory_load room j = (case get j room of None \<Rightarrow> (([], 0), put room ([], 0) j) | Some r \<Rightarrow> (r, j))"

definition memory_commit :: "jstr \<Rightarrow> room_entry \<Rightarrow> nat \<Rightarrow> memory_journal \<Rightarrow> memory_journal" where
  "memory_commit room e n j = (case memory_load room j of ((es, l), j') \<Rightarrow> put room (es @ [e], max l n) j')"

definition memoryJournal :: "memory_journal room_journal" where
  "memoryJournal = \<lparr>load_room = memory_load, commit_entry = memory_commit, reset_room = del, page_load = (\<lambda>j. [])\<rparr>"

section \<open>The client\<close>

definition resumed_view :: "room_entry list \<Rightarrow> nat \<Rightarrow> room_view" where
  "resumed_view held last_seq = (let es = filter took_effect held in
     \<lparr>lastSeq = last_seq, room_head = last_seq, seenSeq = 0, room_events = es, pending_messages = [], presence = [], typing = [],
      subscribed = False, progress = [], settledSessions = List.map_filter ended_session es, progressFloor = []\<rparr>)"

text \<open>\<open>view\<close>: the room, from the journal when it is not held.\<close>

definition opened :: "'j room_journal \<Rightarrow> jstr \<Rightarrow> 'j web \<Rightarrow> 'j web" where
  "opened J room s = (case get (web_rooms s) room of
     Some v \<Rightarrow> s
   | None \<Rightarrow> (case load_room J room (web_journal s) of
       ((held, l), j) \<Rightarrow> s\<lparr>web_journal := j, web_rooms := put room (resumed_view held l) (web_rooms s)\<rparr>))"

definition room_of :: "'j web \<Rightarrow> jstr \<Rightarrow> room_view" where
  "room_of s room = (case get (web_rooms s) room of Some v \<Rightarrow> v | None \<Rightarrow> resumed_view [] 0)"

definition update_room :: "jstr \<Rightarrow> (room_view \<Rightarrow> room_view) \<Rightarrow> 'j web \<Rightarrow> 'j web" where
  "update_room room f s = s\<lparr>web_rooms := put room (f (room_of s room)) (web_rooms s)\<rparr>"

definition send :: "web_request \<Rightarrow> 'j web \<Rightarrow> 'j web" where
  "send r s = (if connected s then s\<lparr>web_sent := web_sent s @ [r]\<rparr> else s)"

definition report_error :: "'j web \<Rightarrow> 'j web" where
  "report_error s = s\<lparr>web_errors := Suc (web_errors s)\<rparr>"

definition requestSince :: "'j room_journal \<Rightarrow> web_config \<Rightarrow> jstr \<Rightarrow> 'j web \<Rightarrow> 'j web" where
  "requestSince J cfg room s =
     (let s' = opened J room s in send (Since_Seq room (lastSeq (room_of s' room)) (catchUpPageSize cfg)) s')"

definition acknowledgeHead :: "'j room_journal \<Rightarrow> jstr \<Rightarrow> 'j web \<Rightarrow> 'j web" where
  "acknowledgeHead J room s = (let s' = opened J room s in send (Ack_Head_Seq room (lastSeq (room_of s' room))) s')"

fun update_first :: "('a \<Rightarrow> bool) \<Rightarrow> ('a \<Rightarrow> 'a) \<Rightarrow> 'a list \<Rightarrow> 'a list" where
  "update_first P f [] = []"
| "update_first P f (x # xs) = (if P x then f x # xs else x # update_first P f xs)"

definition fail_message :: "bool \<Rightarrow> pending_message \<Rightarrow> pending_message" where
  "fail_message again m = m\<lparr>failed := True, retryable_again := Some again\<rparr>"

definition reconcilePending :: "web_config \<Rightarrow> room_entry \<Rightarrow> room_view \<Rightarrow> room_view" where
  "reconcilePending cfg e v = (case e of
     Envelope r n who (Posted (Some i)) issues \<Rightarrow>
       if who = Some (web_userId cfg) then v\<lparr>pending_messages := filter (\<lambda>m. clientMessageId m \<noteq> i) (pending_messages v)\<rparr> else v
   | _ \<Rightarrow> v)"

text \<open>An event that took effect joins the timeline; the end of a session replaces its preview.\<close>

definition show_entry :: "room_entry \<Rightarrow> room_view \<Rightarrow> room_view" where
  "show_entry e v =
     (let v' = v\<lparr>room_events := room_events v @ [e]\<rparr> in
      case ended_session e of
        None \<Rightarrow> v'
      | Some sid \<Rightarrow> v'\<lparr>settledSessions := settledSessions v @ [sid], progress := del sid (progress v)\<rparr>)"

definition apply_to_view :: "web_config \<Rightarrow> room_entry \<Rightarrow> room_view \<Rightarrow> room_view" where
  "apply_to_view cfg e v = (let n = entry_seq e in case e of
     Tombstone r n' \<Rightarrow> v\<lparr>lastSeq := n, room_head := max (room_head v) n,
       pending_messages := update_first (\<lambda>m. pending_seq m = Some n \<and> \<not> failed m) (fail_message False) (pending_messages v)\<rparr>
   | _ \<Rightarrow> reconcilePending cfg e ((if took_effect e then show_entry e v else v)\<lparr>lastSeq := n, room_head := max (room_head v) n\<rparr>))"

definition applyEntry :: "'j room_journal \<Rightarrow> web_config \<Rightarrow> 'j web \<Rightarrow> room_entry \<Rightarrow> 'j web" where
  "applyEntry J cfg s e =
     (let room = entry_room e; s' = opened J room s; l = lastSeq (room_of s' room) in
      if entry_seq e \<le> l then s'
      else if entry_seq e > Suc l then requestSince J cfg room s'
      else update_room room (apply_to_view cfg e)
        (s'\<lparr>web_journal := commit_entry J room e (entry_seq e) (web_journal s')\<rparr>))"

definition recover_one :: "room_view \<times> nat store \<times> bool \<Rightarrow> jstr \<times> nat \<Rightarrow> room_view \<times> nat store \<times> bool" where
  "recover_one acc snap = (case acc of (v, fl, raised) \<Rightarrow> case snap of (sid, n) \<Rightarrow>
     (let higher = (case get fl sid of None \<Rightarrow> True | Some prior \<Rightarrow> prior < n);
          fl' = (if higher then put sid n fl else fl);
          stale = (case get (progress v) sid of None \<Rightarrow> False | Some p \<Rightarrow> progressSeq p < n)
      in (if stale then v\<lparr>progress := del sid (progress v)\<rparr> else v, fl', raised \<or> higher \<or> stale)))"

definition recovered_view :: "(jstr \<times> nat) list \<Rightarrow> room_view \<Rightarrow> room_view" where
  "recovered_view snaps v = (case foldl recover_one (v, progressFloor v, False) snaps of
     (v', fl, raised) \<Rightarrow> if raised then v'\<lparr>progressFloor := fl\<rparr> else v')"

definition recoverProgress :: "'j room_journal \<Rightarrow> jstr \<Rightarrow> (jstr \<times> nat) list \<Rightarrow> 'j web \<Rightarrow> 'j web" where
  "recoverProgress J room snaps s = (if snaps = [] then s else update_room room (recovered_view snaps) (opened J room s))"

definition discarded :: "room_view \<Rightarrow> room_view" where
  "discarded v = v\<lparr>room_events := [], lastSeq := 0, pending_messages := []\<rparr>"

definition on_subscribed :: "'j room_journal \<Rightarrow> web_config \<Rightarrow> jstr \<Rightarrow> nat \<Rightarrow> nat \<Rightarrow> (jstr \<times> nat) list \<Rightarrow> 'j web \<Rightarrow> 'j web" where
  "on_subscribed J cfg room hd_seq seen snaps s0 =
     (let s = update_room room (\<lambda>v. v\<lparr>subscribed := True\<rparr>) (opened J room s0);
          s1 = (if lastSeq (room_of s room) > hd_seq
            then update_room room discarded
              (report_error (s\<lparr>web_journal := reset_room J room (web_journal s)\<rparr>)) else s);
          s2 = update_room room (\<lambda>v. v\<lparr>room_head := hd_seq, seenSeq := seen\<rparr>) s1
      in requestSince J cfg room (recoverProgress J room snaps s2))"

text \<open>A head that is ahead asks for the gap, unless a stall at this very position was tried too recently.\<close>

definition head_request :: "'j room_journal \<Rightarrow> web_config \<Rightarrow> nat \<Rightarrow> jstr \<Rightarrow> 'j web \<Rightarrow> 'j web" where
  "head_request J cfg now room s = (case get (stalledGap s) room of
     None \<Rightarrow> requestSince J cfg room s
   | Some g \<Rightarrow>
       if stall_from g = lastSeq (room_of s room) then
         if now < nextProbeAt g then s
         else let i = min (stall_interval g * 2) STALL_REPROBE_CAP_MS in
           requestSince J cfg room (s\<lparr>stalledGap := put room (g\<lparr>stall_interval := i, nextProbeAt := now + i\<rparr>) (stalledGap s)\<rparr>)
       else requestSince J cfg room (s\<lparr>stalledGap := del room (stalledGap s)\<rparr>))"

definition on_head :: "'j room_journal \<Rightarrow> web_config \<Rightarrow> nat \<Rightarrow> jstr \<Rightarrow> nat \<Rightarrow> 'j web \<Rightarrow> 'j web" where
  "on_head J cfg now room h s0 =
     (let s = update_room room (\<lambda>v. v\<lparr>room_head := max (room_head v) h\<rparr>) (opened J room s0);
          v = room_of s room
      in acknowledgeHead J room (if lastSeq v < room_head v then head_request J cfg now room s else s))"

definition apply_page :: "'j room_journal \<Rightarrow> web_config \<Rightarrow> room_entry option list \<Rightarrow> 'j web \<Rightarrow> 'j web" where
  "apply_page J cfg es s = foldl (\<lambda>s e. case e of None \<Rightarrow> s | Some e \<Rightarrow> applyEntry J cfg s e) s es"

definition stall_or_ask :: "'j room_journal \<Rightarrow> web_config \<Rightarrow> nat \<Rightarrow> jstr \<Rightarrow> nat \<Rightarrow> 'j web \<Rightarrow> 'j web" where
  "stall_or_ask J cfg now room before s0 =
     (let v = room_of s0 room;
          progressed = before < lastSeq v;
          s = (if progressed then s0\<lparr>stalledGap := del room (stalledGap s0)\<rparr> else s0);
          rounds = (if progressed then 0 else Suc (case get (stalled s) room of None \<Rightarrow> 0 | Some n \<Rightarrow> n));
          s' = s\<lparr>stalled := put room rounds (stalled s)\<rparr>
      in if maxStalledCatchups cfg \<le> rounds then
           if pred_option (\<lambda>g. stall_from g \<noteq> lastSeq v) (get (stalledGap s') room)
           then (report_error s')\<lparr>stalledGap := put room \<lparr>stall_from = lastSeq v, stall_to = room_head v,
             stall_interval = STALL_REPROBE_BASE_MS, nextProbeAt = now + STALL_REPROBE_BASE_MS\<rparr> (stalledGap s')\<rparr>
           else s'
         else requestSince J cfg room s')"

definition on_page :: "'j room_journal \<Rightarrow> web_config \<Rightarrow> nat \<Rightarrow> jstr \<Rightarrow> nat \<Rightarrow> bool \<Rightarrow> room_entry option list \<Rightarrow> 'j web \<Rightarrow> 'j web" where
  "on_page J cfg now room h more_pages es s0 =
     (let s1 = opened J room s0;
          before = lastSeq (room_of s1 room);
          s2 = apply_page J cfg es (update_room room (\<lambda>v. v\<lparr>room_head := max (room_head v) h\<rparr>) s1);
          s = (if None \<in> set es then report_error s2 else s2);
          v = room_of s room
      in if lastSeq v < room_head v \<or> more_pages then stall_or_ask J cfg now room before s
         else acknowledgeHead J room (s\<lparr>stalled := del room (stalled s), stalledGap := del room (stalledGap s)\<rparr>))"

definition on_ack :: "'j room_journal \<Rightarrow> jstr \<Rightarrow> nat option \<Rightarrow> jstr list \<Rightarrow> 'j web \<Rightarrow> 'j web" where
  "on_ack J i n issues s =
     (let s' = s\<lparr>inFlight := del i (inFlight s)\<rparr>;
          s'' = (case (get (inFlight s) i, n) of
            (Some (room, cmid), Some n) \<Rightarrow> update_room room (\<lambda>v. v\<lparr>pending_messages :=
              update_first (\<lambda>m. clientMessageId m = cmid) (\<lambda>m. m\<lparr>pending_seq := Some n\<rparr>) (pending_messages v)\<rparr>) (opened J room s')
          | _ \<Rightarrow> s')
      in if issues \<noteq> [] then report_error s'' else s'')"

definition on_nack :: "'j room_journal \<Rightarrow> jstr \<Rightarrow> jstr \<Rightarrow> 'j web \<Rightarrow> 'j web" where
  "on_nack J i code s =
     (let s' = s\<lparr>inFlight := del i (inFlight s)\<rparr> in
      report_error (case get (inFlight s) i of
        None \<Rightarrow> s'
      | Some (room, cmid) \<Rightarrow> update_room room (\<lambda>v. v\<lparr>pending_messages :=
          update_first (\<lambda>m. clientMessageId m = cmid) (fail_message (code = asc ''retry'')) (pending_messages v)\<rparr>) (opened J room s')))"

definition on_progress :: "progress_frame \<Rightarrow> room_view \<Rightarrow> room_view" where
  "on_progress p v =
     (let sid = progress_session p in
      if sid \<in> set (settledSessions v) then v
      else if (case get (progressFloor v) sid of None \<Rightarrow> False | Some fl \<Rightarrow> progressSeq p \<le> fl) then v
      else v\<lparr>progress := put sid p (progress v), progressFloor := put sid (progressSeq p) (progressFloor v)\<rparr>)"

definition handleFrame :: "'j room_journal \<Rightarrow> web_config \<Rightarrow> nat \<Rightarrow> web_frame \<Rightarrow> 'j web \<Rightarrow> 'j web" where
  "handleFrame J cfg now f s = (case f of
     Subscribed room h seen snaps \<Rightarrow> on_subscribed J cfg room h seen snaps s
   | Unsubscribed room \<Rightarrow> update_room room (\<lambda>v. v\<lparr>subscribed := False\<rparr>) (opened J room s)
   | Entry_Frame e \<Rightarrow> applyEntry J cfg s e
   | Room_Head room h \<Rightarrow> on_head J cfg now room h s
   | Page room from to h more_pages es \<Rightarrow> on_page J cfg now room h more_pages es s
   | Acked i n issues \<Rightarrow> on_ack J i n issues s
   | Nacked i code msg \<Rightarrow> on_nack J i code s
   | Presence room who st \<Rightarrow> update_room room (\<lambda>v. v\<lparr>presence := put who st (presence v)\<rparr>) (opened J room s)
   | Typing room who on \<Rightarrow> update_room room (\<lambda>v. v\<lparr>typing := filter (\<lambda>u. u \<noteq> who) (typing v) @ (if on then [who] else [])\<rparr>) (opened J room s)
   | Progress room p \<Rightarrow> update_room room (on_progress p) (opened J room s)
   | Seen room who n \<Rightarrow> if who \<noteq> web_userId cfg then s else update_room room (\<lambda>v. v\<lparr>seenSeq := n\<rparr>) (opened J room s)
   | Error_Frame msg \<Rightarrow> report_error s
   | Plain_Frame \<Rightarrow> s)"

text \<open>
  \<open>onmessage\<close>: the schema refuses a page with an entry of another room, and an entry whose position is not positive.
\<close>

definition entry_readable :: "room_entry \<Rightarrow> bool" where
  "entry_readable e \<longleftrightarrow> 0 < entry_seq e"

definition frame_readable :: "web_frame \<Rightarrow> bool" where
  "frame_readable f = (case f of
     Entry_Frame e \<Rightarrow> entry_readable e
   | Page room from to h more_pages es \<Rightarrow> list_all (pred_option (\<lambda>e. entry_room e = room)) es
   | _ \<Rightarrow> True)"

definition onmessage :: "'j room_journal \<Rightarrow> web_config \<Rightarrow> nat \<Rightarrow> web_frame \<Rightarrow> 'j web \<Rightarrow> 'j web" where
  "onmessage J cfg now f s = (if frame_readable f then handleFrame J cfg now f s else report_error s)"

section \<open>The socket and the caller\<close>

text \<open>What only the dead socket vouched for.\<close>

definition unanswered_failed :: "'j room_journal \<Rightarrow> 'j web \<Rightarrow> jstr \<times> jstr \<Rightarrow> 'j web" where
  "unanswered_failed J s p = (case p of (room, cmid) \<Rightarrow>
     update_room room (\<lambda>v. v\<lparr>pending_messages := update_first (\<lambda>m. clientMessageId m = cmid)
       (\<lambda>m. if failed m then m else fail_message True m) (pending_messages v)\<rparr>) (opened J room s))"

definition drop_room :: "room_view \<Rightarrow> room_view" where
  "drop_room v = v\<lparr>subscribed := False, presence := [], typing := [], progress := []\<rparr>"

definition dropVolatileState :: "'j room_journal \<Rightarrow> 'j web \<Rightarrow> 'j web" where
  "dropVolatileState J s =
     (let s' = (foldl (unanswered_failed J) s (map snd (inFlight s)))\<lparr>inFlight := []\<rparr>
      in s'\<lparr>web_rooms := map (\<lambda>(room, v). (room, drop_room v)) (web_rooms s'),
           stalled := filter (\<lambda>e. fst e \<notin> set (keys (web_rooms s'))) (stalled s'),
           stalledGap := filter (\<lambda>e. fst e \<notin> set (keys (web_rooms s'))) (stalledGap s')\<rparr>)"

definition socket_open :: "'j web \<Rightarrow> 'j web" where
  "socket_open s = foldl (\<lambda>s room. send (Subscribe_Room room) (update_room room (\<lambda>v. v\<lparr>subscribed := False\<rparr>) s))
     (s\<lparr>connected := True\<rparr>) (keys (web_rooms s))"

definition socket_close :: "'j room_journal \<Rightarrow> 'j web \<Rightarrow> 'j web" where
  "socket_close J s = dropVolatileState J (s\<lparr>connected := False\<rparr>)"

definition command :: "web_command \<Rightarrow> 'j web \<Rightarrow> jstr \<times> 'j web" where
  "command c s = (let n = Suc (web_nextId s); i = asc ''c'' @ decimal (int n) in
     (i, send (Web_Command i c) (s\<lparr>web_nextId := n\<rparr>)))"

text \<open>\<open>sendMessage\<close> and \<open>answerMessage\<close>: the message is shown at once, and its command waits for an answer.\<close>

definition post_message :: "'j room_journal \<Rightarrow> jstr \<Rightarrow> jstr \<Rightarrow> jstr \<Rightarrow> message_kind \<Rightarrow> json \<Rightarrow> 'j web \<Rightarrow> 'j web" where
  "post_message J room cmid msg kind extra s0 =
     (let m = \<lparr>clientMessageId = cmid, message_body = msg, message_kind = kind, message_extra = extra, failed = False,
                retryable_again = None, pending_seq = None\<rparr>;
          s = update_room room (\<lambda>v. v\<lparr>pending_messages := pending_messages v @ [m]\<rparr>) (opened J room s0)
      in case command (Send_Message_Command room m) s of (i, s') \<Rightarrow> s'\<lparr>inFlight := put i (room, cmid) (inFlight s')\<rparr>)"

definition retryMessage :: "'j room_journal \<Rightarrow> jstr \<Rightarrow> jstr \<Rightarrow> 'j web \<Rightarrow> 'j web" where
  "retryMessage J room cmid s0 =
     (let s = opened J room s0; v = room_of s room in
      case List.find (\<lambda>m. clientMessageId m = cmid) (pending_messages v) of
        None \<Rightarrow> s
      | Some m \<Rightarrow>
          if \<not> failed m \<or> retryable_again m \<noteq> Some True \<or> \<not> connected s \<or> \<not> subscribed v then s
          else case command (Send_Message_Command room m) s of (i, s') \<Rightarrow>
            (update_room room (\<lambda>v. v\<lparr>pending_messages := update_first (\<lambda>m. clientMessageId m = cmid)
               (\<lambda>m. m\<lparr>failed := False, retryable_again := None\<rparr>) (pending_messages v)\<rparr>) s')
              \<lparr>inFlight := put i (room, cmid) (inFlight s')\<rparr>)"

definition join_room :: "'j room_journal \<Rightarrow> jstr \<Rightarrow> 'j web \<Rightarrow> 'j web" where
  "join_room J room s = send (Subscribe_Room room) (opened J room s)"

definition leave_room_view :: "jstr \<Rightarrow> 'j web \<Rightarrow> 'j web" where
  "leave_room_view room s = (send (Unsubscribe_Room room) s)\<lparr>web_rooms := del room (web_rooms s),
     stalled := del room (stalled s), stalledGap := del room (stalledGap s)\<rparr>"

text \<open>
  Whatever happens to a client, one thing at a time.  A restart is a new client on the same journal; a reload is a
  new client on the journal a new page makes, with what the old one left outside the page.
\<close>

datatype web_op =
    Receives nat web_frame
  | Socket_Opens
  | Socket_Closes
  | Posts jstr jstr jstr message_kind json
  | Retries jstr jstr
  | Commands jstr json
  | Views jstr
  | Joins jstr
  | Leaves jstr
  | Recovers jstr "(jstr \<times> nat) list"
  | Restarts
  | Reloads

definition web_step :: "'j room_journal \<Rightarrow> web_config \<Rightarrow> 'j web \<Rightarrow> web_op \<Rightarrow> 'j web" where
  "web_step J cfg s x = (case x of
     Receives now f \<Rightarrow> onmessage J cfg now f s
   | Socket_Opens \<Rightarrow> socket_open s
   | Socket_Closes \<Rightarrow> socket_close J s
   | Posts room cmid msg kind extra \<Rightarrow> post_message J room cmid msg kind extra s
   | Retries room cmid \<Rightarrow> retryMessage J room cmid s
   | Commands room c \<Rightarrow> snd (command (Plain_Command room c) s)
   | Views room \<Rightarrow> opened J room s
   | Joins room \<Rightarrow> join_room J room s
   | Leaves room \<Rightarrow> leave_room_view room s
   | Recovers room snaps \<Rightarrow> recoverProgress J room snaps s
   | Restarts \<Rightarrow> empty_web (web_journal s)
   | Reloads \<Rightarrow> empty_web (page_load J (web_journal s)))"

definition web_run :: "'j room_journal \<Rightarrow> web_config \<Rightarrow> 'j \<Rightarrow> web_op list \<Rightarrow> 'j web" where
  "web_run J cfg j xs = foldl (web_step J cfg) (empty_web j) xs"

section \<open>Updates of one view\<close>

lemma opened_has: "\<exists>v. get (web_rooms (opened J room s)) room = Some v"
  by (auto simp: opened_def split: option.split prod.split)

lemma update_get: "get (web_rooms (update_room room f s)) r = (if r = room then Some (f (room_of s room)) else get (web_rooms s) r)"
  by (simp add: update_room_def)

lemma room_of_Some: "get (web_rooms s) room = Some v \<Longrightarrow> room_of s room = v"
  by (simp add: room_of_def)

lemma send_simps [simp]:
  "web_rooms (send r s) = web_rooms s" "web_journal (send r s) = web_journal s"
  by (simp_all add: send_def)

lemma report_simps [simp]:
  "web_rooms (report_error s) = web_rooms s" "web_journal (report_error s) = web_journal s" "web_sent (report_error s) = web_sent s"
  by (simp_all add: report_error_def)

lemma get_map_values: "get (map (\<lambda>(k, v). (k, f v)) m) k = map_option f (get m k)"
  by (simp add: get_def map_of_map)

lemma update_present: "get (web_rooms s) r = Some v \<Longrightarrow> \<exists>v'. get (web_rooms (update_room room f s)) r = Some v'"
  by (simp add: update_get)

text \<open>
  What a run can do to the views and the journal, and nothing else.  Most updates of a view are calm: they leave the
  timeline and the previews alone.
\<close>

definition calm :: "(room_view \<Rightarrow> room_view) \<Rightarrow> bool" where
  "calm f \<longleftrightarrow> (\<forall>v. lastSeq (f v) = lastSeq v \<and> room_events (f v) = room_events v \<and> settledSessions (f v) = settledSessions v \<and>
     progress (f v) = progress v \<and> progressFloor (f v) = progressFloor v)"

fun op_entries_web :: "web_op \<Rightarrow> room_entry list" where
  "op_entries_web (Receives now (Entry_Frame e)) = [e]"
| "op_entries_web (Receives now (Page room from to h m es)) = List.map_filter id es"
| "op_entries_web x = []"

locale web_invariant =
  fixes J :: "'j room_journal" and cfg :: web_config and ok :: "room_entry \<Rightarrow> bool" and I :: "'j web \<Rightarrow> bool"
  assumes restarts: "I s \<Longrightarrow> I (empty_web (web_journal s))"
    and reloads: "I s \<Longrightarrow> I (empty_web (page_load J (web_journal s)))"
    and opens: "I s \<Longrightarrow> I (opened J room s)"
    and elsewhere: "I s \<Longrightarrow> web_journal s' = web_journal s \<Longrightarrow> web_rooms s' = web_rooms s \<Longrightarrow> I s'"
    and updates: "I s \<Longrightarrow> get (web_rooms s) room = Some v \<Longrightarrow>
      calm f \<or> f = on_progress p \<or> f = recovered_view snaps \<Longrightarrow> I (update_room room f s)"
    and applies: "I s \<Longrightarrow> get (web_rooms s) (entry_room e) = Some v \<Longrightarrow> ok e \<Longrightarrow> entry_seq e = Suc (lastSeq v) \<Longrightarrow>
      I (update_room (entry_room e) (apply_to_view cfg e)
        (s\<lparr>web_journal := commit_entry J (entry_room e) e (entry_seq e) (web_journal s)\<rparr>))"
    and discards: "I s \<Longrightarrow> get (web_rooms s) room = Some v \<Longrightarrow>
      I (update_room room discarded (s\<lparr>web_journal := reset_room J room (web_journal s)\<rparr>))"
    and drops: "I s \<Longrightarrow> I (s\<lparr>web_rooms := map (\<lambda>(room, v). (room, drop_room v)) (web_rooms s)\<rparr>)"
    and leaves: "I s \<Longrightarrow> I (s\<lparr>web_rooms := del room (web_rooms s)\<rparr>)"
begin

lemma calmly: "I s \<Longrightarrow> get (web_rooms s) room \<noteq> None \<Longrightarrow> calm f \<Longrightarrow> I (update_room room f s)"
  using updates by blast

lemma opened_calmly: "I s \<Longrightarrow> calm f \<Longrightarrow> I (update_room room f (opened J room s))"
  using opened_has [of J room s] by (auto intro: calmly opens)

lemma sends: "I (send r s) = I s"
  using elsewhere [of s "send r s"] elsewhere [of "send r s" s] by auto

lemma errs: "I (report_error s) = I s"
  using elsewhere [of s "report_error s"] elsewhere [of "report_error s" s] by auto

lemma asks: "I s \<Longrightarrow> I (requestSince J cfg room s)"
  and acks: "I s \<Longrightarrow> I (acknowledgeHead J room s)"
  by (simp_all add: requestSince_def acknowledgeHead_def Let_def sends opens)

lemma entries:
  assumes "I s" "ok e"
  shows "I (applyEntry J cfg s e)"
proof -
  let ?s = "opened J (entry_room e) s"
  obtain v where v: "get (web_rooms ?s) (entry_room e) = Some v" using opened_has by blast
  have o: "I ?s" by (rule opens [OF assms(1)])
  show ?thesis
  proof (cases "entry_seq e = Suc (lastSeq v)")
    case True
    with applies [OF o v assms(2) True] v show ?thesis by (simp add: applyEntry_def Let_def room_of_Some)
  next
    case False
    with o v show ?thesis by (auto simp: applyEntry_def Let_def room_of_Some intro: asks)
  qed
qed

lemma page_entries: "I s \<Longrightarrow> list_all (pred_option ok) es \<Longrightarrow> I (apply_page J cfg es s)"
  unfolding apply_page_def by (induction es arbitrary: s) (auto simp: entries split: option.split)

lemma recovers: "I s \<Longrightarrow> I (recoverProgress J room snaps s)"
  using opened_has [of J room s] by (auto simp: recoverProgress_def intro: updates opens)

lemma subscribes:
  assumes "I s"
  shows "I (on_subscribed J cfg room h seen snaps s)"
proof -
  let ?s = "update_room room (\<lambda>v. v\<lparr>subscribed := True\<rparr>) (opened J room s)"
  have i: "I ?s" using assms by (rule opened_calmly) (simp add: calm_def)
  obtain v where v: "get (web_rooms ?s) room = Some v" by (simp add: update_get)
  let ?r = "update_room room discarded (report_error (?s\<lparr>web_journal := reset_room J room (web_journal ?s)\<rparr>))"
  have "?r = report_error (update_room room discarded (?s\<lparr>web_journal := reset_room J room (web_journal ?s)\<rparr>))"
    by (simp add: update_room_def report_error_def room_of_def)
  then have "I ?r" using discards [OF i v] by (simp add: errs)
  have "I (update_room room (\<lambda>v. v\<lparr>room_head := h, seenSeq := seen\<rparr>) s1)" if "s1 = ?s \<or> s1 = ?r" for s1
    using that i \<open>I ?r\<close> by (intro calmly) (auto simp: calm_def update_get)
  then show ?thesis by (auto simp: on_subscribed_def Let_def intro!: asks recovers)
qed

lemma heads: "I s \<Longrightarrow> I (on_head J cfg now room h s)"
proof -
  assume "I s"
  then have i: "I (update_room room (\<lambda>v. v\<lparr>room_head := max (room_head v) h\<rparr>) (opened J room s))" (is "I ?s")
    by (rule opened_calmly) (simp add: calm_def)
  have "I (?s\<lparr>stalledGap := g\<rparr>)" for g by (rule elsewhere [OF i]) simp_all
  with i have "I (head_request J cfg now room ?s)" by (auto simp: head_request_def Let_def intro!: asks split: option.split)
  with i show ?thesis by (auto simp: on_head_def Let_def intro!: acks)
qed

lemma stall_asks:
  assumes "I s"
  shows "I (stall_or_ask J cfg now room before s)"
proof -
  have "I (s\<lparr>stalledGap := g, stalled := t\<rparr>)" "I (s\<lparr>stalled := t\<rparr>)" "I ((report_error (s\<lparr>stalledGap := g, stalled := t\<rparr>))\<lparr>stalledGap := g'\<rparr>)"
    "I ((report_error (s\<lparr>stalled := t\<rparr>))\<lparr>stalledGap := g'\<rparr>)" for g t g'
    by (rule elsewhere [OF assms]; simp)+
  then show ?thesis by (auto simp: stall_or_ask_def Let_def intro!: asks)
qed

lemma pages:
  assumes "I s" "list_all (pred_option ok) es"
  shows "I (on_page J cfg now room h m es s)"
proof -
  have "I (update_room room (\<lambda>v. v\<lparr>room_head := max (room_head v) h\<rparr>) (opened J room s))"
    using assms(1) by (rule opened_calmly) (simp add: calm_def)
  then have i: "I (apply_page J cfg es (update_room room (\<lambda>v. v\<lparr>room_head := max (room_head v) h\<rparr>) (opened J room s)))" (is "I ?s")
    using assms(2) by (rule page_entries)
  have "I (?s\<lparr>stalled := t, stalledGap := g\<rparr>)" "I ((report_error ?s)\<lparr>stalled := t, stalledGap := g\<rparr>)" for t g
    by (rule elsewhere [OF i]; simp)+
  with i show ?thesis by (auto simp: on_page_def Let_def errs intro!: stall_asks acks)
qed

lemma answers:
  assumes "I s"
  shows "I (on_ack J i n issues s)" "I (on_nack J i code s)"
proof -
  have i: "I (s\<lparr>inFlight := del i (inFlight s)\<rparr>)" (is "I ?s") by (rule elsewhere [OF assms]) simp_all
  have "I (update_room room (\<lambda>v. v\<lparr>pending_messages := f v\<rparr>) (opened J room ?s))" for room f
    by (rule opened_calmly [OF i]) (simp add: calm_def)
  with i show "I (on_ack J i n issues s)" "I (on_nack J i code s)"
    by (auto simp: on_ack_def on_nack_def Let_def errs split: option.split prod.split)
qed

lemma frames:
  assumes "I s" "list_all ok (op_entries_web (Receives now f))"
  shows "I (onmessage J cfg now f s)"
proof (cases f)
  case (Page room lo hi h m es)
  have "list_all (pred_option ok) es" using assms(2) unfolding Page
    by (auto simp: list_all_iff List.map_filter_def pred_option_def split: option.splits)
  with Page assms(1) show ?thesis by (auto simp: onmessage_def handleFrame_def errs intro: pages)
next
  case (Progress room p)
  with assms(1) show ?thesis using opened_has [of J room s]
    by (auto simp: onmessage_def handleFrame_def frame_readable_def intro: updates opens)
qed (use assms in \<open>auto simp: onmessage_def handleFrame_def errs calm_def intro!: subscribes heads entries answers opened_calmly\<close>)

lemma closes:
  assumes "I s"
  shows "I (socket_close J s)"
proof -
  have u: "I (foldl (unanswered_failed J) s ps)" if "I s" for s ps
    using that
  proof (induction ps arbitrary: s)
    case (Cons p ps)
    have "I (unanswered_failed J s p)" using Cons.prems
      by (auto simp: unanswered_failed_def calm_def intro!: opened_calmly split: prod.split)
    with Cons.IH show ?case by simp
  qed simp
  have "I (s\<lparr>connected := False\<rparr>)" by (rule elsewhere [OF assms]) simp_all
  from drops [OF u [OF this, of "map snd (inFlight s)"]] show ?thesis
    unfolding socket_close_def dropVolatileState_def Let_def by (rule elsewhere) simp_all
qed

lemma socket_opens:
  assumes "I s"
  shows "I (socket_open s)"
proof -
  have "I (foldl (\<lambda>s room. send (Subscribe_Room room) (update_room room (\<lambda>v. v\<lparr>subscribed := False\<rparr>) s)) s rs)"
    if "I s" "\<forall>r \<in> set rs. get (web_rooms s) r \<noteq> None" for s rs
    using that
  proof (induction rs arbitrary: s)
    case (Cons r rs)
    then have "I (update_room r (\<lambda>v. v\<lparr>subscribed := False\<rparr>) s)" by (auto simp: calm_def intro: calmly)
    with Cons show ?case by (auto simp: sends update_get)
  qed simp
  from this [of "s\<lparr>connected := True\<rparr>" "keys (web_rooms s)"] elsewhere [OF assms, of "s\<lparr>connected := True\<rparr>"]
  show ?thesis by (simp add: socket_open_def keys_get)
qed

lemma commands: "I (snd (command c s)) = I s"
  using elsewhere [of s "snd (command c s)"] elsewhere [of "snd (command c s)" s] by (auto simp: command_def Let_def)

lemma posts: "I s \<Longrightarrow> I (post_message J room cmid msg kind extra s)"
proof -
  assume "I s"
  then have i: "I (update_room room (\<lambda>v. v\<lparr>pending_messages := pending_messages v @ [m]\<rparr>) (opened J room s))" (is "I (?s m)") for m
    by (rule opened_calmly) (simp add: calm_def)
  show ?thesis unfolding post_message_def Let_def command_def prod.case by (rule elsewhere [OF i]) simp_all
qed

lemma retries: "I s \<Longrightarrow> I (retryMessage J room cmid s)"
proof -
  assume "I s"
  then have o: "I (opened J room s)" by (rule opens)
  obtain v where v: "get (web_rooms (opened J room s)) room = Some v" using opened_has by blast
  have same: "web_rooms (snd (command c s)) = web_rooms s" for c and s :: "'a web" by (simp add: command_def Let_def)
  have i: "I (update_room room (\<lambda>v. v\<lparr>pending_messages := f v\<rparr>) (snd (command c (opened J room s))))" (is "I (?s f c)") for f c
    using o by (intro calmly) (simp_all add: commands same v calm_def)
  have "I ((?s f c)\<lparr>inFlight := g\<rparr>)" for f c g by (rule elsewhere [OF i]) simp_all
  with o show ?thesis by (auto simp: retryMessage_def Let_def case_prod_beta split: option.split)
qed

lemma web_steps: "I s \<Longrightarrow> list_all ok (op_entries_web x) \<Longrightarrow> I (web_step J cfg s x)"
proof (cases x)
  case (Leaves room)
  assume "I s"
  from leaves [OF this] have "I ((send (Unsubscribe_Room room) s)\<lparr>web_rooms := del room (web_rooms s), stalled := t, stalledGap := g\<rparr>)" for t g
    by (rule elsewhere) simp_all
  with Leaves show ?thesis by (simp add: web_step_def leave_room_view_def)
qed (simp_all add: web_step_def frames socket_opens closes posts retries commands join_room_def sends opens recovers restarts reloads)

lemma every_state:
  assumes "I (empty_web j)" "list_all ok (concat (map op_entries_web xs))"
  shows "I (web_run J cfg j xs)"
  using assms(2) unfolding web_run_def
  by (induction xs rule: rev_induct) (simp_all add: assms(1) web_steps)

end

text \<open>A predicate of single views is such an invariant when a resumed view has it and every change of a view keeps it.\<close>

locale view_invariant =
  fixes P :: "room_view \<Rightarrow> bool"
  assumes resumed: "P (resumed_view held l)"
    and still: "P v \<Longrightarrow> calm f \<Longrightarrow> P (f v)"
    and shown: "P v \<Longrightarrow> P (show_entry e v)"
    and counted: "P v \<Longrightarrow> P (v\<lparr>lastSeq := n\<rparr>)"
    and emptied: "P v \<Longrightarrow> P (v\<lparr>room_events := []\<rparr>)"
    and previewed: "P v \<Longrightarrow> P (on_progress p v)"
    and dropped: "P v \<Longrightarrow> P (v\<lparr>progress := []\<rparr>)"
    and recovered: "P v \<Longrightarrow> P (recovered_view snaps v)"
begin

definition all_views :: "'j web \<Rightarrow> bool" where
  "all_views s \<longleftrightarrow> (\<forall>room v. get (web_rooms s) room = Some v \<longrightarrow> P v)"

lemma one_view: "all_views s \<Longrightarrow> P (f (room_of s room)) \<Longrightarrow> all_views (update_room room f s)"
  by (auto simp: all_views_def update_get)

lemma held_view: "all_views s \<Longrightarrow> P (room_of s room)"
  by (auto simp: all_views_def room_of_def resumed split: option.split)

lemma applied: "P v \<Longrightarrow> P (apply_to_view cfg e v)"
proof -
  have c: "calm (reconcilePending cfg e)" for e
    by (auto simp: calm_def reconcilePending_def split: room_entry.split web_event.split option.split)
  have h: "calm (\<lambda>v. v\<lparr>room_head := h\<rparr>)" "calm (\<lambda>v. v\<lparr>room_head := h, pending_messages := ms\<rparr>)" for h ms by (simp_all add: calm_def)
  assume "P v"
  then show ?thesis
    by (auto simp: apply_to_view_def Let_def intro!: still [OF _ c] still [OF _ h(1)] still [OF _ h(2)] shown counted split: room_entry.split)
qed

lemma discarded_kept: "P v \<Longrightarrow> P (discarded v)"
proof -
  have "calm (\<lambda>v. v\<lparr>pending_messages := []\<rparr>)" by (simp add: calm_def)
  assume "P v"
  then have "P (v\<lparr>room_events := [], lastSeq := 0\<rparr>)" by (intro counted emptied)
  from still [OF this \<open>calm _\<close>] show ?thesis by (simp add: discarded_def)
qed

lemma dropped_kept: "P v \<Longrightarrow> P (drop_room v)"
proof -
  have "calm (\<lambda>v. v\<lparr>subscribed := False, presence := [], typing := []\<rparr>)" by (simp add: calm_def)
  assume "P v"
  from dropped [OF still [OF this \<open>calm _\<close>]] show ?thesis by (simp add: drop_room_def)
qed

end

sublocale view_invariant \<subseteq> web_invariant J cfg "\<lambda>e. True" all_views
proof unfold_locales
  show "all_views (opened J room s)" if "all_views s" for room s
    using that by (auto simp: all_views_def opened_def resumed split: option.splits prod.splits)
  show "all_views (update_room room f s)" if "all_views s" "calm f \<or> f = on_progress p \<or> f = recovered_view snaps" for room f p snaps s
  proof (rule one_view [OF that(1)])
    show "P (f (room_of s room))" using that(2) held_view [OF that(1), of room] still previewed recovered by blast
  qed
  show "all_views (update_room (entry_room e) (apply_to_view cfg e)
      (s\<lparr>web_journal := commit_entry J (entry_room e) e (entry_seq e) (web_journal s)\<rparr>))" if "all_views s" for e s
    using that held_view [OF that, of "entry_room e"] by (intro one_view) (simp_all add: all_views_def room_of_def applied)
  show "all_views (update_room room discarded (s\<lparr>web_journal := reset_room J room (web_journal s)\<rparr>))" if "all_views s" for room s
    using that held_view [OF that, of room] by (intro one_view) (simp_all add: all_views_def room_of_def discarded_kept)
  show "all_views (s\<lparr>web_rooms := map (\<lambda>(room, v). (room, drop_room v)) (web_rooms s)\<rparr>)" if "all_views s" for s
    using that by (auto simp: all_views_def get_map_values dropped_kept)
qed (auto simp: all_views_def empty_web_def)

section \<open>Previews\<close>

text \<open>
  A session that ended has no preview, and every session that ended in the timeline is known to have ended; the
  floor of a session is the position of its preview.
\<close>

definition walled :: "room_view \<Rightarrow> bool" where
  "walled v \<longleftrightarrow> set (List.map_filter ended_session (room_events v)) \<subseteq> set (settledSessions v) \<and>
     (\<forall>s \<in> set (settledSessions v). get (progress v) s = None)"

definition floored :: "room_view \<Rightarrow> bool" where
  "floored v \<longleftrightarrow> (\<forall>s p. get (progress v) s = Some p \<longrightarrow> progress_session p = s \<and> get (progressFloor v) s = Some (progressSeq p))"

lemma recover_less:
  "foldl recover_one (v, fl, r) snaps = (v', fl', r') \<Longrightarrow>
    \<exists>pr. v' = v\<lparr>progress := pr\<rparr> \<and> (\<forall>s. get (progress v) s = None \<longrightarrow> get pr s = None)"
proof (induction snaps arbitrary: v fl r)
  case Nil
  then show ?case by (intro exI [of _ "progress v"]) simp
next
  case (Cons snap snaps)
  obtain v1 fl1 r1 where one: "recover_one (v, fl, r) snap = (v1, fl1, r1)" by (metis prod_cases3)
  then have "\<exists>pr. v1 = v\<lparr>progress := pr\<rparr> \<and> (\<forall>s. get (progress v) s = None \<longrightarrow> get pr s = None)"
    by (auto simp: recover_one_def Let_def split: prod.splits if_splits option.splits
        intro: exI [of _ "progress v"] exI [of _ "del s (progress v)" for s])
  moreover have "foldl recover_one (v1, fl1, r1) snaps = (v', fl', r')" using Cons.prems one by simp
  from Cons.IH [OF this] obtain pr where "v' = v1\<lparr>progress := pr\<rparr>" "\<forall>s. get (progress v1) s = None \<longrightarrow> get pr s = None" by blast
  ultimately show ?case by (intro exI [of _ pr]) auto
qed

lemma walled_cong:
  "room_events v' = room_events v \<Longrightarrow> settledSessions v' = settledSessions v \<Longrightarrow>
    (\<And>s. get (progress v) s = None \<Longrightarrow> get (progress v') s = None) \<Longrightarrow> walled v \<Longrightarrow> walled v'"
  by (auto simp: walled_def)

lemma map_filter_snoc: "List.map_filter f (xs @ [x]) = List.map_filter f xs @ (case f x of None \<Rightarrow> [] | Some y \<Rightarrow> [y])"
  by (simp add: List.map_filter_def split: option.split)

interpretation wall: view_invariant walled
proof unfold_locales
  show "walled (resumed_view held l)" for held l by (simp add: walled_def resumed_view_def Let_def)
  show "walled v \<Longrightarrow> walled (show_entry e v)" for v e
    by (auto simp: walled_def show_entry_def Let_def map_filter_snoc split: option.split)
  show "walled v \<Longrightarrow> walled (on_progress p v)" for v p by (auto simp: walled_def on_progress_def Let_def)
  show "walled v \<Longrightarrow> walled (recovered_view snaps v)" for v snaps
    by (auto simp: recovered_view_def elim!: walled_cong [rotated -1] dest!: recover_less split: prod.split)
qed (auto simp: walled_def calm_def List.map_filter_def)

lemma recover_floor:
  assumes "foldl recover_one (v, fl, r) snaps = (v', fl', r')"
    and "\<forall>s p. get (progress v) s = Some p \<longrightarrow> progress_session p = s \<and> get fl s = Some (progressSeq p)"
  shows "\<forall>s p. get (progress v') s = Some p \<longrightarrow> progress_session p = s \<and> get fl' s = Some (progressSeq p)"
  using assms
proof (induction snaps arbitrary: v fl r)
  case (Cons snap snaps)
  obtain v1 fl1 r1 where one: "recover_one (v, fl, r) snap = (v1, fl1, r1)" by (metis prod_cases3)
  have "\<forall>s p. get (progress v1) s = Some p \<longrightarrow> progress_session p = s \<and> get fl1 s = Some (progressSeq p)"
    using one Cons.prems(2) by (auto simp: recover_one_def Let_def split: prod.splits if_splits option.splits)
  moreover have "foldl recover_one (v1, fl1, r1) snaps = (v', fl', r')" using Cons.prems one by simp
  ultimately show ?case using Cons.IH by blast
qed simp

lemma recover_quiet:
  "foldl recover_one (v, fl, r) snaps = (v', fl', r') \<Longrightarrow> (r \<longrightarrow> r') \<and> (\<not> r' \<longrightarrow> v' = v \<and> fl' = fl)"
proof (induction snaps arbitrary: v fl r)
  case (Cons snap snaps)
  obtain v1 fl1 r1 where one: "recover_one (v, fl, r) snap = (v1, fl1, r1)" by (metis prod_cases3)
  have "foldl recover_one (v1, fl1, r1) snaps = (v', fl', r')" using Cons.prems one by simp
  note ih = Cons.IH [OF this]
  moreover have "(r \<longrightarrow> r1) \<and> (\<not> r1 \<longrightarrow> v1 = v \<and> fl1 = fl)"
    using one by (auto simp: recover_one_def Let_def split: prod.splits if_splits option.splits)
  ultimately show ?case by auto
qed simp

interpretation floor: view_invariant floored
proof unfold_locales
  show "floored v \<Longrightarrow> floored (show_entry e v)" for v e
    by (auto simp: floored_def show_entry_def Let_def split: option.split)
  show "floored v \<Longrightarrow> floored (on_progress p v)" for v p by (auto simp: floored_def on_progress_def Let_def)
  show "floored (recovered_view snaps v)" if v: "floored v" for v snaps
  proof -
    obtain v' fl raised where r: "foldl recover_one (v, progressFloor v, False) snaps = (v', fl, raised)" by (metis prod_cases3)
    have "\<forall>s p. get (progress v') s = Some p \<longrightarrow> progress_session p = s \<and> get fl s = Some (progressSeq p)"
      by (rule recover_floor [OF r]) (use v in \<open>simp add: floored_def\<close>)
    moreover have "\<not> raised \<longrightarrow> v' = v" using recover_quiet [OF r] by simp
    ultimately show ?thesis using v by (simp add: floored_def recovered_view_def r)
  qed
qed (auto simp: floored_def calm_def resumed_view_def Let_def)

end
