(* ===== verification/Web_Journal.thy ===== *)
theory Web_Journal
  imports Realtime
begin

text \<open>
  The journals of the web client: \<open>localStorageJournal\<close> of \<open>realtime.ts\<close>, the interface that the client relies on as
  the locale \<open>room_store\<close>, and its interpretations on both journals.  The browser's store is a parameter: whether
  there is one, whether it lets itself be read and cleared, and what it accepts, given all it holds.  A value in the
  store is what the schemas of entries and cursors read from its text, or nothing.  The report of a degradation is
  counted; its words are left out.
\<close>

section \<open>Local storage\<close>

type_synonym stored_record = "room_entry list \<times> nat"

type_synonym web_disk = "stored_record option store"

record browser =
  has_store :: bool
  can_read :: "web_disk \<Rightarrow> jstr \<Rightarrow> bool"
  can_write :: "web_disk \<Rightarrow> jstr \<Rightarrow> stored_record \<Rightarrow> bool"
  can_remove :: "web_disk \<Rightarrow> jstr \<Rightarrow> bool"

record local_journal =
  disk :: web_disk
  degraded :: "jstr list"
  fallback :: memory_journal
  degradations :: nat

fun increasing :: "nat list \<Rightarrow> bool" where
  "increasing (x # y # zs) = (x < y \<and> increasing (y # zs))"
| "increasing xs = True"

definition StoredRoom :: "stored_record \<Rightarrow> bool" where
  "StoredRoom r = (case r of (es, l) \<Rightarrow> increasing (map entry_seq es) \<and> l = (if es = [] then 0 else entry_seq (last es)))"

definition trim_record :: "nat \<Rightarrow> room_entry list \<Rightarrow> room_entry list" where
  "trim_record maxEvents es = (if length es \<le> maxEvents then es else drop (length es - maxEvents) es)"

definition memory_held :: "jstr \<Rightarrow> memory_journal \<Rightarrow> stored_record" where
  "memory_held room m = fst (memory_load room m)"

definition degrade :: "jstr \<Rightarrow> stored_record \<Rightarrow> local_journal \<Rightarrow> local_journal" where
  "degrade room held j =
     (if room \<in> set (degraded j) then j
      else j\<lparr>degraded := room # degraded j,
        fallback := foldl (\<lambda>m e. memory_commit room e (entry_seq e) m) (fallback j) (fst held),
        degradations := Suc (degradations j)\<rparr>)"

definition read_record :: "web_disk \<Rightarrow> jstr \<Rightarrow> stored_record" where
  "read_record d room = (case get d room of
     Some (Some (es, l)) \<Rightarrow> if StoredRoom (es, l) \<and> list_all (\<lambda>e. entry_room e = room) es then (es, l) else ([], 0)
   | _ \<Rightarrow> ([], 0))"

definition readDurable :: "browser \<Rightarrow> jstr \<Rightarrow> local_journal \<Rightarrow> stored_record \<times> local_journal" where
  "readDurable B room j =
     (if \<not> has_store B \<or> \<not> can_read B (disk j) room
      then let j' = degrade room (memory_held room (fallback j)) j in (memory_held room (fallback j'), j')
      else (read_record (disk j) room, j))"

definition readRoom :: "browser \<Rightarrow> jstr \<Rightarrow> local_journal \<Rightarrow> stored_record \<times> local_journal" where
  "readRoom B room j = (if room \<in> set (degraded j) then (memory_held room (fallback j), j) else readDurable B room j)"

text \<open>The loop around \<open>setItem\<close>: the older half is given up until the rest fits.\<close>

function shrink_until :: "(room_entry list \<Rightarrow> bool) \<Rightarrow> room_entry list \<Rightarrow> room_entry list option" where
  "shrink_until fits kept =
     (if fits kept then Some kept
      else if 1 < length kept then shrink_until fits (drop ((length kept + 1) div 2) kept)
      else None)"
  by pat_completeness auto
termination by (relation "measure (\<lambda>(fits, kept). length kept)") auto

declare shrink_until.simps [simp del]

definition fallback_commit :: "jstr \<Rightarrow> room_entry \<Rightarrow> nat \<Rightarrow> local_journal \<Rightarrow> local_journal" where
  "fallback_commit room e n j = j\<lparr>fallback := memory_commit room e n (fallback j)\<rparr>"

definition local_commit :: "browser \<Rightarrow> nat \<Rightarrow> jstr \<Rightarrow> room_entry \<Rightarrow> nat \<Rightarrow> local_journal \<Rightarrow> local_journal" where
  "local_commit B maxEvents room e n j =
     (if \<not> has_store B then fallback_commit room e n (degrade room (memory_held room (fallback j)) j)
      else if room \<in> set (degraded j) then fallback_commit room e n j
      else case readDurable B room j of (current, j') \<Rightarrow>
        if room \<in> set (degraded j') then fallback_commit room e n j'
        else let es = fst current @ [e] in
          case shrink_until (\<lambda>kept. can_write B (disk j') room (kept, n)) (trim_record maxEvents es) of
            Some kept \<Rightarrow> j'\<lparr>disk := put room (Some (kept, n)) (disk j')\<rparr>
          | None \<Rightarrow> degrade room (es, n) j')"

definition local_reset :: "browser \<Rightarrow> jstr \<Rightarrow> local_journal \<Rightarrow> local_journal" where
  "local_reset B room j0 =
     (let j = j0\<lparr>fallback := del room (fallback j0)\<rparr> in
      if \<not> has_store B then j
      else if can_remove B (disk j) room then j\<lparr>disk := del room (disk j)\<rparr>
      else if can_write B (disk j) room ([], 0) then j\<lparr>disk := put room (Some ([], 0)) (disk j)\<rparr>
      else degrade room ([], 0) j)"

text \<open>What a page finds when it is loaded: the store, and a closure with nothing degraded.\<close>

definition fresh_local :: "web_disk \<Rightarrow> local_journal" where
  "fresh_local d = \<lparr>disk = d, degraded = [], fallback = [], degradations = 0\<rparr>"

definition localStorageJournal :: "browser \<Rightarrow> nat \<Rightarrow> local_journal room_journal" where
  "localStorageJournal B maxEvents =
     \<lparr>load_room = readRoom B, commit_entry = local_commit B (max 1 maxEvents), reset_room = local_reset B,
      page_load = (\<lambda>j. fresh_local (disk j))\<rparr>"

section \<open>The contract of a journal\<close>

text \<open>
  What the client relies on: a load returns what is held and changes nothing, a commit of the next position adds the
  entry at the end and may give up older ones, and a reset forgets the room.  \<open>whole\<close> says that nothing is given up.
  What a page load would find is \<open>kept\<close>: it is left as it was, or brought in step with what is held.
\<close>

locale room_store =
  fixes J :: "'j room_journal" and good :: "'j \<Rightarrow> bool" and holds kept :: "'j \<Rightarrow> jstr \<Rightarrow> stored_record" and whole :: bool
  assumes load_law: "good j \<Longrightarrow> \<exists>j'. load_room J room j = (holds j room, j') \<and> good j' \<and> holds j' = holds j \<and> kept j' = kept j"
    and commit_law: "good j \<Longrightarrow> snd (holds j room) = l \<Longrightarrow> entry_room e = room \<Longrightarrow> entry_seq e = Suc l \<Longrightarrow>
      good (commit_entry J room e (Suc l) j) \<and>
      (\<exists>k. (whole \<longrightarrow> k = 0) \<and> holds (commit_entry J room e (Suc l) j) = (holds j)(room := (drop k (fst (holds j room) @ [e]), Suc l))) \<and>
      kept (commit_entry J room e (Suc l) j) \<in> {kept j, (kept j)(room := holds (commit_entry J room e (Suc l) j) room)}"
    and reset_law: "good j \<Longrightarrow> good (reset_room J room j) \<and> holds (reset_room J room j) = (holds j)(room := ([], 0)) \<and>
      kept (reset_room J room j) \<in> {kept j, (kept j)(room := ([], 0))}"
    and page_law: "good j \<Longrightarrow> good (page_load J j) \<and> holds (page_load J j) = kept j \<and> kept (page_load J j) = kept j"

lemma held_put: "memory_held r (put room x m) = (if r = room then x else memory_held r m)"
  by (simp add: memory_held_def memory_load_def split: option.split)

lemma held_del: "memory_held r (del room m) = (if r = room then ([], 0) else memory_held r m)"
  by (simp add: memory_held_def memory_load_def split: option.split)

lemma held_commit: "memory_held r (memory_commit room e n m) =
    (if r = room then (fst (memory_held room m) @ [e], max (snd (memory_held room m)) n) else memory_held r m)"
  by (auto simp: memory_commit_def memory_held_def memory_load_def split: option.split prod.split)

interpretation memory_store: room_store memoryJournal "\<lambda>j. True" "\<lambda>j r. memory_held r j" "\<lambda>j r. ([], 0)" True
proof unfold_locales
  fix j :: memory_journal and room l e
  show "\<exists>j'. load_room memoryJournal room j = (memory_held room j, j') \<and> True \<and> (\<lambda>r. memory_held r j') = (\<lambda>r. memory_held r j) \<and>
      (\<lambda>r :: jstr. ([] :: room_entry list, 0 :: nat)) = (\<lambda>r. ([], 0))"
    by (auto simp: memoryJournal_def memory_held_def memory_load_def fun_eq_iff split: option.split)
  assume "snd (memory_held room j) = l"
  then show "True \<and> (\<exists>k. (True \<longrightarrow> k = 0) \<and> (\<lambda>r. memory_held r (commit_entry memoryJournal room e (Suc l) j)) =
      (\<lambda>r. memory_held r j)(room := (drop k (fst (memory_held room j) @ [e]), Suc l))) \<and>
      (\<lambda>r. ([], 0)) \<in> {\<lambda>r. ([], 0), (\<lambda>r. ([], 0))(room := memory_held room (commit_entry memoryJournal room e (Suc l) j))}"
    by (auto simp: memoryJournal_def held_commit fun_eq_iff)
next
  fix j :: memory_journal and room
  show "True \<and> (\<lambda>r. memory_held r (reset_room memoryJournal room j)) = (\<lambda>r. memory_held r j)(room := ([], 0)) \<and>
      (\<lambda>r. ([], 0)) \<in> {\<lambda>r. ([], 0), (\<lambda>r. ([], 0))(room := ([] :: room_entry list, 0 :: nat))}"
    by (auto simp: memoryJournal_def held_del fun_eq_iff)
qed (simp_all add: memoryJournal_def memory_held_def memory_load_def)

section \<open>Local storage keeps the contract\<close>

lemma increasing_sorted: "increasing xs = sorted_wrt (<) xs"
  by (induction xs rule: increasing.induct) (auto intro: less_trans)

definition valid_record :: "jstr \<Rightarrow> stored_record \<Rightarrow> bool" where
  "valid_record room r \<longleftrightarrow> StoredRoom r \<and> list_all (\<lambda>e. entry_room e = room) (fst r)"

text \<open>Whatever is on the disk, what is read from it is a history of the room.\<close>

lemma read_valid: "valid_record room (read_record d room)"
  by (auto simp: read_record_def valid_record_def StoredRoom_def split: option.split)

lemma read_put: "read_record (put room (Some r) d) room' =
    (if room' = room then if valid_record room r then r else ([], 0) else read_record d room')"
  by (auto simp: read_record_def valid_record_def split: prod.split)

lemma read_del: "read_record (del room d) room' = (if room' = room then ([], 0) else read_record d room')"
  by (simp add: read_record_def)

lemma valid_snoc:
  assumes "valid_record room (es, l)" "entry_room e = room" "entry_seq e = Suc l"
  shows "valid_record room (es @ [e], Suc l)"
  using assms by (cases es rule: rev_cases) (auto simp: valid_record_def StoredRoom_def increasing_sorted sorted_wrt_append)

lemma valid_drop: "valid_record room (es, l) \<Longrightarrow> k < length es \<Longrightarrow> valid_record room (drop k es, l)"
  by (auto simp: valid_record_def StoredRoom_def increasing_sorted drop_map [symmetric] sorted_wrt_drop list_all_iff
      dest: in_set_dropD)

lemma shrink_drop:
  "kept \<noteq> [] \<Longrightarrow> shrink_until fits kept = Some kept' \<Longrightarrow> \<exists>k < length kept. kept' = drop k kept \<and> fits kept'"
proof (induction fits kept rule: shrink_until.induct)
  case (1 fits kept)
  show ?case
  proof (cases "fits kept")
    case True
    with 1(2,3) show ?thesis by (intro exI [of _ 0]) (simp add: shrink_until.simps [of fits kept])
  next
    case False
    let ?h = "(length kept + 1) div 2"
    have long: "1 < length kept" using False 1(3) by (subst (asm) shrink_until.simps) (auto split: if_splits)
    then have "drop ?h kept \<noteq> []" by auto
    moreover have "shrink_until fits (drop ?h kept) = Some kept'" using False long 1(3) by (subst (asm) shrink_until.simps) simp
    ultimately obtain k where "k < length (drop ?h kept)" "kept' = drop k (drop ?h kept)" "fits kept'"
      using 1(1) [OF False long] by blast
    then show ?thesis by (intro exI [of _ "k + ?h"]) auto
  qed
qed

lemma trim_drop: "1 \<le> n \<Longrightarrow> es \<noteq> [] \<Longrightarrow> \<exists>k < length es. trim_record n es = drop k es"
  by (auto simp: trim_record_def intro: exI [of _ 0] exI [of _ "length es - n"])

lemma held_commits:
  "memory_held r (foldl (\<lambda>m e. memory_commit room e (entry_seq e) m) m es) =
     (if r = room then (fst (memory_held room m) @ es, foldl max (snd (memory_held room m)) (map entry_seq es)) else memory_held r m)"
  by (induction es arbitrary: m) (auto simp: held_commit)

lemma valid_max: "valid_record room (es, l) \<Longrightarrow> foldl max 0 (map entry_seq es) = l"
proof (induction es arbitrary: l rule: rev_induct)
  case (snoc e es)
  have "valid_record room (es, if es = [] then 0 else entry_seq (last es))"
    using snoc.prems by (auto simp: valid_record_def StoredRoom_def increasing_sorted sorted_wrt_append)
  note ih = snoc.IH [OF this]
  have "(if es = [] then 0 else entry_seq (last es)) \<le> entry_seq e"
    using snoc.prems by (auto simp: valid_record_def StoredRoom_def increasing_sorted sorted_wrt_append intro: less_imp_le)
  with ih snoc.prems show ?case by (simp add: valid_record_def StoredRoom_def)
qed (simp add: valid_record_def StoredRoom_def)

text \<open>A store that can always be read, and takes and gives up what it likes.\<close>

definition quota_browser :: "(web_disk \<Rightarrow> jstr \<Rightarrow> stored_record \<Rightarrow> bool) \<Rightarrow> (web_disk \<Rightarrow> jstr \<Rightarrow> bool) \<Rightarrow> browser" where
  "quota_browser a rm = \<lparr>has_store = True, can_read = \<lambda>d r. True, can_write = a, can_remove = rm\<rparr>"

definition local_good :: "local_journal \<Rightarrow> bool" where
  "local_good j \<longleftrightarrow> (\<forall>room. room \<notin> set (degraded j) \<longrightarrow> memory_held room (fallback j) = ([], 0))"

definition local_holds :: "local_journal \<Rightarrow> jstr \<Rightarrow> stored_record" where
  "local_holds j room = (if room \<in> set (degraded j) then memory_held room (fallback j) else read_record (disk j) room)"

definition local_kept :: "local_journal \<Rightarrow> jstr \<Rightarrow> stored_record" where
  "local_kept j room = read_record (disk j) room"

lemma local_commit_law:
  assumes g: "local_good j" and l: "snd (local_holds j room) = l" and e: "entry_room e = room" "entry_seq e = Suc l" and n: "1 \<le> n"
  shows "local_good (local_commit (quota_browser a rm) n room e (Suc l) j) \<and>
    (\<exists>k. local_holds (local_commit (quota_browser a rm) n room e (Suc l) j) =
      (local_holds j)(room := (drop k (fst (local_holds j room) @ [e]), Suc l))) \<and>
    local_kept (local_commit (quota_browser a rm) n room e (Suc l) j) \<in>
      {local_kept j, (local_kept j)(room := local_holds (local_commit (quota_browser a rm) n room e (Suc l) j) room)}"
proof (cases "room \<in> set (degraded j)")
  case True
  then have "local_commit (quota_browser a rm) n room e (Suc l) j = fallback_commit room e (Suc l) j"
    by (simp add: local_commit_def quota_browser_def)
  then show ?thesis using True g l
    by (auto simp: fallback_commit_def local_good_def local_holds_def local_kept_def held_commit fun_eq_iff intro!: exI [of _ 0])
next
  case False
  obtain es where r: "read_record (disk j) room = (es, l)" using l False by (cases "read_record (disk j) room") (simp add: local_holds_def)
  have v: "valid_record room (es @ [e], Suc l)" by (rule valid_snoc) (use read_valid [of room "disk j"] r e in simp_all)
  obtain k1 where k1: "k1 < length (es @ [e])" "trim_record n (es @ [e]) = drop k1 (es @ [e])" using trim_drop [OF n, of "es @ [e]"] by auto
  let ?s = "shrink_until (\<lambda>kept. a (disk j) room (kept, Suc l)) (trim_record n (es @ [e]))"
  have c: "local_commit (quota_browser a rm) n room e (Suc l) j = (case ?s of
      Some kept \<Rightarrow> j\<lparr>disk := put room (Some (kept, Suc l)) (disk j)\<rparr> | None \<Rightarrow> degrade room (es @ [e], Suc l) j)"
    using False r by (simp add: local_commit_def quota_browser_def readDurable_def Let_def)
  show ?thesis
  proof (cases ?s)
    case None
    have "memory_held room (fallback j) = ([], 0)" using g False by (simp add: local_good_def)
    with None False g r valid_max [OF v] show ?thesis unfolding c
      by (auto simp: degrade_def local_good_def local_holds_def local_kept_def held_commits held_commit fun_eq_iff intro!: exI [of _ 0])
  next
    case (Some kept)
    obtain k2 where k2: "k2 < length (drop k1 (es @ [e]))" "kept = drop k2 (drop k1 (es @ [e]))"
      using shrink_drop [OF _ Some] k1 by (metis drop_eq_Nil leD)
    then have kept: "kept = drop (k2 + k1) (es @ [e])" "k2 + k1 < length (es @ [e])" by simp_all
    then have "valid_record room (kept, Suc l)" using valid_drop [OF v] by simp
    with Some False g r kept(1) show ?thesis unfolding c
      by (auto simp: local_good_def local_holds_def local_kept_def read_put fun_eq_iff intro!: exI [of _ "k2 + k1"])
  qed
qed

lemma local_reset_law:
  assumes "local_good j"
  shows "local_good (local_reset (quota_browser a rm) room j) \<and>
    local_holds (local_reset (quota_browser a rm) room j) = (local_holds j)(room := ([], 0)) \<and>
    local_kept (local_reset (quota_browser a rm) room j) \<in> {local_kept j, (local_kept j)(room := ([], 0))}"
proof -
  have v: "valid_record room ([], 0)" by (simp add: valid_record_def StoredRoom_def)
  show ?thesis using assms
    by (auto simp: local_reset_def quota_browser_def degrade_def local_good_def local_holds_def local_kept_def held_del read_del read_put v
        fun_eq_iff Let_def)
qed

interpretation local_store: room_store "localStorageJournal (quota_browser a rm) n" local_good local_holds local_kept False for a rm n
proof unfold_locales
  fix j room
  assume g: "local_good j"
  let ?J = "localStorageJournal (quota_browser a rm) n"
  show "\<exists>j'. load_room ?J room j = (local_holds j room, j') \<and> local_good j' \<and> local_holds j' = local_holds j \<and> local_kept j' = local_kept j"
    using g by (auto simp: localStorageJournal_def readRoom_def readDurable_def local_holds_def quota_browser_def)
  show "local_good (reset_room ?J room j) \<and> local_holds (reset_room ?J room j) = (local_holds j)(room := ([], 0)) \<and>
      local_kept (reset_room ?J room j) \<in> {local_kept j, (local_kept j)(room := ([], 0))}"
    using local_reset_law [OF g] by (simp add: localStorageJournal_def)
  show "local_good (page_load ?J j) \<and> local_holds (page_load ?J j) = local_kept j \<and> local_kept (page_load ?J j) = local_kept j"
    by (simp add: localStorageJournal_def fresh_local_def local_good_def local_holds_def local_kept_def memory_held_def memory_load_def fun_eq_iff)
  fix l e
  assume "snd (local_holds j room) = l" "entry_room e = room" "entry_seq e = Suc l"
  from local_commit_law [OF g this, of "max 1 n" a rm]
  show "local_good (commit_entry ?J room e (Suc l) j) \<and>
      (\<exists>k. (False \<longrightarrow> k = 0) \<and> local_holds (commit_entry ?J room e (Suc l) j) =
        (local_holds j)(room := (drop k (fst (local_holds j room) @ [e]), Suc l))) \<and>
      local_kept (commit_entry ?J room e (Suc l) j) \<in>
        {local_kept j, (local_kept j)(room := local_holds (commit_entry ?J room e (Suc l) j) room)}"
    by (simp add: localStorageJournal_def)
qed

end
