(* ===== verification/Timeline.thy ===== *)
theory Timeline
  imports Web_Journal
begin

text \<open>
  What the web client shows against what the server's ledger holds.  A ledger is a function from a room and a position
  to the entry there; frames tell the truth when every entry they carry is the ledger's.
\<close>

section \<open>The timeline follows the ledger\<close>

definition truthful :: "(jstr \<Rightarrow> nat \<Rightarrow> room_entry) \<Rightarrow> web_op list \<Rightarrow> bool" where
  "truthful L xs \<longleftrightarrow> list_all (\<lambda>e. e = L (entry_room e) (entry_seq e)) (concat (map op_entries_web xs))"

definition stretch :: "(jstr \<Rightarrow> nat \<Rightarrow> room_entry) \<Rightarrow> jstr \<Rightarrow> nat \<Rightarrow> nat \<Rightarrow> room_entry list" where
  "stretch L room k l = map (L room) [Suc k ..< Suc l]"

lemma stretch_snoc: "k \<le> l \<Longrightarrow> stretch L room k l @ [L room (Suc l)] = stretch L room k (Suc l)"
  by (simp add: stretch_def)

lemma stretch_drop: "k \<le> l \<Longrightarrow> drop m (stretch L room k l) = stretch L room (min l (k + m)) l"
  by (auto simp: stretch_def drop_map min_def simp del: upt_Suc)

lemma applied_seq: "lastSeq (apply_to_view cfg e v) = entry_seq e"
  by (auto simp: apply_to_view_def Let_def reconcilePending_def split: room_entry.split web_event.split option.split)

lemma shown_events: "room_events (show_entry e v) = room_events v @ [e]"
  by (simp add: show_entry_def Let_def split: option.split)

lemma applied_events: "room_events (apply_to_view cfg e v) = room_events v @ filter took_effect [e]"
  by (auto simp: apply_to_view_def Let_def reconcilePending_def shown_events split: room_entry.split web_event.split option.split)

context room_store
begin

definition recorded :: "(jstr \<Rightarrow> nat \<Rightarrow> room_entry) \<Rightarrow> jstr \<Rightarrow> stored_record \<Rightarrow> bool" where
  "recorded L room r \<longleftrightarrow> (\<exists>k \<le> snd r. (whole \<longrightarrow> k = 0) \<and> fst r = stretch L room k (snd r))"

definition showing :: "(jstr \<Rightarrow> nat \<Rightarrow> room_entry) \<Rightarrow> 'j \<Rightarrow> jstr \<Rightarrow> room_view \<Rightarrow> bool" where
  "showing L j room v \<longleftrightarrow> lastSeq v = snd (holds j room) \<and>
     (\<exists>k \<le> lastSeq v. (whole \<longrightarrow> k = 0) \<and> room_events v = filter took_effect (stretch L room k (lastSeq v)))"

definition follows :: "(jstr \<Rightarrow> nat \<Rightarrow> room_entry) \<Rightarrow> 'j web \<Rightarrow> bool" where
  "follows L s \<longleftrightarrow> good (web_journal s) \<and> (\<forall>room. recorded L room (holds (web_journal s) room)) \<and>
     (\<forall>room. recorded L room (kept (web_journal s) room)) \<and>
     (\<forall>room v. get (web_rooms s) room = Some v \<longrightarrow> showing L (web_journal s) room v)"

lemma followsI:
  "good (web_journal s) \<Longrightarrow> (\<And>room. recorded L room (holds (web_journal s) room)) \<Longrightarrow>
    (\<And>room. recorded L room (kept (web_journal s) room)) \<Longrightarrow>
    (\<And>room v. get (web_rooms s) room = Some v \<Longrightarrow> showing L (web_journal s) room v) \<Longrightarrow> follows L s"
  by (simp add: follows_def)

lemma held_same: "holds j' room = holds j room \<Longrightarrow> showing L j' room v = showing L j room v"
  by (simp add: showing_def)

lemma recorded_nothing [simp]: "recorded L room ([], 0)"
  by (simp add: recorded_def stretch_def)

lemma showing_view: "lastSeq v' = lastSeq v \<Longrightarrow> room_events v' = room_events v \<Longrightarrow> showing L j room v' = showing L j room v"
  by (simp add: showing_def)

lemma showing_dropped: "showing L j room (drop_room v) = showing L j room v"
  by (rule showing_view) (simp_all add: drop_room_def)

lemma follows_opened:
  assumes "follows L s"
  shows "follows L (opened J room s)"
proof (cases "get (web_rooms s) room")
  case None
  have g: "good (web_journal s)" using assms by (simp add: follows_def)
  obtain j' where j': "load_room J room (web_journal s) = (holds (web_journal s) room, j')" "good j'" "holds j' = holds (web_journal s)" "kept j' = kept (web_journal s)"
    using load_law [OF g, of room] by blast
  obtain es l where h: "holds (web_journal s) room = (es, l)" by fastforce
  have "showing L (web_journal s) room (resumed_view es l)"
    using assms h by (auto simp: follows_def recorded_def showing_def resumed_view_def Let_def dest!: spec [of _ room])
  with None assms j' h show ?thesis
    by (intro followsI) (auto simp: opened_def follows_def held_same [OF fun_cong [OF j'(3)]] split: if_splits)
qed (use assms in \<open>simp add: opened_def\<close>)

lemma follows_update:
  assumes "follows L s" "get (web_rooms s) room = Some v" "lastSeq (f v) = lastSeq v" "room_events (f v) = room_events v"
  shows "follows L (update_room room f s)"
proof -
  have j: "web_journal (update_room room f s) = web_journal s" by (simp add: update_room_def)
  have "showing L (web_journal s) room (f v)" using assms(1,2) by (simp add: showing_view [of "f v" v, OF assms(3,4)] follows_def)
  with assms(1,2) show ?thesis
    by (intro followsI) (auto simp: follows_def update_get room_of_Some j split: if_splits)
qed

lemma follows_entry:
  assumes "follows L s" "get (web_rooms s) (entry_room e) = Some v" "e = L (entry_room e) (entry_seq e)" "entry_seq e = Suc (lastSeq v)"
  shows "follows L (update_room (entry_room e) (apply_to_view cfg e)
    (s\<lparr>web_journal := commit_entry J (entry_room e) e (entry_seq e) (web_journal s)\<rparr>))"
proof -
  let ?r = "entry_room e" let ?l = "lastSeq v" let ?j = "web_journal s" let ?j' = "commit_entry J ?r e (Suc ?l) ?j"
  have g: "good ?j" and sv: "showing L ?j ?r v" and rec: "recorded L ?r (holds ?j ?r)" using assms(1,2) by (simp_all add: follows_def)
  then have h: "snd (holds ?j ?r) = ?l" by (simp add: showing_def)
  from commit_law [OF g this refl assms(4)] obtain k where k: "good ?j'" "whole \<longrightarrow> k = 0"
    "holds ?j' = (holds ?j)(?r := (drop k (fst (holds ?j ?r) @ [e]), Suc ?l))" "kept ?j' \<in> {kept ?j, (kept ?j)(?r := holds ?j' ?r)}" by blast
  have e: "e = L ?r (Suc ?l)" using assms(3,4) by simp
  obtain k0 where k0: "k0 \<le> ?l" "whole \<longrightarrow> k0 = 0" "fst (holds ?j ?r) = stretch L ?r k0 ?l" using rec h by (auto simp: recorded_def)
  then have "fst (holds ?j ?r) @ [e] = stretch L ?r k0 (Suc ?l)" using stretch_snoc [OF k0(1), of L ?r] e by simp
  then have "fst (holds ?j' ?r) = stretch L ?r (min (Suc ?l) (k0 + k)) (Suc ?l)" using k0(1) by (simp add: k(3) stretch_drop)
  then have new: "recorded L ?r (holds ?j' ?r)" using k(2,3) k0(2) unfolding recorded_def by (intro exI [of _ "min (Suc ?l) (k0 + k)"]) auto
  have recs: "recorded L room (holds ?j' room)" for room using new assms(1) by (cases "room = ?r") (simp_all add: k(3) follows_def)
  have kepts: "recorded L room (kept ?j' room)" for room using k(4) new assms(1) by (cases "room = ?r") (auto simp: follows_def)
  obtain k1 where k1: "k1 \<le> ?l" "whole \<longrightarrow> k1 = 0" "room_events v = filter took_effect (stretch L ?r k1 ?l)"
    using sv unfolding showing_def by blast
  have "room_events (apply_to_view cfg e v) = filter took_effect (stretch L ?r k1 ?l @ [e])" by (simp add: k1(3) applied_events)
  also have "stretch L ?r k1 ?l @ [e] = stretch L ?r k1 (Suc ?l)" using stretch_snoc [OF k1(1), of L ?r] e by simp
  finally have "showing L ?j' ?r (apply_to_view cfg e v)"
    using k1(1,2) by (auto simp: showing_def applied_seq assms(4) k(3) intro!: exI [of _ k1])
  moreover have "showing L ?j' room w" if "get (web_rooms s) room = Some w" "room \<noteq> ?r" for room w
    using that assms(1) held_same [of ?j' room ?j L w] by (simp add: follows_def k(3))
  ultimately show ?thesis using assms(2,4) k(1) recs kepts
    by (intro followsI) (auto simp: update_get room_of_def update_room_def split: if_splits)
qed

lemma follows_discard:
  assumes "follows L s"
  shows "follows L (update_room room discarded (s\<lparr>web_journal := reset_room J room (web_journal s)\<rparr>))"
proof -
  let ?j = "web_journal s" let ?j' = "reset_room J room ?j"
  have r: "good ?j'" "holds ?j' = (holds ?j)(room := ([], 0))" "kept ?j' \<in> {kept ?j, (kept ?j)(room := ([], 0))}"
    using reset_law [of ?j room] assms by (simp_all add: follows_def)
  have "showing L ?j' room (discarded v)" for v by (simp add: showing_def r(2) discarded_def stretch_def)
  moreover have "showing L ?j' room' w" if "get (web_rooms s) room' = Some w" "room' \<noteq> room" for room' w
    using that assms held_same [of ?j' room' ?j L w] by (simp add: follows_def r(2))
  moreover have "recorded L room' (holds ?j' room')" "recorded L room' (kept ?j' room')" for room'
    using assms r(2,3) by (auto simp: follows_def)
  ultimately show ?thesis using r(1) by (intro followsI) (auto simp: update_get update_room_def split: if_splits)
qed

lemma follows_page_load: "follows L s \<Longrightarrow> follows L (empty_web (page_load J (web_journal s)))"
  using page_law [of "web_journal s"] by (simp add: follows_def empty_web_def)

lemma follows_start: "good j \<Longrightarrow> (\<And>room. holds j room = ([], 0)) \<Longrightarrow> (\<And>room. kept j room = ([], 0)) \<Longrightarrow> follows L (empty_web j)"
  by (simp add: follows_def empty_web_def)

end

sublocale room_store \<subseteq> ledger: web_invariant J cfg "\<lambda>e. e = L (entry_room e) (entry_seq e)" "follows L" for cfg L
proof unfold_locales
  fix s room v f p snaps
  assume "follows L s" "get (web_rooms s) room = Some v" "calm f \<or> f = on_progress p \<or> f = recovered_view snaps"
  moreover have "lastSeq (on_progress p v) = lastSeq v \<and> room_events (on_progress p v) = room_events v"
    by (simp add: on_progress_def Let_def)
  moreover have "lastSeq (recovered_view snaps v) = lastSeq v \<and> room_events (recovered_view snaps v) = room_events v"
    by (auto simp: recovered_view_def dest!: recover_less split: prod.split)
  ultimately show "follows L (update_room room f s)" by (auto simp: calm_def intro: follows_update)
next
  fix s
  assume "follows L s"
  then show "follows L (s\<lparr>web_rooms := map (\<lambda>(room, v). (room, drop_room v)) (web_rooms s)\<rparr>)"
    by (auto simp: follows_def get_map_values showing_dropped)
qed ((rule follows_opened follows_entry follows_discard follows_page_load; assumption) | simp add: follows_def empty_web_def)+

context room_store
begin

lemma run_stretch:
  assumes "truthful L xs" "good j" "\<And>room. holds j room = ([], 0)" "\<And>room. kept j room = ([], 0)" "get (web_rooms (web_run J cfg j xs)) room = Some v"
  shows "\<exists>k \<le> lastSeq v. (whole \<longrightarrow> k = 0) \<and> room_events v = filter took_effect (map (L room) [Suc k ..< Suc (lastSeq v)])"
proof -
  have "follows L (web_run J cfg j xs)"
    by (rule ledger.every_state) (use assms(1) follows_start [OF assms(2-4)] in \<open>simp_all add: truthful_def\<close>)
  with assms(5) have "showing L (web_journal (web_run J cfg j xs)) room v" by (simp add: follows_def)
  then show ?thesis unfolding showing_def stretch_def by (rule conjunct2)
qed

end

section \<open>The room on the screen\<close>

text \<open>
  C37. With the journal in memory, the timeline of a room is the ledger's, without a gap, a duplicate or a swap: after
  any run of frames, closed and reopened sockets, new clients on the same journal, page loads, joins and leaves, in
  which every entry received is the ledger's at its position, the room shows exactly the positions one to its cursor
  that took effect, in order.
\<close>

theorem timeline_is_ledger:
  assumes "truthful L xs" "get (web_rooms (web_run memoryJournal cfg [] xs)) room = Some v"
  shows "room_events v = filter took_effect (map (L room) [1 ..< Suc (lastSeq v)])"
proof -
  have "memory_held r [] = ([], 0)" for r by (simp add: memory_held_def memory_load_def)
  from memory_store.run_stretch [OF assms(1) TrueI this refl assms(2)] show ?thesis by (simp del: upt_Suc)
qed

definition sample_ledger :: "jstr \<Rightarrow> nat \<Rightarrow> room_entry" where
  "sample_ledger room n =
     (if n = 2 then Envelope room n None (Plain_Event []) [asc ''refused''] else Envelope room n None (Session_Ended (Some [n])) [])"

definition sample_config :: web_config where
  "sample_config = \<lparr>web_userId = asc ''u'', catchUpPageSize = None, maxStalledCatchups = 3\<rparr>"

text \<open>An entry, a gap, a new client, and a page that repeats what is held and closes the gap.\<close>

definition sample_run :: "jstr \<Rightarrow> web_op list" where
  "sample_run room = [Socket_Opens, Joins room, Receives 0 (Subscribed room 3 0 []), Receives 1 (Entry_Frame (sample_ledger room 1)),
     Receives 2 (Entry_Frame (sample_ledger room 3)), Socket_Closes, Restarts, Socket_Opens, Joins room,
     Receives 5 (Page room 0 3 3 False (map (\<lambda>n. Some (sample_ledger room n)) [1, 2, 3]))]"

theorem timeline_is_ledger_witness:
  "truthful sample_ledger (sample_run [7]) \<and>
   room_events (the (get (web_rooms (web_run memoryJournal sample_config [] (sample_run [7]))) [7])) = map (sample_ledger [7]) [1, 3]"
proof -
  let ?o = "get (web_rooms (web_run memoryJournal sample_config [] (sample_run [7]))) [7]"
  have t: "truthful sample_ledger (sample_run [7])" by code_simp
  have o: "?o = Some (the ?o)" and l: "lastSeq (the ?o) = 3" by code_simp+
  have "filter took_effect (map (sample_ledger [7]) [1 ..< Suc 3]) = map (sample_ledger [7]) [1, 3]" by code_simp
  with t timeline_is_ledger [OF t o] show ?thesis unfolding l by simp
qed

text \<open>
  C38. With local storage that can be read, whatever it refuses to write or to remove, the room still shows one
  unbroken stretch of the ledger that ends at its cursor.  It does so after a page load too, which loses the rooms
  that were degraded to memory and resumes from the older record that the store was left with.
\<close>

theorem stored_timeline_is_stretch:
  assumes "truthful L xs"
    and "get (web_rooms (web_run (localStorageJournal (quota_browser a rm) n) cfg (fresh_local []) xs)) room = Some v"
  shows "\<exists>k \<le> lastSeq v. room_events v = filter took_effect (map (L room) [Suc k ..< Suc (lastSeq v)])"
proof -
  have "local_good (fresh_local [])" "local_holds (fresh_local []) r = ([], 0)" "local_kept (fresh_local []) r = ([], 0)" for r
    by (simp_all add: fresh_local_def local_good_def local_holds_def local_kept_def memory_held_def memory_load_def read_record_def)
  from local_store.run_stretch [OF assms(1) this assms(2)] show ?thesis by (simp del: upt_Suc)
qed

text \<open>A store that takes one entry and no more: the room goes on in memory, and a page load falls back to that entry.\<close>

definition stubborn :: browser where
  "stubborn = quota_browser (\<lambda>d r rec. snd rec \<le> 1) (\<lambda>d r. False)"

theorem stored_timeline_is_stretch_witness:
  "lastSeq (the (get (web_rooms (web_run (localStorageJournal stubborn 100) sample_config (fresh_local []) (sample_run [7]))) [7])) = 3 \<and>
   (\<exists>k \<le> 1. room_events (the (get (web_rooms (web_run (localStorageJournal stubborn 100) sample_config (fresh_local [])
     (sample_run [7] @ [Reloads, Joins [7]]))) [7])) = filter took_effect (map (sample_ledger [7]) [Suc k ..< 2]))"
proof -
  let ?o = "get (web_rooms (web_run (localStorageJournal stubborn 100) sample_config (fresh_local []) (sample_run [7] @ [Reloads, Joins [7]]))) [7]"
  have t: "truthful sample_ledger (sample_run [7] @ [Reloads, Joins [7]])" by code_simp
  have o: "?o = Some (the ?o)" and l: "lastSeq (the ?o) = 1" by code_simp+
  have "lastSeq (the (get (web_rooms (web_run (localStorageJournal stubborn 100) sample_config (fresh_local []) (sample_run [7]))) [7])) = 3"
    by code_simp
  moreover have "\<exists>k \<le> 1. room_events (the ?o) = filter took_effect (map (sample_ledger [7]) [Suc k ..< 2])"
    using stored_timeline_is_stretch [OF t o [unfolded stubborn_def]] unfolding stubborn_def [symmetric] l by (simp only: Suc_1)
  ultimately show ?thesis by blast
qed

text \<open>
  C39. A session whose end is in the timeline has no preview, in every run, with any journal and whatever the frames
  say: a preview that arrives late, or that a reconnect recovers, is refused.
\<close>

theorem ended_session_has_no_preview:
  assumes "get (web_rooms (web_run J cfg j xs)) room = Some v" "e \<in> set (room_events v)" "ended_session e = Some sid"
  shows "get (progress v) sid = None"
proof -
  have "wall.all_views (web_run J cfg j xs)"
    by (rule wall.every_state) (simp_all add: wall.all_views_def empty_web_def list_all_iff)
  with assms(1) have "walled v" by (simp add: wall.all_views_def)
  moreover have "sid \<in> set (List.map_filter ended_session (room_events v))"
    using assms(2,3) by (force simp: List.map_filter_def)
  ultimately show ?thesis by (auto simp: walled_def)
qed

theorem ended_session_has_no_preview_witness:
  "get (progress (the (get (web_rooms (web_run memoryJournal sample_config []
     (sample_run [7] @ [Receives 9 (Progress [7] \<lparr>progress_session = [3], progressSeq = 8, progress_body = JNull\<rparr>)]))) [7]))) [3] = None"
proof -
  let ?o = "get (web_rooms (web_run memoryJournal sample_config []
     (sample_run [7] @ [Receives 9 (Progress [7] \<lparr>progress_session = [3], progressSeq = 8, progress_body = JNull\<rparr>)]))) [7]"
  have o: "?o = Some (the ?o)" and e: "sample_ledger [7] 3 \<in> set (room_events (the ?o))" "ended_session (sample_ledger [7] 3) = Some [3]"
    by code_simp+
  from ended_session_has_no_preview [OF o e] show ?thesis .
qed

section \<open>A page past a hole\<close>

lemma opened_held: "get (web_rooms s) room = Some v \<Longrightarrow> opened J room s = s"
  by (simp add: opened_def)

lemma page_past_hole:
  assumes "connected s" "get (web_rooms s) room = Some v"
    and "list_all (pred_option (\<lambda>e. entry_room e = room \<and> Suc (lastSeq v) < entry_seq e)) es"
  shows "apply_page J cfg es s = s\<lparr>web_sent := web_sent s @
    replicate (length (List.map_filter id es)) (Since_Seq room (lastSeq v) (catchUpPageSize cfg))\<rparr>"
  using assms
proof (induction es arbitrary: s)
  case Nil
  then show ?case by (simp add: apply_page_def List.map_filter_def)
next
  case (Cons x es)
  let ?a = "Since_Seq room (lastSeq v) (catchUpPageSize cfg)"
  have "(case x of None \<Rightarrow> s | Some e \<Rightarrow> applyEntry J cfg s e) =
      s\<lparr>web_sent := web_sent s @ (case x of None \<Rightarrow> [] | Some e \<Rightarrow> [?a])\<rparr>"
    using Cons.prems by (cases x) (auto simp: applyEntry_def opened_held room_of_Some requestSince_def Let_def send_def)
  moreover have "apply_page J cfg es (s\<lparr>web_sent := web_sent s @ (case x of None \<Rightarrow> [] | Some e \<Rightarrow> [?a])\<rparr>) =
      s\<lparr>web_sent := (web_sent s @ (case x of None \<Rightarrow> [] | Some e \<Rightarrow> [?a])) @ replicate (length (List.map_filter id es)) ?a\<rparr>"
    by (subst Cons.IH) (use Cons.prems in simp_all)
  ultimately show ?case by (simp add: apply_page_def List.map_filter_def split: option.split)
qed

lemma stall_sends:
  assumes "connected s" "get (web_rooms s) room = Some v" "lastSeq v \<le> before"
  shows "web_sent (stall_or_ask J cfg now room before s) = web_sent s @
    (if Suc (case get (stalled s) room of None \<Rightarrow> 0 | Some k \<Rightarrow> k) < maxStalledCatchups cfg
     then [Since_Seq room (lastSeq v) (catchUpPageSize cfg)] else [])"
  using assms by (simp add: stall_or_ask_def Let_def requestSince_def opened_held room_of_Some [of _ _ v] send_def not_less)

text \<open>
  C40. A page that holds nothing but entries past a hole asks for the gap once for each of them, and once more while the
  stalled rounds last: the bound on stalled rounds stops only that last request.
\<close>

theorem page_asks_for_each_entry_past_hole:
  assumes "connected s" "get (web_rooms s) room = Some v" "lastSeq v < h"
    and "list_all (pred_option (\<lambda>e. entry_room e = room \<and> Suc (lastSeq v) < entry_seq e)) es"
  shows "web_sent (onmessage J cfg now (Page room lo hi h more_pages es) s) = web_sent s @
    replicate (length (List.map_filter id es) +
        (if Suc (case get (stalled s) room of None \<Rightarrow> 0 | Some k \<Rightarrow> k) < maxStalledCatchups cfg then 1 else 0))
      (Since_Seq room (lastSeq v) (catchUpPageSize cfg))"
proof -
  have r: "frame_readable (Page room lo hi h more_pages es)"
    using assms(4) by (auto simp: frame_readable_def list_all_iff pred_option_def)
  let ?w = "v\<lparr>room_head := max (room_head v) h\<rparr>" let ?a = "Since_Seq room (lastSeq v) (catchUpPageSize cfg)"
  define t where "t = s\<lparr>web_rooms := put room ?w (web_rooms s), web_sent := web_sent s @ replicate (length (List.map_filter id es)) ?a\<rparr>"
  have p: "apply_page J cfg es (s\<lparr>web_rooms := put room ?w (web_rooms s)\<rparr>) = t"
    unfolding t_def by (subst page_past_hole [where v = ?w and room = room]) (use assms in simp_all)
  have g: "get (web_rooms t) room = Some ?w" "get (web_rooms (report_error t)) room = Some ?w" "connected t" "connected (report_error t)"
    "stalled t = stalled s" "stalled (report_error t) = stalled s" using assms(1) by (simp_all add: t_def report_error_def)
  have "web_sent (onmessage J cfg now (Page room lo hi h more_pages es) s) =
      web_sent (stall_or_ask J cfg now room (lastSeq v) (if None \<in> set es then report_error t else t))"
    using assms(2,3) g by (simp add: onmessage_def r handleFrame_def on_page_def opened_held update_room_def room_of_Some p Let_def less_max_iff_disj)
  then show ?thesis using g
    by (simp add: stall_sends [where v = ?w] t_def replicate_append_same)
qed

theorem page_asks_for_each_entry_past_hole_witness:
  "web_sent (onmessage memoryJournal sample_config 0
     (Page [7] 0 4 4 False (None # map (\<lambda>n. Some (sample_ledger [7] n)) [2, 3, 4]))
     ((update_room [7] id (empty_web []))\<lparr>connected := True, stalled := put [7] 5 []\<rparr>)) = replicate 3 (Since_Seq [7] 0 None)"
proof -
  let ?s = "(update_room [7] id (empty_web []))\<lparr>connected := True, stalled := put [7] 5 []\<rparr> :: memory_journal web"
  let ?es = "None # map (\<lambda>n. Some (sample_ledger [7] n)) [2, 3, 4]"
  have 1: "connected ?s" by simp
  have 2: "get (web_rooms ?s) [7] = Some (resumed_view [] 0)" by code_simp
  have 3: "lastSeq (resumed_view [] 0) < 4" by code_simp
  have 4: "list_all (pred_option (\<lambda>e. entry_room e = [7] \<and> Suc (lastSeq (resumed_view [] 0)) < entry_seq e)) ?es"
    by (simp add: sample_ledger_def resumed_view_def)
  have 5: "length (List.map_filter id ?es) + (if Suc (case get (stalled ?s) [7] of None \<Rightarrow> 0 | Some k \<Rightarrow> k) < maxStalledCatchups sample_config then 1 else 0) = 3"
    "web_sent ?s = []" "lastSeq (resumed_view [] 0) = 0" "catchUpPageSize sample_config = None" by code_simp+
  from page_asks_for_each_entry_past_hole [OF 1 2 3 4, of memoryJournal sample_config 0 0 4 False] show ?thesis
    unfolding 5 by simp
qed

end
