(* ===== verification/Spec2Isabelle.thy ===== *)
theory Spec2Isabelle
  imports Samples Receipt Wire Chronology Engine Binding Panel Corrections Routing Command
    Throttle Authz Client_Ip Delivery Loop Timeline
begin

text \<open>
  A verification development of the Semantic Core of atrium (\<open>packages/core/src\<close>): the pure,
  event-sourced heart of a room in which people and models propose, accept, correct and relate
  statements; of the small components around it that decide who may act, whom to count and what to
  deliver (\<open>packages/auth/src\<close>, \<open>apps/server/src\<close>), of the agent that works in a room (\<open>apps/loop/src\<close>),
  and of the web client's copy of a room (\<open>apps/web/src/lib\<close>).

  \<^bold>\<open>The program.\<close>  A room's history is a log of JSON events, each stored with the actor the server
  authenticated and, for a machine, the window of messages it was shown.  \<open>reduce.ts\<close> folds the log
  into a state of objects (decisions, commitments, open questions, claims, objectives), proposals, relations and
  corrections.  Every change passes the gates of \<open>authority.ts\<close>: a model may mint only a claim or an
  open question, only from a staged proposal, only with a receipt (\<open>escalation.ts\<close> over \<open>matching.ts\<close>)
  that its words are somebody's own; a person confirms only what is theirs to confirm.  \<open>acceptance.ts\<close>
  decides what becomes of a proposal and binds an answer to a question; \<open>attention.ts\<close> projects the
  state onto what the room owes whom.  At the edge, \<open>client-ip.ts\<close> and \<open>throttle.ts\<close> limit callers, \<open>authz.ts\<close>
  authorizes commands, and \<open>hub.ts\<close>, \<open>head-acks.ts\<close> and \<open>reconciler.ts\<close> deliver the log to sockets.
  The channel loop reads the log through one (\<open>client.ts\<close>), turns messages into plans, sessions, steers and answers
  (\<open>conductor.ts\<close>, \<open>daemon.ts\<close>), and keeps what it did in a journal (\<open>journal.ts\<close>).
  A browser follows the log in \<open>realtime.ts\<close>: it applies each position once, fills gaps page by page, resumes from a
  journal in local storage, and shows its own unsent messages and previews of running sessions beside the log.

  \<^bold>\<open>The theories, in the order of the code.\<close>
  \<^item> \<open>Prelude\<close>: strings as lists of code points, stores (\<open>Record<Id, X>\<close>) as association lists behind
    the locale \<open>keyed_store\<close>, JSON, guard sequences.  \<open>JsText\<close>, \<open>Regex\<close>: the Unicode data the source's
    regular expressions name, as the parameter \<open>unicode\<close>, and a backtracking matcher for those expressions.
  \<^item> \<open>Instant\<close> (\<open>common.ts\<close>), \<open>Objects\<close> (\<open>objects.ts\<close>, \<open>attribution.ts\<close>), \<open>Records\<close>
    (\<open>proposal.ts\<close>, \<open>relations.ts\<close>, \<open>events.ts\<close>), \<open>State\<close> (\<open>state.ts\<close>): the data, its schemas as
    parsers into options and its printers.
  \<^item> \<open>Policy_Bounds\<close>, \<open>Policy\<close> (\<open>policy.ts\<close>), \<open>Matching\<close> (\<open>matching.ts\<close>), \<open>Escalation\<close>
    (\<open>escalation.ts\<close>), \<open>Authority\<close> (\<open>authority.ts\<close>, \<open>epistemic.ts\<close>): thresholds, normalisation
    and alignment of quotes, the receipt check, the gates.
  \<^item> \<open>Reduce_Accept\<close>, \<open>Reduce_Correct\<close>, \<open>Reduce\<close> (\<open>reduce.ts\<close>): one definition per handler, with the
    guards in the order of its early returns, then the fold, the canonical order and the outcomes.
  \<^item> \<open>Acceptance\<close> (\<open>acceptance.ts\<close>), \<open>Attention\<close> (\<open>attention.ts\<close>).
  \<^item> \<open>Corrections\<close> (\<open>corrections.ts\<close>), \<open>Routing\<close> (the triggers of \<open>escalation.ts\<close>), \<open>Command\<close>
    (\<open>semantic-command.ts\<close>): what reads the log, which window goes to the stronger model, authored commands.
  \<^item> \<open>JsData\<close>: deletion from maps and splitting.  \<open>Throttle\<close> (\<open>throttle.ts\<close>), \<open>Authz\<close> (\<open>authz.ts\<close>),
    \<open>Client_Ip\<close> (\<open>client-ip.ts\<close>, addresses as \<open>8 word\<close>s), \<open>Delivery\<close> (\<open>hub.ts\<close>, \<open>head-acks.ts\<close>, the head
    half of \<open>reconciler.ts\<close> and the subscription frames of \<open>ws-server.ts\<close>, as a step relation whose steps are
    the handlers cut at their \<open>await\<close>s).
  \<^item> \<open>Journal\<close> (\<open>journal.ts\<close>), \<open>Loop_Client\<close> (\<open>client.ts\<close>, the frames of \<open>protocol.ts\<close>), \<open>Loop\<close> (\<open>conductor.ts\<close>,
    \<open>daemon.ts\<close>): the loop.  A run is a sequence of lives of the process; each opens the journal the last one left
    and handles what its client hands it, against a server that is a parameter: a command may not go out, go out and
    get no reply, or be answered.
  \<^item> \<open>Realtime\<close>, \<open>Web_Journal\<close>, \<open>Timeline\<close> (\<open>realtime.ts\<close>): the web client as a run of frames, socket events, restarts
    of the client, page loads and calls; the journals in memory and in local storage, of which a page load keeps only what
    is on disk; what is shown against the server's ledger.
  \<^item> \<open>Samples\<close>: concrete logs for the witnesses.

  State is explicit: a handler takes a \<open>core_state\<close> and returns a new one with a flag.  A refusal of the
  source is a prose message; here it is a value of a datatype with one constructor per message, carrying
  what the message interpolates.  \<open>undefined\<close>, \<open>null\<close> and absent keys are \<open>None\<close> where the source treats
  them alike.  Property reads on a state's records are reads of own properties.

  \<^bold>\<open>What is proved.\<close>
  \<^item> \<open>Reduce_Fold\<close>: the locale \<open>ordered_log\<close> (a fold that rejects what does not come after its cursor),
    interpreted on \<open>append_authored\<close>; with it, below: live and replayed state agree (C1), arrival
    order is irrelevant (C2), an append is all or nothing (C3).
  \<^item> \<open>Reduce_Objects\<close>, \<open>Invariants\<close>: what one event can do to an object; the locales
    \<open>object_invariant\<close> and \<open>content_invariant\<close> turn a predicate kept by acceptance and
    correction into one of every reachable state.  \<open>Certification\<close> and \<open>Receipt\<close> interpret them for who
    acted, who vouched, what a machine alone can stand for, and whose words were written (C4 to C8), and
    the state stays readable (C10).
  \<^item> \<open>Structure\<close>, \<open>Supersession\<close>: references, answers, corrections, issues, revisions, the instants of the last change;
    the cycle check, and what a restore does to the graph without it (C9, C11 to C16).  \<open>Corrections\<close>: the locale \<open>explained_by_log\<close>, interpreted for withdrawal,
    revision and reopened answers; histories and rates.
  \<^item> \<open>Wire\<close>, \<open>Calendar\<close>, \<open>Chronology\<close>: which events the schema can read, and that each is read back from its full and from its
    tersest form, with every default left out (C17); timestamps against a
    reference calendar, sort keys against the order of time (C18, C19).
  \<^item> \<open>Routing\<close>, \<open>Command\<close>: what the caps let routing read (C20); the command grammar.
  \<^item> \<open>Engine\<close>, \<open>Binding\<close>: the acceptance engine against the reducer's own gates; when an answer is bound
    and what that leaves (C21 to C23).  \<open>Panel\<close>: the attention projection and its reconciliation (C24, C25).
  \<^item> \<open>Delivery\<close>: the locale \<open>kept_by_handlers\<close> (what every handler keeps holds in every state the server
    reaches), interpreted for the acknowledgements, the positions and the late subscriptions; the hub as a
    relation (C26, C27).  \<open>Throttle\<close>: the limiter against a sliding window over the whole history, its
    bounds, and where a map full of protected callers lets every newcomer through (C28, C29).  \<open>Authz\<close>, \<open>Client_Ip\<close>: granted roles, forged chains,
    networks as bit prefixes (C30, C31), and the address that raises.
  \<^item> \<open>Loop\<close>: the locale \<open>loop_invariant\<close> (what each thing a turn can do keeps holds after any number of lives),
    interpreted for the journal on disk and the budget of commands (C32); the plan whose settling was not sent or not
    answered is left open by every later life (C34).
    \<open>Journal\<close>: what a crash inside a write leaves (C33).  \<open>Loop_Client\<close>: the locale \<open>ordered_source\<close> (each operation
    hands over the next positions and no others), interpreted on the client; order, and how far the stream gets
    (C35, C36).
  \<^item> \<open>Web_Journal\<close>: the locale \<open>room_store\<close> (what the client relies on in a journal), interpreted on both journals.
    \<open>Realtime\<close>: the locale \<open>web_invariant\<close> (what each thing a run can do to the views and the journal keeps holds after
    every run); every \<open>view_invariant\<close> and every \<open>room_store\<close> gives one.  \<open>Timeline\<close>: a truthful server's ledger is what
    is shown, whole, or from some position on after page loads and refused writes (C37, C38), a session that ended has no preview (C39), and how
    many requests a page past a hole sends (C40).

  \<^bold>\<open>Bounds.\<close>  No fuel bounds a result: the regular-expression matcher iterates a star at most as often as
  there are characters left, which is enough because an iteration that consumes nothing stops;
  the supersession walk terminates because it never visits a stored object twice, the limiter's eviction because
  each round removes a key, the address parser because each round removes a prefix, the client's pump because each
  call of the handler removes a waiting event, the eviction from local storage because each round halves what is kept.  Confidence and
  thresholds are rationals: the source compares IEEE doubles read from JSON, and only compares them.

  \<^bold>\<open>Not modelled.\<close>  The prose of refusals, reasons and rationales; the tables of the Unicode database, \<open>NFKC\<close>
  and URL syntax, which are the runtime's (\<open>ascii\<close> is a concrete instance for evaluation).
  Reading the proxy strategy out of the environment compares a number with its printed double.  Of the
  server, the ledger's transactions, the commands, projections and jobs are queries against Postgres and model
  calls, presence and catch-up are frames without state of their own here; of the loop, the timers that reject a
  wait and the reading of its configuration; of the web client, the components, the listeners, the delays between
  sockets and the fields of the commands that are not messages; the
  accounts of \<open>packages/auth\<close> and the ingest tools are user interface, orchestration and third-party libraries.
\<close>

section \<open>The log determines the state\<close>

text \<open>
  C1. Live and replayed state agree.  Feed any rows, in any order, to \<open>appendEvent\<close> one at a time
  and keep the ones it reports as consumed: \<open>reduce\<close> over the kept rows, in whatever order they
  are read back, rebuilds exactly the live state.
\<close>

theorem live_equals_replay:
  assumes "mset stored = mset (snd (live_session U emptyState rows))"
  shows "reduce U stored = fst (live_session U emptyState rows)"
proof -
  have "mset (parse_rows U stored) = mset (event_log.kept U emptyState (parse_rows U rows))"
    using parse_rows_mset [OF assms] by (simp add: live_session_kept)
  from event_log.replay [OF this] show ?thesis
    by (simp add: reduce_run orderEvents_sort live_session_run)
qed

definition replay_rows :: "raw_row list" where
  "replay_rows = [accept_row ''ann'' ''02'' ''d1'' (decision ''use x''),
     accept_row ''bob'' ''01'' ''d2'' (decision ''use y''),
     accept_row ''ann'' ''03'' ''d3'' (decision ''use z'')]"

theorem live_equals_replay_witness:
  "reduce ascii (rev (snd (live_session ascii emptyState replay_rows))) =
     fst (live_session ascii emptyState replay_rows) \<and>
   length (snd (live_session ascii emptyState replay_rows)) = 2"
proof
  show "reduce ascii (rev (snd (live_session ascii emptyState replay_rows))) =
     fst (live_session ascii emptyState replay_rows)"
    by (rule live_equals_replay) simp
  show "length (snd (live_session ascii emptyState replay_rows)) = 2"
    by code_simp
qed

text \<open>
  C2. The order of arrival is irrelevant: two logs with the same rows reduce to the same state,
  as long as no two well-formed rows share a position in the canonical \<open>(at, id)\<close> order.
\<close>

theorem arrival_order_irrelevant:
  assumes "mset rows = mset rows'"
    and "distinct (map (\<lambda>x. cursor_key (cursorOf (event x))) (parse_rows U rows))"
  shows "reduce U rows = reduce U rows'"
  using event_log.sort_unique [OF parse_rows_mset [OF assms(1)] assms(2)]
  by (simp add: reduce_run orderEvents_sort)

theorem arrival_order_irrelevant_witness:
  "reduce ascii replay_rows = reduce ascii (rev replay_rows)"
proof (rule arrival_order_irrelevant)
  show "distinct (map (\<lambda>x. cursor_key (cursorOf (event x)))
      (parse_rows ascii replay_rows))"
    by code_simp
qed simp

text \<open>
  C3. An append is all or nothing.  An event that is malformed or rejected leaves the state exactly
  as it was; a consumed event parsed, moves the cursor to its own position, records its id, and
  delivering it again, under any context, is refused.
\<close>

theorem append_all_or_nothing:
  fixes U s j c
  defines "s' \<equiv> fst (appendEvent U s j c)"
  shows "(\<not> wasConsumed (snd (appendEvent U s j c)) \<longrightarrow> s' = s) \<and>
    (wasConsumed (snd (appendEvent U s j c)) \<longrightarrow>
      (\<exists>e. CoreEvent U j = Some e \<and> cursor s' = Some (cursorOf e) \<and>
        consumedEventIds s' = consumedEventIds s @ [event_id e] \<and>
        (\<forall>c'. \<not> wasConsumed (snd (appendEvent U s' j c')) \<and> fst (appendEvent U s' j c') = s')))"
proof (cases "CoreEvent U j")
  case None
  then show ?thesis by (simp add: s'_def appendEvent_def)
next
  case (Some e)
  then have s': "s' = fst (append_authored U s (authored e c))"
    by (simp add: s'_def appendEvent_def)
  show ?thesis
  proof (cases "rejectionFor s e")
    case None
    have "rejectionFor s' e \<noteq> None"
      using event_log.redelivered [of s "authored e c" U] None by (simp add: s')
    with Some None show ?thesis
      by (auto simp: s' appendEvent_def append_consumed append_authored_def consume_simps)
  next
    case (Some why)
    with \<open>CoreEvent U j = Some e\<close> show ?thesis
      by (simp add: s' appendEvent_def append_authored_def)
  qed
qed

theorem append_all_or_nothing_witness:
  "cursor (fst (appendEvent ascii emptyState (fst (hd replay_rows)) (by_human ''ann''))) \<noteq> None \<and>
   fst (appendEvent ascii emptyState JNull (by_human ''ann'')) = emptyState"
proof
  have "wasConsumed (snd (appendEvent ascii emptyState (fst (hd replay_rows)) (by_human ''ann'')))"
    by code_simp
  then show "cursor (fst (appendEvent ascii emptyState (fst (hd replay_rows)) (by_human ''ann''))) \<noteq> None"
    using append_all_or_nothing [of ascii emptyState "fst (hd replay_rows)" "by_human ''ann''"] by auto
  have "\<not> wasConsumed (snd (appendEvent ascii emptyState JNull (by_human ''ann'')))"
    by code_simp
  then show "fst (appendEvent ascii emptyState JNull (by_human ''ann'')) = emptyState"
    using append_all_or_nothing [of ascii emptyState JNull "by_human ''ann''"] by blast
qed

section \<open>Certification\<close>

text \<open>
  C4. Nobody is committed by someone else's sentence.  In every state the reducer can return, a
  commitment names as its owner a person who, by an event of the log and in their own name,
  accepted or corrected that very object.
\<close>

theorem commitment_owner_acted:
  assumes "get (objects (reduce U rows)) i = Some r"
    and "payload_owner (object_payload (object r)) = Some w"
  shows "\<exists>x \<in> set (parse_rows U rows). actor x = Human w \<and> acts_on (event x) = Some i"
proof -
  obtain xs where xs: "folds U xs (reduce U rows)" "set xs \<subseteq> set (parse_rows U rows)"
    using reduce_folds by blast
  with owners.holds [OF xs(1) assms(1)] assms(2) show ?thesis
    by (auto simp: owner_acted_def acted_def)
qed

definition commitment_rows :: "raw_row list" where
  "commitment_rows = [accept_row ''ann'' ''01'' ''c1'' (CommitmentPayload (asc ''ship it'') (asc ''ann'') None CommitmentOpen),
     correct_row ''bob'' ''02'' ''c1'' Reattribute [(asc ''owner'', jstring ''bob'')]]"

theorem commitment_owner_acted_witness:
  "\<exists>x \<in> set (parse_rows ascii commitment_rows).
     actor x = Human (asc ''bob'') \<and> acts_on (event x) = Some (asc ''c1'')"
proof -
  have "map_option (\<lambda>r. payload_owner (object_payload (object r))) (live_record commitment_rows ''c1'') =
      Some (Some (asc ''bob''))"
    by code_simp
  moreover have "length (snd (live_session ascii emptyState commitment_rows)) = length commitment_rows"
    by code_simp
  ultimately show ?thesis
    using commitment_owner_acted [of ascii commitment_rows "asc ''c1''"] by (auto simp: reduced_record)
qed

text \<open>
  C5. A verified claim was vouched for by a second person.  In every state the reducer can return,
  a verified claim has an event of the log, authored by a person other than its claimant, that
  marks that claim verified.
\<close>

theorem verified_claim_vouched:
  assumes "get (objects (reduce U rows)) i = Some r"
    and "object_payload (object r) = ClaimPayload st claimant Verified"
  shows "\<exists>x \<in> set (parse_rows U rows). \<exists>u. actor x = Human u \<and> u \<noteq> claimant \<and> vouches (event x) i"
proof -
  obtain xs where xs: "folds U xs (reduce U rows)" "set xs \<subseteq> set (parse_rows U rows)"
    using reduce_folds by blast
  from vouching.holds [OF xs(1) assms(1)] assms(2)
  have "\<exists>x \<in> set xs. \<exists>u. actor x = Human u \<and> u \<noteq> claimant \<and> vouches (event x) i"
    by (simp add: vouched_def)
  with xs(2) show ?thesis by blast
qed

definition claim_rows :: "raw_row list" where
  "claim_rows = [accept_row ''ann'' ''01'' ''k1'' (ClaimPayload (asc ''it is fast'') (asc ''ann'') Unverified),
     correct_row ''bob'' ''02'' ''k1'' Amend [(asc ''verification'', jstring ''verified'')]]"

theorem verified_claim_vouched_witness:
  "\<exists>x \<in> set (parse_rows ascii claim_rows).
     \<exists>u. actor x = Human u \<and> u \<noteq> asc ''ann'' \<and> vouches (event x) (asc ''k1'')"
proof -
  have "map_option (\<lambda>r. object_payload (object r)) (live_record claim_rows ''k1'') =
      Some (ClaimPayload (asc ''it is fast'') (asc ''ann'') Verified)"
    by code_simp
  moreover have "length (snd (live_session ascii emptyState claim_rows)) = length claim_rows"
    by code_simp
  ultimately show ?thesis
    using verified_claim_vouched [of ascii claim_rows "asc ''k1''"] by (auto simp: reduced_record)
qed

text \<open>
  What a machine's word alone can stand for.  In every state the reducer can return, an object
  no person has touched is a claim or an open question, is not a verified claim, cites the
  proposal it came from, and has never been corrected.
\<close>

theorem unconfirmed_is_a_reading:
  assumes "get (objects (reduce U rows)) i = Some r" and "epistemicStateOf r = Unconfirmed"
  shows "(object_type (object r) = Claim \<or> object_type (object r) = OpenQuestion) \<and>
    \<not> verified_claim (object_payload (object r)) \<and>
    proposalId (object_provenance (object r)) \<noteq> None \<and> revision r = 0"
proof -
  obtain xs where "folds U xs (reduce U rows)" using reduce_folds by blast
  from machine.holds [OF this assms(1)] assms(2) show ?thesis by (simp add: machine_reading_def)
qed

theorem unconfirmed_is_a_reading_witness:
  "proposalId (object_provenance (object (the (get (objects (reduce ascii model_rows)) (asc ''q1''))))) \<noteq> None \<and>
   epistemicStateOf (the (get (objects (reduce ascii model_rows)) (asc ''q1''))) = Unconfirmed"
proof -
  have "map_option epistemicStateOf (live_record model_rows ''q1'') = Some Unconfirmed"
    by code_simp
  moreover have "length (snd (live_session ascii emptyState model_rows)) = length model_rows"
    by code_simp
  ultimately show ?thesis
    using unconfirmed_is_a_reading [of ascii model_rows "asc ''q1''"] by (auto simp: reduced_record)
qed

text \<open>
  A withdrawn object is never a verified claim: the reducer refuses to retract one, and a
  withdrawn object cannot be corrected until it is restored.
\<close>

theorem withdrawn_is_not_verified:
  assumes "get (objects (reduce U rows)) i = Some r" and "retractedAt r \<noteq> None"
  shows "\<not> verified_claim (object_payload (object r))"
proof -
  obtain xs where "folds U xs (reduce U rows)" using reduce_folds by blast
  from standing.holds [OF this assms(1)] assms(2) show ?thesis by (simp add: standing_def)
qed

definition withdrawn_rows :: "raw_row list" where
  "withdrawn_rows = [accept_row ''ann'' ''01'' ''k1'' (ClaimPayload (asc ''it is fast'') (asc ''ann'') Unverified),
     correct_row ''ann'' ''02'' ''k1'' Retract []]"

theorem withdrawn_is_not_verified_witness:
  "\<not> verified_claim (object_payload (object (the (get (objects (reduce ascii withdrawn_rows)) (asc ''k1'')))))"
proof -
  have "map_option retractedAt (live_record withdrawn_rows ''k1'') = Some (Some (sample_time ''02''))"
    by code_simp
  moreover have "length (snd (live_session ascii emptyState withdrawn_rows)) = length withdrawn_rows"
    by code_simp
  ultimately show ?thesis
    using withdrawn_is_not_verified [of ascii withdrawn_rows "asc ''k1''"] by (auto simp: reduced_record)
qed

section \<open>Machine readings\<close>

text \<open>
  C7. A machine certifies only words somebody wrote.  If the acceptance of an object by an actor that
  is not a person goes through, the window it was given holds a cited message whose own words are
  exactly the statement up to spacing, written by the claimant when the object is a claim; no later
  message of the window revisits it; the payload is the proposal's; and the confidence reaches the
  floor of the type.
\<close>

theorem machine_certifies_written_words:
  assumes "snd (applyObjectAccepted U s eid t ob a ms)" and "\<not> isHuman a" and "object_ok ob"
  shows "\<exists>r w m. cited_proposal s ob = Some r \<and> ms = Some w \<and>
    carries U w (set (messageIds (object_provenance ob))) (objectStatement ob) m \<and>
    (\<forall>c. payload_claimant (object_payload ob) = Some c \<longrightarrow> authorId m = c) \<and>
    unrevised U RECEIPT_POLICY (objectStatement ob) (cites (proposal r)) w \<and>
    \<not> below_floor (confidence (proposal r)) (MODEL_ACCEPTANCE_FLOOR (object_type ob)) \<and>
    canonicalJson (payload_json (object_payload ob)) = canonicalJson (payload_json (proposal_payload (proposal r)))"
proof -
  have "c \<noteq> []" if "payload_claimant (object_payload ob) = Some c" for c
    using assms(3) that by (cases "object_payload ob") (auto simp: object_ok_def dest: Id_nonempty)
  moreover from assms(1) have "acceptance_refusal U s ob a ms = None"
    by (auto simp: applyObjectAccepted_def refuse_def split: option.splits)
  ultimately show ?thesis using machine_acceptance [OF _ assms(2)] by blast
qed

definition staged_state :: core_state where
  "staged_state = fst (live_session ascii emptyState [hd model_rows])"

theorem machine_certifies_written_words_witness:
  "\<exists>m. carries ascii sample_window {asc ''m1''} (objectStatement reading_object) m"
proof -
  have "snd (applyObjectAccepted ascii staged_state (asc ''e02'') (sample_time ''02'') reading_object
      (Model (asc ''m'')) (Some sample_window))"
    by code_simp
  moreover have "Id (asc ''m1'')" "Id (asc ''p1'')" "Id (asc ''q1'')" "Id (asc ''room'')" "Timestamp (sample_time ''00'')"
    by code_simp+
  then have "object_ok reading_object"
    by (simp add: object_ok_def provenance_ok_def reading_object_def sample_object_def reading_def asc_def)
  ultimately show ?thesis
    using machine_certifies_written_words [of ascii staged_state "asc ''e02''" "sample_time ''02''"
        reading_object "Model (asc ''m'')" "Some sample_window"]
    by (auto simp: reading_object_def)
qed

text \<open>
  C8. Every unconfirmed object repeats what somebody wrote.  In every state the reducer can return,
  an object no person has touched was accepted by an event of the log whose window holds a cited
  message with exactly those words, written by the claimant when the object is a claim.
\<close>

theorem unconfirmed_words_were_written:
  assumes "get (objects (reduce U rows)) i = Some r" and "epistemicStateOf r = Unconfirmed"
  shows "\<exists>x \<in> set (parse_rows U rows). \<exists>w m. acts_on (event x) = Some i \<and> messages x = Some w \<and>
    carries U w (set (messageIds (object_provenance (object r)))) (objectStatement (object r)) m \<and>
    (\<forall>c. payload_claimant (object_payload (object r)) = Some c \<longrightarrow> authorId m = c)"
proof -
  obtain xs where xs: "folds U xs (reduce U rows)" "set xs \<subseteq> set (parse_rows U rows)"
    using reduce_folds by blast
  from words.holds [OF xs(1) assms(1)] assms(2) xs(2) show ?thesis
    unfolding written_def by blast
qed

theorem unconfirmed_words_were_written_witness:
  "\<exists>x \<in> set (parse_rows ascii model_rows). \<exists>w m. messages x = Some w \<and>
     carries ascii w (set (messageIds (object_provenance (object (the (live_record model_rows ''q1''))))))
       (objectStatement (object (the (live_record model_rows ''q1'')))) m"
proof -
  have "map_option epistemicStateOf (live_record model_rows ''q1'') = Some Unconfirmed"
    by code_simp
  moreover have "length (snd (live_session ascii emptyState model_rows)) = length model_rows"
    by code_simp
  ultimately show ?thesis
    using unconfirmed_words_were_written [of ascii model_rows "asc ''q1''" "the (live_record model_rows ''q1'')"]
    by (auto simp: reduced_record; blast)
qed

section \<open>The structure of the record\<close>

text \<open>
  C9. Nothing is ever removed.  Whatever one event does, every object stays under its id in its
  room with its provenance, every proposal stays with the text it was staged with, and the
  relations, the corrections, the issues and the consumed ids only grow at the end.
\<close>

theorem record_only_grows:
  "(\<forall>i r. get (objects s) i = Some r \<longrightarrow> (\<exists>r'. get (objects (fst (appendEvent U s j c))) i = Some r' \<and>
      object_roomId (object r') = object_roomId (object r) \<and>
      object_provenance (object r') = object_provenance (object r))) \<and>
   (\<forall>i p. get (proposals s) i = Some p \<longrightarrow> (\<exists>p'. get (proposals (fst (appendEvent U s j c))) i = Some p' \<and>
      proposal p' = proposal p)) \<and>
   (\<exists>new. relations (fst (appendEvent U s j c)) = relations s @ new) \<and>
   (\<exists>new. corrections (fst (appendEvent U s j c)) = corrections s @ new) \<and>
   (\<exists>new. issues (fst (appendEvent U s j c)) = issues s @ new) \<and>
   (\<exists>new. consumedEventIds (fst (appendEvent U s j c)) = consumedEventIds s @ new)"
proof (cases "fst (appendEvent U s j c) = s")
  case False
  then obtain x where x: "fst (appendEvent U s j c) = fst (consume U s x)"
    by (auto simp: appendEvent_def append_authored_def split: option.splits)
  have "\<exists>r'. get (objects (fst (dispatch U s x))) i = Some r' \<and>
      object_roomId (object r') = object_roomId (object r) \<and>
      object_provenance (object r') = object_provenance (object r)" if "get (objects s) i = Some r" for i r
    using object_survives [OF that, of U x] object_kept [OF that, of U x] by metis
  moreover have "\<exists>p'. get (proposals (fst (dispatch U s x))) i = Some p' \<and> proposal p' = proposal p"
    if "get (proposals s) i = Some p" for i p
    using proposal_stays [OF that, of U x] by blast
  moreover have "\<exists>new. relations (fst (dispatch U s x)) = relations s @ new"
    using relations_change [of U s x] by auto
  moreover have "\<exists>new. corrections (fst (dispatch U s x)) = corrections s @ new"
    using corrections_change [of U s x] by auto
  ultimately show ?thesis using consume_issues [of U s x] by (simp add: x consume_get consume_simps)
qed auto

text \<open>
  The witness is a correction of an object that is there, after a refused one: the object is kept,
  the correction and the id are written at the end, and the issue of the refused row stays.
\<close>

definition troubled_state :: core_state where
  "troubled_state = fst (live_session ascii emptyState
     [accept_row ''ann'' ''01'' ''c1'' (CommitmentPayload (asc ''ship it'') (asc ''ann'') None CommitmentOpen),
      correct_row ''ann'' ''02'' ''c1'' Restore []])"

definition troubled_next :: core_state where
  "troubled_next = fst (appendEvent ascii troubled_state (fst (correct_row ''ann'' ''03'' ''c1'' Retract [])) (by_human ''ann''))"

theorem record_only_grows_witness:
  "length (corrections troubled_next) = 1 \<and> length (issues troubled_next) = 1 \<and> issues troubled_next = issues troubled_state \<and>
   (\<exists>r'. get (objects troubled_next) (asc ''c1'') = Some r' \<and> object_roomId (object r') = asc ''room'')"
proof -
  have "let s = troubled_state; s' = fst (appendEvent ascii s (fst (correct_row ''ann'' ''03'' ''c1'' Retract [])) (by_human ''ann'')) in
    length (corrections s') = 1 \<and> length (issues s') = 1 \<and> length (issues s) = 1 \<and>
    map_option (\<lambda>r. object_roomId (object r)) (get (objects s) (asc ''c1'')) = Some (asc ''room'')" by code_simp
  then show ?thesis unfolding Let_def
    using record_only_grows [of troubled_state ascii "fst (correct_row ''ann'' ''03'' ''c1'' Retract [])" "by_human ''ann''"]
    by (auto simp: troubled_next_def [symmetric]; metis)
qed

text \<open>
  C10. The state stays readable.  In every state the reducer can return, an object is stored under its own
  id, and as it stands, its two instants included, its printed form reads back through its schema as the same
  object: no correction, retype, supersession or answer leaves a payload, envelope, provenance or
  \<open>updatedAt\<close> the schema would refuse.
\<close>

theorem state_stays_readable:
  assumes "get (objects (reduce U rows)) i = Some r"
  shows "AcceptedObject (object_json (object r)) = Some (object r) \<and> object_id (object r) = i"
proof -
  obtain xs where xs: "folds U xs (reduce U rows)" using reduce_folds by blast
  from wf.holds [OF xs assms] stamped_reachable [OF xs] assms show ?thesis
    by (auto simp: wf_object_def object_ok_def stamped_def intro!: object_roundtrip_aux)
qed

theorem state_stays_readable_witness:
  "AcceptedObject (object_json (object (the (live_record commitment_rows ''c1'')))) =
     Some (object (the (live_record commitment_rows ''c1'')))"
proof -
  have "live_record commitment_rows ''c1'' \<noteq> None" by code_simp
  moreover have "length (snd (live_session ascii emptyState commitment_rows)) = length commitment_rows" by code_simp
  ultimately show ?thesis using state_stays_readable [of ascii commitment_rows "asc ''c1''"] by (auto simp: reduced_record)
qed

text \<open>
  C11. Objective pointers hold.  In every state the reducer can return, an object filed under an
  objective names an object of the record that is an objective of the same room: no retype and no
  correction takes the objective away from under it.
\<close>

theorem objective_pointers_hold:
  assumes "get (objects (reduce U rows)) i = Some r" and "object_objectiveId (object r) = Some oid"
  shows "\<exists>q. get (objects (reduce U rows)) oid = Some q \<and> object_type (object q) = Objective \<and>
    object_roomId (object q) = object_roomId (object r)"
proof -
  obtain xs where "folds U xs (reduce U rows)" using reduce_folds by blast
  from objectives_ok_reachable [OF this] assms show ?thesis unfolding objectives_ok_def by blast
qed

definition filed_rows :: "raw_row list" where
  "filed_rows = [accept_row ''ann'' ''01'' ''o1'' (ObjectivePayload (asc ''ship'') ObjectiveOpen),
     (event_json (ObjectAccepted (asc ''e02'') (sample_time ''02'')
        ((sample_object ''d1'' (decision ''use x''))\<lparr>object_objectiveId := Some (asc ''o1'')\<rparr>)), by_human ''bob''),
     correct_row ''ann'' ''03'' ''o1'' Retract []]"

theorem objective_pointers_hold_witness:
  "\<exists>q. get (objects (reduce ascii filed_rows)) (asc ''o1'') = Some q \<and> object_type (object q) = Objective"
proof -
  have "map_option (\<lambda>r. object_objectiveId (object r)) (live_record filed_rows ''d1'') = Some (Some (asc ''o1''))"
    by code_simp
  moreover have "length (snd (live_session ascii emptyState filed_rows)) = length filed_rows"
    by code_simp
  ultimately show ?thesis
    using objective_pointers_hold [of ascii filed_rows "asc ''d1''" _ "asc ''o1''"] by (auto simp: reduced_record)
qed

text \<open>
  Relations join what exists.  In every state the reducer can return, relation ids are distinct
  and every relation has the shape its kind asks for, starts at an object of its own room and, when
  it points at an object, points at one of that room.
\<close>

theorem relations_join_one_room: "relations_ok (reduce U rows)"
proof -
  obtain xs where "folds U xs (reduce U rows)" using reduce_folds by blast
  then show ?thesis by (rule relations_ok_reachable)
qed

text \<open>
  C12. A proposal becomes at most one object.  In every state the reducer can return, a proposal is
  accepted exactly when it names the object it became, that object cites it back, and every object
  that cites a proposal is the one the proposal names, in the same room.
\<close>

theorem proposal_accepted_once: "proposals_linked (reduce U rows)"
proof -
  obtain xs where "folds U xs (reduce U rows)" using reduce_folds by blast
  then show ?thesis by (rule proposals_linked_reachable)
qed

text \<open>
  Live answers are well typed.  In every state the reducer can return, an answer that has not
  been reopened starts at an open question and ends at a decision or a claim, whatever retypes the
  log holds.
\<close>

theorem live_answers_typed: "answers_ok (reduce U rows)"
proof -
  obtain xs where "folds U xs (reduce U rows)" using reduce_folds by blast
  then show ?thesis by (rule answers_ok_reachable)
qed

text \<open>
  The correction log accounts for every revision.  In every state the reducer can return, each
  entry of the log was made by a person on an object of the record, and the revision of an object is
  the number of entries it has.
\<close>

theorem corrections_account_for_revisions: "corrections_ok (reduce U rows)"
proof -
  obtain xs where "folds U xs (reduce U rows)" using reduce_folds by blast
  then show ?thesis by (rule corrections_ok_reachable)
qed

section \<open>Supersession\<close>

text \<open>
  C13. The cycle check decides reachability.  As long as the supersession pointers are acyclic, the
  walk of \<open>supersessionWouldCycle\<close> answers yes exactly when the target can be reached from the
  superseder along them.
\<close>

theorem cycle_check_is_reachability:
  assumes "acyclic (superseded_by (objects s))"
  shows "supersessionWouldCycle s fromId targetId \<longleftrightarrow> (fromId, targetId) \<in> (superseded_by (objects s))\<^sup>*"
  using walk_reachable [OF assms] by (simp add: supersessionWouldCycle_def)

theorem cycle_check_is_reachability_witness:
  "supersessionWouldCycle emptyState (asc ''d1'') (asc ''d1'')"
  using cycle_check_is_reachability [of emptyState "asc ''d1''" "asc ''d1''"]
  by (simp add: emptyState_def superseded_by_def acyclic_def)

text \<open>
  C14. Without a restore, supersession never forms a cycle: from a log in which no object is
  restored, the reducer returns a state whose supersession pointers are acyclic.
\<close>

theorem supersession_acyclic_without_restore:
  assumes "\<forall>x \<in> set (parse_rows U rows). no_restore (event x)"
  shows "acyclic (superseded_by (objects (reduce U rows)))"
proof -
  obtain xs where "folds U xs (reduce U rows)" "set xs \<subseteq> set (parse_rows U rows)"
    using reduce_folds by blast
  with acyclic_reachable assms show ?thesis by blast
qed

definition superseding_rows :: "raw_row list" where
  "superseding_rows = [accept_row ''ann'' ''01'' ''d1'' (decision ''use x''),
     accept_row ''bob'' ''02'' ''d2'' (decision ''use y''),
     relate_row ''bob'' ''03'' Supersedes ''d2'' ''d1'']"

theorem supersession_acyclic_without_restore_witness:
  "acyclic (superseded_by (objects (reduce ascii superseding_rows)))"
proof (rule supersession_acyclic_without_restore)
  show "\<forall>x \<in> set (parse_rows ascii superseding_rows). no_restore (event x)"
    by code_simp
qed

text \<open>
  C15. A restore reapplies supersessions unchecked.  In every state the reducer can return, a person's restore of a
  withdrawn object always goes through, and every \<open>supersedes\<close> edge from that object takes back its target
  wherever nothing else supersedes the target by then, whatever the graph looks like.  So a restore closes a cycle
  exactly when one of the targets it takes back can already be reached from the restored object, a
  question \<open>applyRelationAdded\<close> asks of a new edge and the restore does not ask.
\<close>

theorem restore_reapplies_unchecked:
  assumes "get (objects (reduce U rows)) (corrected_objectId c) = Some r" and "retractedAt r \<noteq> None"
    and "corrected_action c = Restore" and "isHuman a"
  shows "\<exists>s'. applyObjectCorrected (reduce U rows) c a = (s', True) \<and>
    superseded_by (objects s') = superseded_by (objects (reduce U rows)) \<union>
      {(t, corrected_objectId c) | t. \<exists>e \<in> set (supersessionEdges (reduce U rows) (corrected_objectId c)). free_target (reduce U rows) e t} \<and>
    (acyclic (superseded_by (objects s')) \<longleftrightarrow> acyclic (superseded_by (objects (reduce U rows))) \<and>
      (\<forall>e \<in> set (supersessionEdges (reduce U rows) (corrected_objectId c)). \<forall>t. free_target (reduce U rows) e t \<longrightarrow>
         (corrected_objectId c, t) \<notin> (superseded_by (objects (reduce U rows)))\<^sup>*))"
proof -
  obtain xs where "folds U xs (reduce U rows)" using reduce_folds by blast
  from wf.holds [OF this assms(1)] have "object_id (object r) = corrected_objectId c" by (simp add: wf_object_def)
  moreover obtain s' where "applyObjectCorrected (reduce U rows) c a = (s', True)"
    using restore_goes_through [OF assms] by (metis prod.collapse)
  ultimately show ?thesis using restore_graph [OF assms(1,3), of a s'] by (auto simp: acyclic_into)
qed

definition cycle_rows :: "raw_row list" where
  "cycle_rows = [accept_row ''ann'' ''01'' ''d1'' (decision ''use x''),
     accept_row ''bob'' ''02'' ''d2'' (decision ''use y''),
     relate_row ''ann'' ''03'' Supersedes ''d1'' ''d2'',
     correct_row ''ann'' ''04'' ''d1'' Retract [],
     relate_row ''bob'' ''05'' Supersedes ''d2'' ''d1'']"

definition cycle_restore :: correction_event where
  "cycle_restore = \<lparr>corrected_id = asc ''e06'', corrected_at = sample_time ''06'', corrected_objectId = asc ''d1'',
     corrected_action = Restore, patch = [], toType = None, corrected_provenance = emptyProvenance, corrected_note = None\<rparr>"

theorem restore_reapplies_unchecked_witness:
  "\<not> acyclic (superseded_by (objects (fst (applyObjectCorrected (reduce ascii cycle_rows) cycle_restore (Human (asc ''ann''))))))"
proof -
  let ?s = "fst (live_session ascii emptyState cycle_rows)" let ?i = "asc ''d1''" let ?j = "asc ''d2''"
  have live: "reduce ascii cycle_rows = ?s" by (rule reduced_live) code_simp
  have "let s = ?s in map_option supersededById (get (objects s) ?i) = Some (Some ?j) \<and>
    map_option supersededById (get (objects s) ?j) = Some None \<and>
    map_option (\<lambda>r. retractedAt r = None) (get (objects s) ?i) = Some False \<and>
    map relation_to (supersessionEdges s ?i) = [ToObject ?j]" by code_simp
  then obtain r e where r: "get (objects ?s) ?i = Some r" "retractedAt r \<noteq> None" "(?i, ?j) \<in> superseded_by (objects ?s)"
    and e: "e \<in> set (supersessionEdges ?s ?i)" "free_target ?s e ?j"
    by (auto simp: superseded_by_def free_target_def Let_def)
  moreover have "corrected_objectId cycle_restore = ?i" "corrected_action cycle_restore = Restore" by (simp_all add: cycle_restore_def)
  ultimately show ?thesis
    using restore_reapplies_unchecked [of ascii cycle_rows cycle_restore r "Human (asc ''ann'')"] unfolding live by (auto 4 4)
qed

text \<open>
  The same log with the restore appended, as the fold sees it: two people supersede each other's decisions
  while one of them is withdrawn, no issue is reported, and each decision ends superseded by the other.
\<close>

theorem restore_closes_a_cycle:
  "let s = reduce ascii (cycle_rows @ [correct_row ''ann'' ''06'' ''d1'' Restore []]) in
   issues s = [] \<and> (asc ''d1'', asc ''d2'') \<in> superseded_by (objects s) \<and> (asc ''d2'', asc ''d1'') \<in> superseded_by (objects s)"
proof -
  let ?rows = "cycle_rows @ [correct_row ''ann'' ''06'' ''d1'' Restore []]"
  have all: "length (snd (live_session ascii emptyState ?rows)) = length ?rows" by code_simp
  have "let s = fst (live_session ascii emptyState ?rows) in map_option supersededById (get (objects s) (asc ''d1'')) = Some (Some (asc ''d2'')) \<and>
    map_option supersededById (get (objects s) (asc ''d2'')) = Some (Some (asc ''d1'')) \<and> issues s = []" by code_simp
  then show ?thesis by (auto simp: superseded_by_def reduced_live [OF all] Let_def)
qed

definition ghost_rows :: "raw_row list" where
  "ghost_rows = [accept_row ''ann'' ''01'' ''d1'' (decision ''use x''),
     accept_row ''bob'' ''02'' ''d2'' (decision ''use y''),
     correct_row ''ann'' ''03'' ''d1'' Retract [],
     relate_row ''ann'' ''04'' Supersedes ''d1'' ''d2'']"

text \<open>
  A withdrawn object can still retire a live one.  The gates of a \<open>supersedes\<close> edge do not ask
  whether its source is withdrawn: a decision superseded by a retracted one is reported nowhere.
\<close>

theorem withdrawn_object_supersedes:
  "issues (reduce ascii ghost_rows) = [] \<and>
   map_option (\<lambda>r. retractedAt r \<noteq> None) (get (objects (reduce ascii ghost_rows)) (asc ''d1'')) = Some True \<and>
   map_option supersededById (get (objects (reduce ascii ghost_rows)) (asc ''d2'')) = Some (Some (asc ''d1''))"
proof -
  have all: "length (snd (live_session ascii emptyState ghost_rows)) = length ghost_rows"
    by code_simp
  have "map_option (\<lambda>r. retractedAt r \<noteq> None) (live_record ghost_rows ''d1'') = Some True"
    "map_option supersededById (live_record ghost_rows ''d2'') = Some (Some (asc ''d1''))"
    "issues (fst (live_session ascii emptyState ghost_rows)) = []"
    by code_simp+
  then show ?thesis by (simp add: reduced_live [OF all] live_record_def)
qed

definition twice_rows :: "raw_row list" where
  "twice_rows = [accept_row ''ann'' ''01'' ''q1'' (OpenQuestionPayload (asc ''which?'') QuestionOpen),
     accept_row ''ann'' ''02'' ''d1'' (decision ''use x''),
     relate_row ''ann'' ''03'' Answers ''q1'' ''d1'',
     correct_row ''bob'' ''04'' ''q1'' Amend [(asc ''status'', jstring ''open'')],
     relate_row ''bob'' ''05'' Answers ''q1'' ''d1'']"

text \<open>
  An amendment can reopen an answered question behind its answer: the status goes back to open,
  the old answer stays live, and a second answer lands beside it with no issue reported.
\<close>

theorem amended_question_answered_twice:
  "issues (reduce ascii twice_rows) = [] \<and> length (liveAnswers (reduce ascii twice_rows)) = 2"
proof -
  have all: "length (snd (live_session ascii emptyState twice_rows)) = length twice_rows"
    by code_simp
  have "issues (fst (live_session ascii emptyState twice_rows)) = []"
    "length (liveAnswers (fst (live_session ascii emptyState twice_rows))) = 2"
    by code_simp+
  then show ?thesis by (simp add: reduced_live [OF all])
qed

section \<open>Names and words\<close>

text \<open>
  C16. Nobody's words change under their name.  Whatever one event does to an object that is already
  there, either its statement and the people it names stay as they were, or the author is a person
  who adds nobody's name but their own, and changes the statement only if the result names nobody
  else.
\<close>

theorem words_change_under_own_name:
  assumes "get (objects s) i = Some r" and "get (objects (fst (appendEvent U s j c))) i = Some r'"
  shows "(objectStatement (object r') = objectStatement (object r) \<and>
      attributions (object_payload (object r')) = attributions (object_payload (object r))) \<or>
    (\<exists>u. actor c = Human u \<and>
      set (attributions (object_payload (object r'))) \<subseteq> insert u (set (attributions (object_payload (object r)))) \<and>
      (objectStatement (object r') \<noteq> objectStatement (object r) \<longrightarrow>
        set (attributions (object_payload (object r'))) \<subseteq> {u}))"
proof (cases "fst (appendEvent U s j c) = s")
  case True
  with assms show ?thesis by simp
next
  case False
  then obtain e where x: "fst (appendEvent U s j c) = fst (consume U s (authored e c))"
    by (auto simp: appendEvent_def append_authored_def split: option.splits)
  let ?x = "authored e c"
  have actor: "actor ?x = actor c" by (simp add: authored_def trusted_context.defs)
  from assms(2) x have "get (objects (fst (dispatch U s ?x))) i = Some r'" by (simp add: consume_get)
  from object_change [OF this] show ?thesis
  proof (elim disjE exE conjE)
    fix q assume "corrects s ?x i q r'"
    then obtain d u p where "get (objects s) i = Some q" "actor c = Human u"
        and gates: "correction_gates s d (Human u) q p = None"
        and book: "bookkept (corrected_record d q (Human u) (lapse_plan (object q) p)) r'"
      by (auto simp: corrects_def isHuman_iff actor)
    with assms(1) gate_attribution [OF gates] gate_reword [OF gates] bookkept_facts(2,3) [OF book] show ?thesis
      by (auto simp: lapse_plan_facts)
  qed (use assms(1) in \<open>auto simp: bookkept_facts accepts_def\<close>)
qed

theorem words_change_under_own_name_witness:
  "let s = fst (live_session ascii emptyState [hd commitment_rows]);
       row = hd (tl commitment_rows);
       r' = the (get (objects (fst (appendEvent ascii s (fst row) (snd row)))) (asc ''c1''))
   in set (attributions (object_payload (object r'))) \<subseteq> {asc ''bob'', asc ''ann''}"
proof -
  define s where "s = fst (live_session ascii emptyState [hd commitment_rows])"
  define row where "row = hd (tl commitment_rows)"
  have "map_option (\<lambda>r. attributions (object_payload (object r))) (get (objects s) (asc ''c1'')) = Some [asc ''ann'']"
    "get (objects (fst (appendEvent ascii s (fst row) (snd row)))) (asc ''c1'') \<noteq> None"
    "actor (snd row) = Human (asc ''bob'')"
    unfolding s_def row_def by code_simp+
  then show ?thesis
    using words_change_under_own_name [of s "asc ''c1''" _ ascii "fst row" "snd row"]
    unfolding s_def [symmetric] row_def [symmetric] Let_def by force
qed

end
